(* ===== verification/Go_Strings.thy ===== *)
theory Go_Strings
  imports Prelude
begin

text \<open>
  The functions of Go's \<open>strings\<close> package that the code calls, on byte strings.
  White space is Unicode's, as in \<open>strings.TrimSpace\<close> and \<open>strings.Fields\<close>: the six
  ASCII spaces and the UTF-8 encodings of the other characters of class White\_Space.
  No encoding of a space starts with a continuation byte, so testing the encodings as
  byte prefixes reads the same spaces as decoding rune by rune.
\<close>

section \<open>Prefixes, suffixes and positions\<close>

definition has_prefix :: "string \<Rightarrow> string \<Rightarrow> bool" where
  "has_prefix s p \<longleftrightarrow> take (length p) s = p"

definition has_suffix :: "string \<Rightarrow> string \<Rightarrow> bool" where
  "has_suffix s t \<longleftrightarrow> length t \<le> length s \<and> drop (length s - length t) s = t"

definition trim_prefix :: "string \<Rightarrow> string \<Rightarrow> string" where
  "trim_prefix s p = (if has_prefix s p then drop (length p) s else s)"

definition cut_prefix :: "string \<Rightarrow> string \<Rightarrow> string option" where
  "cut_prefix s p = (if has_prefix s p then Some (drop (length p) s) else None)"

lemma has_prefix_iff: "has_prefix s p \<longleftrightarrow> (\<exists>u. s = p @ u)"
  by (auto simp: has_prefix_def) (metis append_take_drop_id)

lemma has_prefix_Nil [simp]: "has_prefix s []"
  by (simp add: has_prefix_def)

lemma has_prefix_Cons [simp]: "has_prefix s (c # p) \<longleftrightarrow> s \<noteq> [] \<and> hd s = c \<and> has_prefix (tl s) p"
  by (cases s) (auto simp: has_prefix_def)

lemma has_prefix_of_Nil [simp]: "has_prefix [] p \<longleftrightarrow> p = []"
  by (auto simp: has_prefix_def)

lemma has_prefix_append [simp]: "has_prefix (p @ u) p"
  by (auto simp: has_prefix_iff)

lemma has_suffix_iff: "has_suffix s t \<longleftrightarrow> (\<exists>u. s = u @ t)"
proof
  assume "has_suffix s t"
  then have "s = take (length s - length t) s @ t"
    by (metis has_suffix_def append_take_drop_id)
  then show "\<exists>u. s = u @ t" ..
qed (auto simp: has_suffix_def)

lemma has_suffix_append [simp]: "has_suffix (u @ t) t"
  by (auto simp: has_suffix_iff)

lemma has_suffix_Nil [simp]: "has_suffix s []"
  by (auto simp: has_suffix_iff)

text \<open>\<open>strings.IndexByte\<close> and \<open>strings.LastIndex\<close> of one byte; the \<open>-1\<close> of the code is \<open>None\<close>.\<close>

fun index_byte :: "char \<Rightarrow> string \<Rightarrow> nat option" where
  "index_byte c [] = None"
| "index_byte c (d # s) = (if d = c then Some 0 else map_option Suc (index_byte c s))"

fun last_index_byte :: "char \<Rightarrow> string \<Rightarrow> nat option" where
  "last_index_byte c [] = None"
| "last_index_byte c (d # s) =
     (case last_index_byte c s of
        Some i \<Rightarrow> Some (Suc i)
      | None \<Rightarrow> if d = c then Some 0 else None)"

lemma index_byte_None [simp]: "index_byte c s = None \<longleftrightarrow> c \<notin> set s"
  by (induction s) auto

lemma last_index_byte_None [simp]: "last_index_byte c s = None \<longleftrightarrow> c \<notin> set s"
  by (induction s) (auto split: option.splits)

lemma index_byte_append [gostr]:
  "c \<notin> set u \<Longrightarrow> index_byte c (u @ c # v) = Some (length u)"
  by (induction u) auto

lemma last_index_byte_append [gostr]:
  "c \<notin> set v \<Longrightarrow> last_index_byte c (u @ c # v) = Some (length u)"
  by (induction u) (auto split: option.splits)

lemma last_index_byte_SomeD:
  "last_index_byte c s = Some i \<Longrightarrow> i < length s \<and> s = take i s @ c # drop (Suc i) s \<and> c \<notin> set (drop (Suc i) s)"
  by (induction s arbitrary: i) (auto split: option.splits if_splits)

text \<open>\<open>strings.SplitN(s, sep, 2)\<close> for a one-byte separator: the two parts, or \<open>None\<close> for one part.\<close>

fun split_2 :: "char \<Rightarrow> string \<Rightarrow> (string \<times> string) option" where
  "split_2 c [] = None"
| "split_2 c (d # s) =
     (if d = c then Some ([], s)
      else case split_2 c s of None \<Rightarrow> None | Some (a, b) \<Rightarrow> Some (d # a, b))"

lemma split_2_None [simp]: "split_2 c s = None \<longleftrightarrow> c \<notin> set s"
  by (induction s) (auto split: option.splits)

lemma split_2_absent [gostr]: "c \<notin> set s \<Longrightarrow> split_2 c s = None"
  by simp

lemma split_2_SomeD: "split_2 c s = Some (a, b) \<Longrightarrow> s = a @ c # b \<and> c \<notin> set a"
  by (induction s arbitrary: a) (auto split: option.splits if_splits)

lemma split_2_append [gostr]: "c \<notin> set a \<Longrightarrow> split_2 c (a @ c # b) = Some (a, b)"
  by (induction a) auto

text \<open>\<open>strings.Split\<close> at a byte.\<close>

fun split_on :: "char \<Rightarrow> string \<Rightarrow> string list" where
  "split_on c [] = [[]]"
| "split_on c (d # s) =
     (if d = c then [] # split_on c s
      else case split_on c s of [] \<Rightarrow> [[d]] | x # xs \<Rightarrow> (d # x) # xs)"

lemma split_on_nonempty [simp]: "split_on c s \<noteq> []"
  by (cases s) (auto split: list.splits)

lemma split_on_absent: "c \<notin> set s \<Longrightarrow> split_on c s = [s]"
  by (induction s) auto

lemma split_on_append: "c \<notin> set a \<Longrightarrow> split_on c (a @ c # b) = a # split_on c b"
  by (induction a) auto

text \<open>\<open>strings.ReplaceAll\<close>: non-overlapping occurrences, left to right; the code never passes an empty \<open>old\<close>.\<close>

function replace_all :: "string \<Rightarrow> string \<Rightarrow> string \<Rightarrow> string" where
  "replace_all old new s =
     (if old = [] \<or> s = [] then s
      else if has_prefix s old then new @ replace_all old new (drop (length old) s)
      else hd s # replace_all old new (tl s))"
  by pat_completeness auto
termination
  by (relation "measure (\<lambda>(old, new, s). length s)") auto

declare replace_all.simps [simp del]

lemma replace_all_Nil [simp]: "replace_all old new [] = []"
  by (simp add: replace_all.simps)

lemma replace_all_hit:
  "old \<noteq> [] \<Longrightarrow> replace_all old new (old @ s) = new @ replace_all old new s"
  by (subst replace_all.simps) simp

lemma replace_all_miss:
  "\<lbrakk>old \<noteq> []; \<not> has_prefix (c # s) old\<rbrakk> \<Longrightarrow> replace_all old new (c # s) = c # replace_all old new s"
  by (subst replace_all.simps) simp

section \<open>White space\<close>

definition utf8_spaces :: "string list" where
  "utf8_spaces =
     [[CHR 0x09], [CHR 0x0A], [CHR 0x0B], [CHR 0x0C], [CHR 0x0D], [CHR 0x20],
      [CHR 0xC2, CHR 0x85], [CHR 0xC2, CHR 0xA0], [CHR 0xE1, CHR 0x9A, CHR 0x80],
      [CHR 0xE2, CHR 0x80, CHR 0x80], [CHR 0xE2, CHR 0x80, CHR 0x81],
      [CHR 0xE2, CHR 0x80, CHR 0x82], [CHR 0xE2, CHR 0x80, CHR 0x83],
      [CHR 0xE2, CHR 0x80, CHR 0x84], [CHR 0xE2, CHR 0x80, CHR 0x85],
      [CHR 0xE2, CHR 0x80, CHR 0x86], [CHR 0xE2, CHR 0x80, CHR 0x87],
      [CHR 0xE2, CHR 0x80, CHR 0x88], [CHR 0xE2, CHR 0x80, CHR 0x89],
      [CHR 0xE2, CHR 0x80, CHR 0x8A], [CHR 0xE2, CHR 0x80, CHR 0xA8],
      [CHR 0xE2, CHR 0x80, CHR 0xA9], [CHR 0xE2, CHR 0x80, CHR 0xAF],
      [CHR 0xE2, CHR 0x81, CHR 0x9F], [CHR 0xE3, CHR 0x80, CHR 0x80]]"

text \<open>Remove from the front, as long as there is one, a member of a list of words.\<close>

function strip_words :: "string list \<Rightarrow> string \<Rightarrow> string" where
  "strip_words ws s =
     (case find (\<lambda>w. w \<noteq> [] \<and> has_prefix s w) ws of
        None \<Rightarrow> s
      | Some w \<Rightarrow> strip_words ws (drop (length w) s))"
  by pat_completeness auto
termination
proof (relation "measure (\<lambda>(ws, s). length s)", simp)
  fix ws s w
  assume "find (\<lambda>w. w \<noteq> [] \<and> has_prefix s w) ws = Some w"
  then have "w \<noteq> []" "has_prefix s w" by (auto dest: find_SomeD)
  then show "((ws, drop (length w) s), ws, s) \<in> measure (\<lambda>(ws, s). length s)"
    by (auto simp: has_prefix_iff)
qed

declare strip_words.simps [simp del]

definition trim_left_space :: "string \<Rightarrow> string" where
  "trim_left_space s = strip_words utf8_spaces s"

definition trim_right_space :: "string \<Rightarrow> string" where
  "trim_right_space s = rev (strip_words (map rev utf8_spaces) (rev s))"

definition trim_space :: "string \<Rightarrow> string" where
  "trim_space s = trim_right_space (trim_left_space s)"

text \<open>\<open>strings.Trim\<close> and \<open>strings.TrimRight\<close> with a cut set of ASCII bytes.\<close>

definition trim_set :: "string \<Rightarrow> string \<Rightarrow> string" where
  "trim_set s cs = rev (dropWhile (\<lambda>c. c \<in> set cs) (rev (dropWhile (\<lambda>c. c \<in> set cs) s)))"

definition trim_right_set :: "string \<Rightarrow> string \<Rightarrow> string" where
  "trim_right_set s cs = rev (dropWhile (\<lambda>c. c \<in> set cs) (rev s))"

lemma strip_words_fix:
  "(\<And>w. w \<in> set ws \<Longrightarrow> w \<noteq> [] \<Longrightarrow> \<not> has_prefix s w) \<Longrightarrow> strip_words ws s = s"
  by (subst strip_words.simps) (auto split: option.splits dest: find_SomeD)

lemma strip_words_clean:
  "\<lbrakk>w \<in> set ws; w \<noteq> []\<rbrakk> \<Longrightarrow> \<not> has_prefix (strip_words ws s) w"
proof (induction ws s rule: strip_words.induct)
  case (1 ws s)
  show ?case
  proof (cases "find (\<lambda>w. w \<noteq> [] \<and> has_prefix s w) ws")
    case None
    then have "strip_words ws s = s" by (simp add: strip_words.simps [of ws s])
    with None 1 show ?thesis by (auto simp: find_None_iff)
  next
    case (Some v)
    with 1 show ?thesis by (simp add: strip_words.simps [of ws s])
  qed
qed

lemma strip_words_suffix: "\<exists>u. s = u @ strip_words ws s"
proof (induction ws s rule: strip_words.induct)
  case (1 ws s)
  show ?case
  proof (cases "find (\<lambda>w. w \<noteq> [] \<and> has_prefix s w) ws")
    case None
    then show ?thesis by (auto simp: strip_words.simps [of ws s])
  next
    case (Some w)
    then have "s = w @ drop (length w) s"
      by (auto dest: find_SomeD simp: has_prefix_iff)
    moreover from 1 [OF Some] obtain u where "drop (length w) s = u @ strip_words ws s"
      using Some by (auto simp: strip_words.simps [of ws s])
    ultimately have "s = (w @ u) @ strip_words ws s" by simp
    then show ?thesis ..
  qed
qed

lemma has_prefix_trans: "has_prefix p w \<Longrightarrow> has_prefix (p @ u) w"
  by (auto simp: has_prefix_iff)

lemma trim_right_space_prefix: "\<exists>u. s = trim_right_space s @ u"
  using strip_words_suffix [of "rev s" "map rev utf8_spaces"]
  by (metis rev_append rev_rev_ident trim_right_space_def)

text \<open>No space begins or ends the trimmed string, so trimming twice is trimming once.\<close>

lemma trim_space_no_leading:
  assumes "w \<in> set utf8_spaces"
  shows "\<not> has_prefix (trim_space s) w"
proof
  have "w \<noteq> []" using assms by (auto simp: utf8_spaces_def)
  moreover assume "has_prefix (trim_space s) w"
  then have "has_prefix (trim_left_space s) w"
    using trim_right_space_prefix [of "trim_left_space s"]
    by (metis has_prefix_trans trim_space_def)
  ultimately show False
    using strip_words_clean assms by (auto simp: trim_left_space_def)
qed

lemma trim_right_space_idem: "trim_right_space (trim_right_space s) = trim_right_space s"
  unfolding trim_right_space_def by (subst strip_words_fix) (auto simp: strip_words_clean)

lemma trim_space_idem [simp]: "trim_space (trim_space s) = trim_space s"
proof -
  have "trim_left_space (trim_space s) = trim_space s"
    unfolding trim_left_space_def by (rule strip_words_fix) (simp add: trim_space_no_leading)
  then show ?thesis
    by (simp add: trim_space_def [of "trim_space s"])
       (simp add: trim_space_def trim_right_space_idem)
qed

text \<open>Printing ASCII: a string of such characters has no space to trim or to split at.\<close>

definition graph_char :: "char \<Rightarrow> bool" where
  "graph_char c \<longleftrightarrow> 0x21 \<le> (of_char c :: nat) \<and> (of_char c :: nat) \<le> 0x7E"

definition graphic :: "string \<Rightarrow> bool" where
  "graphic s \<longleftrightarrow> list_all graph_char s"

lemma graphic_simps [simp]:
  "graphic []" "graphic (c # s) \<longleftrightarrow> graph_char c \<and> graphic s"
  "graphic (s @ t) \<longleftrightarrow> graphic s \<and> graphic t"
  by (auto simp: graphic_def)

lemma graphic_join: "\<lbrakk>graphic sep; \<And>x. x \<in> set xs \<Longrightarrow> graphic x\<rbrakk> \<Longrightarrow> graphic (join sep xs)"
  by (induction sep xs rule: join.induct) auto

lemma graphic_iff: "graphic s \<longleftrightarrow> (\<forall>c \<in> set s. graph_char c)"
  by (simp add: graphic_def list_all_iff)

lemma space_starts: "w \<in> set utf8_spaces \<Longrightarrow> w \<noteq> [] \<and> \<not> graph_char (hd w) \<and> \<not> graph_char (last w)"
  by (auto simp: utf8_spaces_def graph_char_def)

lemma graph_char_no_space:
  "\<lbrakk>graph_char c; w \<in> set utf8_spaces\<rbrakk> \<Longrightarrow> \<not> has_prefix (c # s) w"
  by (cases w) (auto dest: space_starts)

lemma trim_space_graph_ends:
  assumes "s \<noteq> []" "graph_char (hd s)" "graph_char (last s)"
  shows "trim_space s = s"
proof -
  have left: "trim_left_space s = s"
    using assms unfolding trim_left_space_def
    by (cases s) (auto intro!: strip_words_fix dest: graph_char_no_space)
  have "\<not> has_prefix (rev s) (rev w)" if w: "w \<in> set utf8_spaces" for w
  proof -
    obtain c s' where "rev s = c # s'" using assms(1) by (cases "rev s") auto
    moreover from this have "graph_char c" using assms(3) by (simp add: last_conv_nth rev_swap)
    moreover obtain d w' where "rev w = d # w'" "\<not> graph_char d"
      using space_starts [OF w] by (metis hd_rev list.collapse rev_is_Nil_conv)
    ultimately show ?thesis by auto
  qed
  then have "trim_right_space s = s"
    unfolding trim_right_space_def by (subst strip_words_fix) auto
  with left show ?thesis by (simp add: trim_space_def)
qed

lemma trim_space_graphic: "graphic s \<Longrightarrow> trim_space s = s"
proof (cases "s = []")
  case True
  then show ?thesis
    by (simp add: trim_space_def trim_left_space_def trim_right_space_def strip_words_fix)
qed (auto intro!: trim_space_graph_ends simp: graphic_iff)

lemma trim_space_Nil [simp]: "trim_space [] = []"
  by (simp add: trim_space_graphic)

text \<open>ASCII text before a trimmed string: a space of several bytes cannot begin in it.\<close>

lemma trim_right_space_trimmed:
  assumes "trim_space t = t" "w \<in> set utf8_spaces"
  shows "\<not> has_prefix (rev t) (rev w)"
proof -
  have "trim_right_space t = t"
    using assms(1) trim_right_space_idem [of "trim_left_space t"] by (simp add: trim_space_def)
  then have "strip_words (map rev utf8_spaces) (rev t) = rev t"
    by (metis rev_rev_ident trim_right_space_def)
  then show ?thesis
    using strip_words_clean [of "rev w" "map rev utf8_spaces" "rev t"] assms(2) space_starts [OF assms(2)] by auto
qed

lemma space_bytes: "w \<in> set utf8_spaces \<Longrightarrow> length w = 1 \<or> (\<forall>c \<in> set w. 0x80 \<le> (of_char c :: nat))"
  by (auto simp: utf8_spaces_def)

lemma trim_space_ascii_append:
  assumes "u \<noteq> []" "graph_char (hd u)" "\<forall>c \<in> set u. (of_char c :: nat) < 0x80" "t \<noteq> []" "trim_space t = t"
  shows "trim_space (u @ t) = u @ t"
proof -
  have left: "trim_left_space (u @ t) = u @ t"
    using assms(1,2) unfolding trim_left_space_def
    by (cases u) (auto intro!: strip_words_fix dest: graph_char_no_space)
  have "\<not> has_prefix (rev (u @ t)) (rev w)" if w: "w \<in> set utf8_spaces" for w
  proof
    assume "has_prefix (rev (u @ t)) (rev w)"
    then obtain v where v: "rev t @ rev u = rev w @ v" by (auto simp: has_prefix_iff)
    show False
    proof (cases "length w \<le> length t")
      case True
      have "take (length w) (rev t @ rev u) = rev w" unfolding v by simp
      with True have "has_prefix (rev t) (rev w)" by (simp add: has_prefix_def)
      with trim_right_space_trimmed [OF assms(5) w] show False by simp
    next
      case False
      obtain x where "rev t = rev w @ x \<or> rev t @ x = rev w \<and> rev u = x @ v"
        using v unfolding append_eq_append_conv2 by blast
      moreover have lt: "length (rev t) < length (rev w)" using False by simp
      ultimately have x: "rev w = rev t @ x" "rev u = x @ v" by (auto simp del: length_rev)
      with lt have "x \<noteq> []" by auto
      note x = x(1) this x(2)
      have "length w \<noteq> 1" using False assms(4) by (cases t) auto
      then have "0x80 \<le> (of_char (hd x) :: nat)"
        using space_bytes [OF w] x(1,2) by (metis Un_iff hd_in_set set_append set_rev)
      moreover have "hd x \<in> set u" using x(2,3) by (metis Un_iff hd_in_set set_append set_rev)
      ultimately show False using assms(3) by auto
    qed
  qed
  then have "trim_right_space (u @ t) = u @ t"
    unfolding trim_right_space_def by (subst strip_words_fix) auto
  with left show ?thesis by (simp add: trim_space_def)
qed


section \<open>Fields\<close>

text \<open>\<open>strings.FieldsSeq\<close>: the maximal runs of non-space characters; \<open>cur\<close> is the run so far, reversed.\<close>

definition space_at :: "string \<Rightarrow> string option" where
  "space_at s = find (\<lambda>w. has_prefix s w) utf8_spaces"

lemma space_at_SomeD: "space_at s = Some w \<Longrightarrow> w \<noteq> [] \<and> has_prefix s w"
  by (auto simp: space_at_def dest!: find_SomeD space_starts)

definition flush :: "string \<Rightarrow> string list" where
  "flush cur = (if cur = [] then [] else [rev cur])"

function fields_from :: "string \<Rightarrow> string \<Rightarrow> string list" where
  "fields_from cur [] = flush cur"
| "fields_from cur (c # s) =
     (case space_at (c # s) of
        Some w \<Rightarrow> flush cur @ fields_from [] (drop (length w) (c # s))
      | None \<Rightarrow> fields_from (c # cur) s)"
  by pat_completeness auto
termination
proof (relation "measure (\<lambda>(cur, s). length s)", simp_all)
  fix c s w
  assume "space_at (c # s) = Some w"
  then have "w \<noteq> []" by (auto dest: space_at_SomeD)
  then show "Suc (length s) - length w < Suc (length s)" by simp
qed

definition str_fields :: "string \<Rightarrow> string list" where
  "str_fields s = fields_from [] s"

lemma space_at_graph [simp]: "graph_char c \<Longrightarrow> space_at (c # s) = None"
  by (auto simp: space_at_def find_None_iff dest: graph_char_no_space)

lemma space_at_blank [simp]: "space_at (CHR '' '' # s) = Some '' ''"
  by (simp add: space_at_def utf8_spaces_def)

lemma fields_from_graphic:
  "graphic x \<Longrightarrow> fields_from cur (x @ s) = fields_from (rev x @ cur) s"
  by (induction x arbitrary: cur) auto

lemma fields_join_blank [roundtrip]:
  "(\<And>x. x \<in> set xs \<Longrightarrow> graphic x \<and> x \<noteq> []) \<Longrightarrow> str_fields (join '' '' xs) = xs"
  unfolding str_fields_def
proof (induction "'' ''" xs rule: join.induct)
  case (2 x)
  then show ?case using fields_from_graphic [of x "[]" "[]"] by (simp add: flush_def)
next
  case (3 x y xs)
  then show ?case by (simp add: fields_from_graphic flush_def)
qed (simp add: flush_def)

section \<open>Case\<close>

text \<open>
  \<open>strings.EqualFold(s, t)\<close> for an ASCII \<open>t\<close>. Two characters outside ASCII fold to
  ASCII letters: the long s (U+017F) and the Kelvin sign (U+212A).
\<close>

definition ascii_lower :: "char \<Rightarrow> char" where
  "ascii_lower c = (let n = (of_char c :: nat) in if 0x41 \<le> n \<and> n \<le> 0x5A then char_of (n + 0x20) else c)"

fun equal_fold :: "string \<Rightarrow> string \<Rightarrow> bool" where
  "equal_fold [] [] = True"
| "equal_fold [] (d # t) = False"
| "equal_fold (c # s) [] = False"
| "equal_fold (c # s) (d # t) =
     (if (of_char c :: nat) < 0x80 then ascii_lower c = ascii_lower d \<and> equal_fold s t
      else if has_prefix (c # s) [CHR 0xC5, CHR 0xBF]
        then ascii_lower d = CHR ''s'' \<and> equal_fold (drop 1 s) t
      else if has_prefix (c # s) [CHR 0xE2, CHR 0x84, CHR 0xAA]
        then ascii_lower d = CHR ''k'' \<and> equal_fold (drop 2 s) t
      else False)"

lemma equal_fold_refl: "list_all (\<lambda>c. (of_char c :: nat) < 0x80) t \<Longrightarrow> equal_fold t t"
  by (induction t) auto

lemma equal_fold_noresponse [simp]:
  "equal_fold ''NORESPONSE'' ''NORESPONSE''" "equal_fold ''noresponse'' ''NORESPONSE''"
  by code_simp+

end
