(* ===== verification/Go_Strconv.thy ===== *)
theory Go_Strconv
  imports Go_Strings
begin

text \<open>
  The conversions of Go's \<open>strconv\<close> package in base 10: \<open>Itoa\<close>, \<open>FormatInt\<close>,
  \<open>AppendUint\<close>, \<open>ParseUint(s, 10, 16)\<close>, \<open>ParseInt(s, 10, 64)\<close> and \<open>Atoi\<close>, and that the
  parsers read what the printers write.
\<close>

section \<open>Digits\<close>

definition digit_char :: "nat \<Rightarrow> char" where
  "digit_char d = char_of (48 + d)"

definition is_digit :: "char \<Rightarrow> bool" where
  "is_digit c \<longleftrightarrow> 48 \<le> (of_char c :: nat) \<and> (of_char c :: nat) \<le> 57"

definition digit_val :: "char \<Rightarrow> nat" where
  "digit_val c = of_char c - 48"

lemma of_char_char_of [simp]: "n < 256 \<Longrightarrow> (of_char (char_of n) :: nat) = n"
  by simp

lemma digit_char_simps [simp]:
  assumes "d < 10"
  shows "is_digit (digit_char d)" "digit_val (digit_char d) = d" "graph_char (digit_char d)"
    "(of_char (digit_char d) :: nat) = 48 + d"
  using assms by (simp_all add: digit_char_def is_digit_def digit_val_def graph_char_def)

lemma is_digit_graph: "is_digit c \<Longrightarrow> graph_char c"
  by (simp add: is_digit_def graph_char_def)

lemma is_digit_neq:
  "is_digit c \<Longrightarrow> c \<noteq> CHR '':''" "is_digit c \<Longrightarrow> c \<noteq> CHR ''.''" "is_digit c \<Longrightarrow> c \<noteq> CHR ''-''"
  "is_digit c \<Longrightarrow> c \<noteq> CHR ''+''" "is_digit c \<Longrightarrow> c \<noteq> CHR '']''" "is_digit c \<Longrightarrow> c \<noteq> CHR ''[''"
  "is_digit c \<Longrightarrow> c \<noteq> CHR '' ''" "is_digit c \<Longrightarrow> c \<noteq> CHR '',''"
  by (auto simp: is_digit_def)

text \<open>The decimal text of a natural number, most significant digit first.\<close>

fun dec :: "nat \<Rightarrow> string" where
  "dec n = (if n < 10 then [] else dec (n div 10)) @ [digit_char (n mod 10)]"

declare dec.simps [simp del]

lemma dec_small: "n < 10 \<Longrightarrow> dec n = [digit_char n]"
  by (simp add: dec.simps)

lemma dec_big: "10 \<le> n \<Longrightarrow> dec n = dec (n div 10) @ [digit_char (n mod 10)]"
  by (subst dec.simps) simp

lemma dec_nonempty [simp]: "dec n \<noteq> []"
  by (subst dec.simps) simp

lemma dec_digits: "list_all is_digit (dec n)"
proof (induction n rule: dec.induct)
  case (1 n)
  then show ?case by (cases "n < 10") (simp_all add: dec_small dec_big)
qed

lemma dec_set: "c \<in> set (dec n) \<Longrightarrow> is_digit c"
  using dec_digits by (auto simp: list_all_iff)

lemma dec_graphic [simp]: "graphic (dec n)"
  by (auto simp: graphic_iff intro: is_digit_graph dec_set)

lemma dec_not_in [simp]:
  "CHR '':'' \<notin> set (dec n)" "CHR ''.'' \<notin> set (dec n)" "CHR '']'' \<notin> set (dec n)"
  "CHR '' '' \<notin> set (dec n)" "CHR '','' \<notin> set (dec n)"
  by (auto dest: dec_set is_digit_neq)

section \<open>Unsigned\<close>

text \<open>The loop of \<open>ParseUint\<close>: every byte is a digit; the value is exact, so it is compared with the maximum at the end.\<close>

fun dec_value :: "nat \<Rightarrow> string \<Rightarrow> nat option" where
  "dec_value acc [] = Some acc"
| "dec_value acc (c # s) = (if is_digit c then dec_value (10 * acc + digit_val c) s else None)"

definition parse_uint :: "nat \<Rightarrow> string \<Rightarrow> nat option" where
  "parse_uint maxv s =
     (if s = [] then None
      else case dec_value 0 s of
        None \<Rightarrow> None
      | Some n \<Rightarrow> if n \<le> maxv then Some n else None)"

definition parse_uint16 :: "string \<Rightarrow> uint16 option" where
  "parse_uint16 s = map_option of_nat (parse_uint 65535 s)"

lemma dec_value_append:
  "dec_value acc (s @ t) = (case dec_value acc s of None \<Rightarrow> None | Some n \<Rightarrow> dec_value n t)"
  by (induction s arbitrary: acc) auto

lemma dec_value_dec: "dec_value 0 (dec n) = Some n"
proof (induction n rule: dec.induct)
  case (1 n)
  then show ?case
    by (cases "n < 10") (simp_all add: dec_small dec_big dec_value_append)
qed

lemma parse_uint_dec [roundtrip]: "n \<le> m \<Longrightarrow> parse_uint m (dec n) = Some n"
  by (simp add: parse_uint_def dec_value_dec)

lemma parse_uint_bound: "parse_uint m s = Some n \<Longrightarrow> n \<le> m"
  by (auto simp: parse_uint_def split: if_splits option.splits)

lemma parse_uint_Nil [simp]: "parse_uint m [] = None"
  by (simp add: parse_uint_def)

lemma parse_uint16_Nil [simp]: "parse_uint16 [] = None"
  by (simp add: parse_uint16_def)

lemma dec_value_digits: "dec_value acc s = Some n \<Longrightarrow> list_all is_digit s"
  by (induction s arbitrary: acc) (auto split: if_splits)

lemma parse_uint_digits: "parse_uint m s = Some n \<Longrightarrow> s \<noteq> [] \<and> list_all is_digit s"
  by (auto simp: parse_uint_def dest: dec_value_digits split: if_splits option.splits)

lemma parse_uint16_digits: "parse_uint16 s = Some p \<Longrightarrow> s \<noteq> [] \<and> list_all is_digit s"
  by (auto simp: parse_uint16_def dest: parse_uint_digits)

lemma unat_uint16_le: "unat (p :: uint16) \<le> 65535"
  using unsigned_less [of p, where ?'a = nat] by simp

lemma parse_uint16_dec [roundtrip]: "parse_uint16 (dec (unat p)) = Some p"
  by (simp add: parse_uint16_def parse_uint_dec unat_uint16_le)

section \<open>Signed\<close>

text \<open>\<open>FormatInt(i, 10)\<close> and \<open>Itoa\<close>.\<close>

definition itoa :: "int \<Rightarrow> string" where
  "itoa i = (if i < 0 then ''-'' @ dec (nat (- i)) else dec (nat i))"

text \<open>\<open>ParseInt(s, 10, 64)\<close>; \<open>Atoi\<close> agrees with it where \<open>int\<close> has 64 bits.\<close>

definition parse_int64 :: "string \<Rightarrow> int64 option" where
  "parse_int64 s =
     (case s of
        [] \<Rightarrow> None
      | c # t \<Rightarrow>
          if c = CHR ''-'' then map_option (\<lambda>n. - of_nat n) (parse_uint (2 ^ 63) t)
          else if c = CHR ''+'' then map_option of_nat (parse_uint (2 ^ 63 - 1) t)
          else map_option of_nat (parse_uint (2 ^ 63 - 1) s))"

lemma parse_int64_Nil [simp]: "parse_int64 [] = None"
  by (simp add: parse_int64_def)

lemma sint64_range: "- (2 ^ 63) \<le> sint (x :: int64) \<and> sint x < 2 ^ 63"
  using sint_ge [of x] sint_lt [of x] by simp

lemma of_nat_neg_sint: "sint (x :: int64) < 0 \<Longrightarrow> - word_of_nat (nat (- sint x)) = x"
  by (simp add: of_nat_nat)

lemma of_nat_pos_sint: "0 \<le> sint (x :: int64) \<Longrightarrow> word_of_nat (nat (sint x)) = x"
  by (simp add: of_nat_nat)

lemma parse_int64_digits:
  "s \<noteq> [] \<Longrightarrow> is_digit (hd s) \<Longrightarrow> parse_int64 s = map_option of_nat (parse_uint (2 ^ 63 - 1) s)"
  by (cases s) (auto simp: parse_int64_def dest: is_digit_neq)

lemma parse_int64_itoa [roundtrip]: "parse_int64 (itoa (sint (x :: int64))) = Some x"
proof (cases "sint x < 0")
  case True
  then have "nat (- sint x) \<le> 2 ^ 63" using sint64_range [of x] by (simp add: nat_le_iff)
  moreover have "- word_of_nat (nat (- sint x)) = x"
    using True of_nat_neg_sint [of x] by simp
  ultimately show ?thesis
    using True by (simp add: itoa_def parse_int64_def parse_uint_dec)
next
  case False
  then have "nat (sint x) \<le> 2 ^ 63 - 1" using sint64_range [of x] by (simp add: nat_le_iff)
  moreover have "word_of_nat (nat (sint x)) = x" using False by (simp add: of_nat_pos_sint)
  moreover have "is_digit (hd (dec (nat (sint x))))" by (rule dec_set [OF hd_in_set [OF dec_nonempty]])
  ultimately show ?thesis
    using False by (simp add: itoa_def parse_int64_digits parse_uint_dec)
qed

end
