(* ===== verification/Netip.thy ===== *)
theory Netip
  imports Go_Strconv
begin

text \<open>
  The addresses of Go's \<open>net/netip\<close>: \<open>Addr\<close>, \<open>AddrPort\<close>, their text forms and their
  parsers. \<open>AddrZero\<close> is the zero \<open>Addr\<close> (no address); an IPv6 address keeps its eight
  16-bit groups and its zone, empty for none. The results used by the components: parsing
  the text of an address, or of an address and port, gives it back.
\<close>

section \<open>Addresses\<close>

datatype addr =
    AddrZero
  | Addr4 uint8 uint8 uint8 uint8
  | Addr6 uint16 uint16 uint16 uint16 uint16 uint16 uint16 uint16 (zone: string)

type_synonym addr_port = "addr \<times> uint16"

fun is4 :: "addr \<Rightarrow> bool" where
  "is4 (Addr4 _ _ _ _) = True"
| "is4 _ = False"

fun is6 :: "addr \<Rightarrow> bool" where
  "is6 (Addr6 _ _ _ _ _ _ _ _ _) = True"
| "is6 _ = False"

definition is_valid :: "addr \<Rightarrow> bool" where
  "is_valid a \<longleftrightarrow> a \<noteq> AddrZero"

fun is4in6 :: "addr \<Rightarrow> bool" where
  "is4in6 (Addr6 a b c d e f _ _ _) = (a = 0 \<and> b = 0 \<and> c = 0 \<and> d = 0 \<and> e = 0 \<and> f = 0xFFFF)"
| "is4in6 _ = False"

section \<open>Printing\<close>

definition string4 :: "uint8 \<Rightarrow> uint8 \<Rightarrow> uint8 \<Rightarrow> uint8 \<Rightarrow> string" where
  "string4 a b c d =
     dec (unat a) @ ''.'' @ dec (unat b) @ ''.'' @ dec (unat c) @ ''.'' @ dec (unat d)"

text \<open>\<open>appendHex\<close>: lower-case hexadecimal without leading zeros.\<close>

definition hex_char :: "nat \<Rightarrow> char" where
  "hex_char d = (if d < 10 then char_of (48 + d) else char_of (87 + d))"

definition hex16 :: "nat \<Rightarrow> string" where
  "hex16 x =
     (if x \<ge> 0x1000 then [hex_char (x div 0x1000)] else [])
     @ (if x \<ge> 0x100 then [hex_char (x div 0x100 mod 16)] else [])
     @ (if x \<ge> 0x10 then [hex_char (x div 0x10 mod 16)] else [])
     @ [hex_char (x mod 16)]"

text \<open>
  The search for the first longest run of at least two zero groups: the state is
  \<open>(zeroStart, zeroEnd)\<close>, which starts at 255, 255.
\<close>

definition zero_run_end :: "uint16 list \<Rightarrow> nat \<Rightarrow> nat" where
  "zero_run_end gs i = i + length (takeWhile (\<lambda>g. g = 0) (drop i gs))"

definition zero_step :: "uint16 list \<Rightarrow> nat \<Rightarrow> nat \<times> nat \<Rightarrow> nat \<times> nat" where
  "zero_step gs i zr =
     (let j = zero_run_end gs i; l = j - i
      in if 2 \<le> l \<and> snd zr - fst zr < l then (i, j) else zr)"

definition zero_range :: "uint16 list \<Rightarrow> nat \<times> nat" where
  "zero_range gs = fold (zero_step gs) [0..<8] (255, 255)"

text \<open>The printing loop at group \<open>i\<close>; the eight groups are \<open>gs\<close>.\<close>

function print6_from :: "uint16 list \<Rightarrow> nat \<times> nat \<Rightarrow> nat \<Rightarrow> string" where
  "print6_from gs zr i =
     (if 8 \<le> i then []
      else if i = fst zr \<and> i < snd zr then
        ''::'' @ (if 8 \<le> snd zr then []
                  else hex16 (unat (gs ! snd zr)) @ print6_from gs zr (Suc (snd zr)))
      else (if 0 < i then '':'' else []) @ hex16 (unat (gs ! i)) @ print6_from gs zr (Suc i))"
  by pat_completeness auto
termination
  by (relation "measure (\<lambda>(gs, zr, i). 8 - i)") auto

declare print6_from.simps [simp del]

definition zone_suffix :: "string \<Rightarrow> string" where
  "zone_suffix z = (if z = [] then [] else ''%'' @ z)"

definition append6 :: "uint16 list \<Rightarrow> string \<Rightarrow> string" where
  "append6 gs z = print6_from gs (zero_range gs) 0 @ zone_suffix z"

text \<open>The IPv4 text of the last two groups, for an IPv4-mapped address.\<close>

definition unmap_text :: "uint16 \<Rightarrow> uint16 \<Rightarrow> string" where
  "unmap_text g h = string4 (ucast (drop_bit 8 g)) (ucast g) (ucast (drop_bit 8 h)) (ucast h)"

text \<open>The body that \<open>Addr.String\<close> and \<open>AddrPort.String\<close> share for an IPv6 address.\<close>

definition string6 :: "uint16 list \<Rightarrow> string \<Rightarrow> bool \<Rightarrow> string" where
  "string6 gs z mapped =
     (if mapped then ''::ffff:'' @ unmap_text (gs ! 6) (gs ! 7) @ zone_suffix z
      else append6 gs z)"

fun addr_string :: "addr \<Rightarrow> string" where
  "addr_string AddrZero = ''invalid IP''"
| "addr_string (Addr4 a b c d) = string4 a b c d"
| "addr_string (Addr6 a b c d e f g h z) =
     string6 [a, b, c, d, e, f, g, h] z (is4in6 (Addr6 a b c d e f g h z))"

fun addr_port_string :: "addr_port \<Rightarrow> string" where
  "addr_port_string (AddrZero, p) = ''invalid AddrPort''"
| "addr_port_string (Addr4 a b c d, p) = string4 a b c d @ '':'' @ dec (unat p)"
| "addr_port_string (Addr6 a b c d e f g h z, p) =
     ''['' @ string6 [a, b, c, d, e, f, g, h] z (is4in6 (Addr6 a b c d e f g h z))
     @ '']:'' @ dec (unat p)"

section \<open>Parsing\<close>

text \<open>
  \<open>parseIPv4Fields\<close>: \<open>val\<close> and \<open>dl\<close> are the value and the number of digits of the
  current octet, \<open>acc\<close> the finished octets; \<open>dl = 0\<close> at a dot is \<open>i == 0\<close> or
  \<open>s[i-1] == '.'\<close>, and an empty rest after it is \<open>i == len(s)-1\<close>.
\<close>

fun ipv4_fields :: "nat \<Rightarrow> nat \<Rightarrow> uint8 list \<Rightarrow> string \<Rightarrow> uint8 list option" where
  "ipv4_fields val dl acc [] = (if length acc < 3 then None else Some (acc @ [of_nat val]))"
| "ipv4_fields val dl acc (c # s) =
     (if is_digit c then
        if dl = 1 \<and> val = 0 then None
        else let v = 10 * val + digit_val c
             in if 255 < v then None else ipv4_fields v (Suc dl) acc s
      else if c = CHR ''.'' then
        if dl = 0 \<or> s = [] then None
        else if length acc = 3 then None
        else ipv4_fields 0 0 (acc @ [of_nat val]) s
      else None)"

definition parse_ipv4 :: "string \<Rightarrow> addr option" where
  "parse_ipv4 s =
     (case ipv4_fields 0 0 [] s of
        Some [a, b, c, d] \<Rightarrow> Some (Addr4 a b c d)
      | _ \<Rightarrow> None)"

definition hex_val :: "char \<Rightarrow> nat option" where
  "hex_val c =
     (let n = (of_char c :: nat)
      in if 48 \<le> n \<and> n \<le> 57 then Some (n - 48)
         else if 97 \<le> n \<and> n \<le> 102 then Some (n - 97 + 10)
         else if 65 \<le> n \<and> n \<le> 70 then Some (n - 65 + 10)
         else None)"

text \<open>
  The group loop of \<open>parseIPv6\<close>: the number of digits read, their value and the rest;
  \<open>None\<close> for more than four digits. (Four digits never exceed \<open>0xFFFF\<close>.)
\<close>

fun hex_group :: "nat \<Rightarrow> nat \<Rightarrow> string \<Rightarrow> (nat \<times> nat \<times> string) option" where
  "hex_group off acc [] = Some (off, acc, [])"
| "hex_group off acc (c # s) =
     (case hex_val c of
        None \<Rightarrow> Some (off, acc, c # s)
      | Some d \<Rightarrow>
          if 3 < off then None
          else if 0xFFFF < 16 * acc + d then None
          else hex_group (Suc off) (16 * acc + d) s)"

text \<open>
  The main loop: \<open>gs\<close> the groups stored so far, \<open>ell\<close> the position of the ellipsis.
  A result holds the unread rest, the groups and the ellipsis. The code counts bytes,
  two for each group: its \<open>i\<close> is \<open>2 * length gs\<close>.
\<close>

function ipv6_loop ::
  "uint16 list \<Rightarrow> nat option \<Rightarrow> string \<Rightarrow> (string \<times> uint16 list \<times> nat option) option" where
  "ipv6_loop gs ell s =
     (if 8 \<le> length gs then Some (s, gs, ell)
      else case hex_group 0 0 s of
        None \<Rightarrow> None
      | Some (off, acc, rest) \<Rightarrow>
          if off = 0 then None
          else if rest \<noteq> [] \<and> hd rest = CHR ''.'' then
            if ell = None \<and> length gs \<noteq> 6 then None
            else if 8 < length gs + 2 then None
            else (case ipv4_fields 0 0 [] s of
                Some [a, b, c, d] \<Rightarrow>
                  Some ([], gs @ [push_bit 8 (ucast a) + ucast b, push_bit 8 (ucast c) + ucast d], ell)
              | _ \<Rightarrow> None)
          else if rest = [] then Some ([], gs @ [of_nat acc], ell)
          else if hd rest \<noteq> CHR '':'' then None
          else if tl rest = [] then None
          else if hd (tl rest) = CHR '':'' then
            if ell \<noteq> None then None
            else if tl (tl rest) = [] then Some ([], gs @ [of_nat acc], Some (Suc (length gs)))
            else ipv6_loop (gs @ [of_nat acc]) (Some (Suc (length gs))) (tl (tl rest))
          else ipv6_loop (gs @ [of_nat acc]) ell (tl rest))"
  by pat_completeness auto
termination
  by (relation "measure (\<lambda>(gs, ell, s). 8 - length gs)") auto

declare ipv6_loop.simps [simp del]

text \<open>The expansion of the ellipsis after the loop.\<close>

definition expand_ellipsis :: "uint16 list \<Rightarrow> nat option \<Rightarrow> uint16 list option" where
  "expand_ellipsis gs ell =
     (if length gs < 8 then
        (case ell of
           None \<Rightarrow> None
         | Some e \<Rightarrow> Some (take e gs @ replicate (8 - length gs) 0 @ drop e gs))
      else (case ell of None \<Rightarrow> Some gs | Some _ \<Rightarrow> None))"

definition addr6_of :: "uint16 list \<Rightarrow> string \<Rightarrow> addr option" where
  "addr6_of gs z =
     (case gs of
        [a, b, c, d, e, f, g, h] \<Rightarrow> Some (Addr6 a b c d e f g h z)
      | _ \<Rightarrow> None)"

text \<open>\<open>parseIPv6\<close> after the zone \<open>z\<close> has been cut off, and the whole of it.\<close>

definition parse_ipv6_body :: "string \<Rightarrow> string \<Rightarrow> addr option" where
  "parse_ipv6_body z s =
     (let lead = has_prefix s ''::''; s' = (if lead then drop 2 s else s)
      in if lead \<and> s' = [] then addr6_of (replicate 8 0) z
         else case ipv6_loop [] (if lead then Some 0 else None) s' of
           None \<Rightarrow> None
         | Some (rest, gs, ell) \<Rightarrow>
             if rest \<noteq> [] then None
             else case expand_ellipsis gs ell of
               None \<Rightarrow> None
             | Some gs' \<Rightarrow> addr6_of gs' z)"

definition parse_ipv6 :: "string \<Rightarrow> addr option" where
  "parse_ipv6 inp =
     (case split_2 (CHR ''%'') inp of
        None \<Rightarrow> parse_ipv6_body [] inp
      | Some (s, z) \<Rightarrow> if z = [] then None else parse_ipv6_body z s)"

text \<open>\<open>ParseAddr\<close>: the first of dot, colon and percent decides; the error is \<open>None\<close>.\<close>

fun parse_addr_scan :: "string \<Rightarrow> string \<Rightarrow> addr option" where
  "parse_addr_scan s [] = None"
| "parse_addr_scan s (c # r) =
     (if c = CHR ''.'' then parse_ipv4 s
      else if c = CHR '':'' then parse_ipv6 s
      else if c = CHR ''%'' then None
      else parse_addr_scan s r)"

definition parse_addr :: "string \<Rightarrow> addr option" where
  "parse_addr s = parse_addr_scan s s"

text \<open>\<open>splitAddrPort\<close>: address, port and whether brackets stood around the address.\<close>

definition split_addr_port :: "string \<Rightarrow> (string \<times> string \<times> bool) option" where
  "split_addr_port s =
     (case last_index_byte (CHR '':'') s of
        None \<Rightarrow> None
      | Some i \<Rightarrow>
          let ip = take i s; port = drop (Suc i) s
          in if ip = [] then None
             else if port = [] then None
             else if hd ip = CHR ''['' then
               if length ip < 2 \<or> last ip \<noteq> CHR '']'' then None
               else Some (butlast (tl ip), port, True)
             else Some (ip, port, False))"

definition parse_addr_port :: "string \<Rightarrow> addr_port option" where
  "parse_addr_port s =
     (case split_addr_port s of
        None \<Rightarrow> None
      | Some (ip, port, v6) \<Rightarrow>
          (case parse_uint16 port of
             None \<Rightarrow> None
           | Some p \<Rightarrow>
               (case parse_addr ip of
                  None \<Rightarrow> None
                | Some a \<Rightarrow>
                    if v6 \<and> is4 a then None
                    else if \<not> v6 \<and> is6 a then None
                    else Some (a, p))))"

section \<open>The text of an IPv4 address\<close>

lemma unat_uint8_less: "unat (a :: uint8) < 256"
  using unsigned_less [of a, where ?'a = nat] by simp

text \<open>The digits of an octet, and their effect on a loop over them.\<close>

lemma dec_octet_cases:
  assumes "n < 256"
  obtains "n < 10" "dec n = [digit_char n]"
  | "10 \<le> n" "n < 100" "dec n = [digit_char (n div 10), digit_char (n mod 10)]"
  | "100 \<le> n" "dec n = [digit_char (n div 100), digit_char (n div 10 mod 10), digit_char (n mod 10)]"
proof -
  consider "n < 10" | "10 \<le> n" "n < 100" | "100 \<le> n" by linarith
  then show thesis
  proof cases
    case 1
    then show ?thesis using that(1) by (simp add: dec_small)
  next
    case 2
    then have "dec n = [digit_char (n div 10), digit_char (n mod 10)]"
      by (simp add: dec_big dec_small)
    with 2 that(2) show ?thesis by blast
  next
    case 3
    then have "n div 10 div 10 < 10" "10 \<le> n div 10" "n div 10 div 10 = n div 100"
      using assms by (simp_all add: div_mult2_eq [symmetric])
    with 3 have "dec n = [digit_char (n div 100), digit_char (n div 10 mod 10), digit_char (n mod 10)]"
      by (simp add: dec_big dec_small)
    with 3 that(3) show ?thesis by blast
  qed
qed

lemma digit_char_dot [simp]: "d < 10 \<Longrightarrow> digit_char d \<noteq> CHR ''.''"
  using is_digit_neq(2) [of "digit_char d"] by simp

lemma ipv4_fields_octet:
  assumes "n < 256"
  shows "ipv4_fields 0 0 acc (dec n @ s) = ipv4_fields n (length (dec n)) acc s"
  using assms
proof (cases rule: dec_octet_cases)
  case 3
  have "10 * (n div 100) + n div 10 mod 10 = n div 10"
    using div_mult2_eq [of n 10 10] by simp
  moreover have "n div 100 \<noteq> 0" using 3 by (simp add: div_eq_0_iff)
  moreover have "n div 100 < 10" "n div 10 \<le> 255" using assms by linarith+
  ultimately show ?thesis using 3 assms by (simp add: Let_def)
next
  case 2
  then have "0 < n div 10" "n div 10 < 10" by (simp_all add: div_greater_zero_iff)
  with 2 show ?thesis by (simp add: Let_def)
qed (simp add: Let_def)

lemma ipv4_fields_dot:
  "\<lbrakk>n < 256; length acc < 3; s \<noteq> []\<rbrakk> \<Longrightarrow>
   ipv4_fields 0 0 acc (dec n @ ''.'' @ s) = ipv4_fields 0 0 (acc @ [of_nat n]) s"
  by (simp add: ipv4_fields_octet is_digit_def)

lemma ipv4_fields_end:
  "\<lbrakk>n < 256; length acc = 3\<rbrakk> \<Longrightarrow> ipv4_fields 0 0 acc (dec n) = Some (acc @ [of_nat n])"
  using ipv4_fields_octet [of n acc "[]"] by simp

lemma ipv4_fields_string4: "ipv4_fields 0 0 [] (string4 a b c d) = Some [a, b, c, d]"
  unfolding string4_def
  by (simp add: ipv4_fields_dot ipv4_fields_end unat_uint8_less del: append_Cons append_Nil)

lemma parse_ipv4_string4: "parse_ipv4 (string4 a b c d) = Some (Addr4 a b c d)"
  by (simp add: parse_ipv4_def ipv4_fields_string4)

lemma parse_addr_scan_skip:
  "\<lbrakk>CHR ''.'' \<notin> set u; CHR '':'' \<notin> set u; CHR ''%'' \<notin> set u\<rbrakk> \<Longrightarrow>
   parse_addr_scan s (u @ v) = parse_addr_scan s v"
  by (induction u) auto

lemma dec_no_percent [simp]: "CHR ''%'' \<notin> set (dec n)"
  by (auto dest!: dec_set simp: is_digit_def)

lemma parse_addr_string4: "parse_addr (string4 a b c d) = Some (Addr4 a b c d)"
proof -
  have "parse_addr_scan s (string4 a b c d) = parse_ipv4 s" for s
    unfolding string4_def by (subst parse_addr_scan_skip) simp_all
  then show ?thesis by (simp add: parse_addr_def parse_ipv4_string4)
qed

section \<open>Hexadecimal groups\<close>

lemma hex_val_hex_char [simp]: "d < 16 \<Longrightarrow> hex_val (hex_char d) = Some d"
  by (simp add: hex_char_def hex_val_def)

lemma set_hex16: "n < 65536 \<Longrightarrow> set (hex16 n) \<subseteq> hex_char ` {0..<16}"
  by (auto simp: hex16_def split: if_splits)

lemma of_hex_char: "d < 16 \<Longrightarrow> (of_char (hex_char d) :: nat) = (if d < 10 then 48 + d else 87 + d)"
  by (simp add: hex_char_def)

lemma hex_char_neq:
  assumes "d < 16"
  shows "hex_char d \<noteq> CHR '':''" "hex_char d \<noteq> CHR ''.''" "hex_char d \<noteq> CHR ''%''"
    "hex_char d \<noteq> CHR ''[''" "hex_char d \<noteq> CHR '']''" "hex_char d \<noteq> CHR '' ''"
    "graph_char (hex_char d)"
proof -
  have "(of_char (hex_char d) :: nat) \<notin> {58, 46, 37, 91, 93, 32}"
    using assms by (auto simp: of_hex_char)
  then show "hex_char d \<noteq> CHR '':''" "hex_char d \<noteq> CHR ''.''" "hex_char d \<noteq> CHR ''%''"
    "hex_char d \<noteq> CHR ''[''" "hex_char d \<noteq> CHR '']''" "hex_char d \<noteq> CHR '' ''"
    by auto
  show "graph_char (hex_char d)" using assms by (simp add: graph_char_def of_hex_char)
qed

lemma hex_char_set: "\<lbrakk>c \<in> set (hex16 n); n < 65536\<rbrakk> \<Longrightarrow> \<exists>d < 16. c = hex_char d"
  using set_hex16 by fastforce

lemma hex16_nonempty [simp]: "hex16 n \<noteq> []"
  by (simp add: hex16_def)

text \<open>The text of one group of an address, and what is not in it.\<close>

abbreviation hexg :: "uint16 \<Rightarrow> string" where
  "hexg g \<equiv> hex16 (unat g)"

lemma unat_uint16_less: "unat (g :: uint16) < 65536"
  using unsigned_less [of g, where ?'a = nat] by simp

lemma hexg_not_in:
  "CHR '':'' \<notin> set (hexg g)" "CHR ''.'' \<notin> set (hexg g)" "CHR ''%'' \<notin> set (hexg g)"
  "CHR ''['' \<notin> set (hexg g)" "CHR '']'' \<notin> set (hexg g)" "CHR '' '' \<notin> set (hexg g)"
  using hex_char_set [OF _ unat_uint16_less [of g]] by (metis hex_char_neq)+

lemma hexg_graphic [simp]: "graphic (hexg g)"
  using hex_char_set [OF _ unat_uint16_less [of g]] hex_char_neq(7) by (force simp: graphic_iff)

lemma hd_hexg [simp]: "hd (hexg g @ s) \<noteq> CHR '':''" "hd (hexg g) \<noteq> CHR '':''"
  using hexg_not_in(1) [of g] by (cases "hexg g"; auto)+

lemma hex_group_hex16:
  assumes "n < 65536" "s = [] \<or> hex_val (hd s) = None"
  shows "hex_group 0 0 (hex16 n @ s) = Some (length (hex16 n), n, s)"
proof -
  have stop: "hex_group k acc s = Some (k, acc, s)" for k acc
    using assms(2) by (cases s) auto
  have div: "16 * (n div 256) + n div 16 mod 16 = n div 16"
    "16 * (n div 4096) + n div 256 mod 16 = n div 256"
    using div_mult2_eq [of n 16 16] div_mult2_eq [of n 256 16] by simp_all
  consider "n < 0x10" | "0x10 \<le> n" "n < 0x100" | "0x100 \<le> n" "n < 0x1000" | "0x1000 \<le> n"
    by linarith
  then show ?thesis
  proof cases
    case 2
    then show ?thesis by (simp add: hex16_def stop)
  next
    case 3
    then have "n div 256 < 16" "n div 16 \<le> 0xFFFF" by simp_all
    with 3 div show ?thesis by (simp add: hex16_def stop)
  next
    case 4
    then have "n div 4096 < 16" "n div 16 \<le> 0xFFFF" "n div 256 \<le> 0xFFFF"
      using assms(1) by simp_all
    with 4 div assms(1) show ?thesis by (simp add: hex16_def stop)
  qed (simp add: hex16_def stop)
qed

lemma hex_val_colon_dot [simp]: "hex_val (CHR '':'') = None" "hex_val (CHR ''.'') = None"
  by (simp_all add: hex_val_def)

section \<open>The loop on the text of groups\<close>

abbreviation hexes :: "uint16 list \<Rightarrow> string" where
  "hexes gs \<equiv> join '':'' (map hexg gs)"

lemma hd_hexes: "gs \<noteq> [] \<Longrightarrow> hexes gs \<noteq> [] \<and> hd (hexes gs @ s) \<noteq> CHR '':'' \<and> hd (hexes gs) \<noteq> CHR '':''"
proof (cases gs)
  case (Cons g gs')
  then show ?thesis
    by (cases "gs' = []") (simp_all add: join_Cons hexg_not_in del: join.simps(3))
qed simp

lemma ipv6_loop_end:
  "length acc < 8 \<Longrightarrow> ipv6_loop acc ell (hexg g) = Some ([], acc @ [g], ell)"
  using hex_group_hex16 [OF unat_uint16_less [of g], of "[]"] by (subst ipv6_loop.simps) simp

lemma ipv6_loop_colon:
  assumes "length acc < 8" "s \<noteq> []" "hd s \<noteq> CHR '':''"
  shows "ipv6_loop acc ell (hexg g @ '':'' @ s) = ipv6_loop (acc @ [g]) ell s"
  using hex_group_hex16 [OF unat_uint16_less [of g], of "'':'' @ s"] assms
  by (subst ipv6_loop.simps) simp

lemma ipv6_loop_dcolon:
  assumes "length acc < 8"
  shows "ipv6_loop acc None (hexg g @ ''::'' @ s) =
    (if s = [] then Some ([], acc @ [g], Some (Suc (length acc)))
     else ipv6_loop (acc @ [g]) (Some (Suc (length acc))) s)"
  using hex_group_hex16 [OF unat_uint16_less [of g], of "''::'' @ s"] assms
  by (subst ipv6_loop.simps) simp

lemma snoc_append: "[g] @ gs = (g :: uint16) # gs"
  by simp

lemma ipv6_loop_hexes:
  "\<lbrakk>gs \<noteq> []; length acc + length gs \<le> 8\<rbrakk> \<Longrightarrow> ipv6_loop acc ell (hexes gs) = Some ([], acc @ gs, ell)"
proof (induction gs arbitrary: acc)
  case (Cons g gs)
  then show ?case
    using hd_hexes [of gs]
    by (cases "gs = []") (simp_all add: ipv6_loop_end ipv6_loop_colon join_Cons del: append_Cons append_Nil join.simps(3))
qed simp

lemma ipv6_loop_hexes_dcolon:
  "\<lbrakk>gs \<noteq> []; length acc + length gs \<le> 8\<rbrakk> \<Longrightarrow>
   ipv6_loop acc None (hexes gs @ ''::'' @ s) =
    (if s = [] then Some ([], acc @ gs, Some (length acc + length gs))
     else ipv6_loop (acc @ gs) (Some (length acc + length gs)) s)"
proof (induction gs arbitrary: acc)
  case (Cons g gs)
  then show ?case
    using hd_hexes [of gs "''::'' @ s"]
    by (cases "gs = []")
       (simp_all add: ipv6_loop_dcolon ipv6_loop_colon join_Cons snoc_append del: append_Cons append_Nil join.simps(3))
qed simp

section \<open>The zero run\<close>

definition zero_ok :: "uint16 list \<Rightarrow> nat \<times> nat \<Rightarrow> bool" where
  "zero_ok gs zr \<longleftrightarrow> zr = (255, 255) \<or>
     (fst zr + 2 \<le> snd zr \<and> snd zr \<le> 8 \<and> (\<forall>k. fst zr \<le> k \<and> k < snd zr \<longrightarrow> gs ! k = 0))"

lemma zero_run_end_zeros:
  assumes "i \<le> k" "k < zero_run_end gs i"
  shows "gs ! k = 0"
proof -
  let ?zs = "takeWhile (\<lambda>g. g = 0) (drop i gs)"
  have k: "k - i < length ?zs" using assms by (simp add: zero_run_end_def)
  then have "?zs ! (k - i) = 0" using set_takeWhileD [OF nth_mem [OF k]] by simp
  moreover have "?zs ! (k - i) = gs ! k"
    using k assms(1) length_takeWhile_le [of "\<lambda>g. g = 0" "drop i gs"]
    by (simp add: takeWhile_nth)
  ultimately show ?thesis by simp
qed

lemma zero_run_end_le: "i \<le> length gs \<Longrightarrow> zero_run_end gs i \<le> length gs"
  using length_takeWhile_le [of "\<lambda>g. g = 0" "drop i gs"] by (simp add: zero_run_end_def)

lemma zero_step_ok:
  assumes "length gs = 8" "i < 8" "zero_ok gs zr"
  shows "zero_ok gs (zero_step gs i zr)"
  using assms zero_run_end_zeros [of i _ gs] zero_run_end_le [of i gs]
  by (auto simp: zero_step_def zero_ok_def Let_def)

lemma zero_range_ok: "length gs = 8 \<Longrightarrow> zero_ok gs (zero_range gs)"
  unfolding zero_range_def
  by (rule fold_invariant [where Q = "\<lambda>i. i < 8" and P = "zero_ok gs"])
     (simp_all add: zero_step_ok, simp add: zero_ok_def)

section \<open>The printed text\<close>

lemma print6_end [simp]: "8 \<le> i \<Longrightarrow> print6_from gs zr i = []"
  by (simp add: print6_from.simps)

lemma print6_group:
  "\<lbrakk>i < 8; i \<noteq> fst zr \<or> snd zr \<le> i\<rbrakk> \<Longrightarrow>
   print6_from gs zr i = (if 0 < i then '':'' else []) @ hexg (gs ! i) @ print6_from gs zr (Suc i)"
  by (subst print6_from.simps) auto

lemma print6_zeros:
  "\<lbrakk>fst zr < 8; fst zr < snd zr\<rbrakk> \<Longrightarrow>
   print6_from gs zr (fst zr) =
     ''::'' @ (if 8 \<le> snd zr then [] else hexg (gs ! snd zr) @ print6_from gs zr (Suc (snd zr)))"
  by (subst print6_from.simps) auto

lemma print6_rest:
  assumes "length gs = 8" "fst zr < i \<or> 8 \<le> fst zr" "i \<le> 8"
  shows "print6_from gs zr i = (if 0 < i \<and> i < 8 then '':'' else []) @ hexes (drop i gs)"
  using assms(2,3)
proof (induction "8 - i" arbitrary: i)
  case (Suc n)
  then have i: "i < 8" by simp
  then have "drop i gs = gs ! i # drop (Suc i) gs" using assms(1) by (simp add: Cons_nth_drop_Suc)
  moreover have "print6_from gs zr (Suc i) = (if Suc i < 8 then '':'' else []) @ hexes (drop (Suc i) gs)"
    using Suc i by auto
  moreover have "print6_from gs zr i =
      (if 0 < i then '':'' else []) @ hexg (gs ! i) @ print6_from gs zr (Suc i)"
    using Suc.prems i by (intro print6_group) auto
  ultimately show ?case
    using i assms(1) by (cases "Suc i = 8") (simp_all add: join_Cons del: join.simps(3))
qed (use assms(1) in simp)

lemma print6_run:
  assumes "length gs = 8" "i \<le> zs" "zs < ze" "ze \<le> 8"
  shows "print6_from gs (zs, ze) i =
    (if 0 < i \<and> i < zs then '':'' else []) @ hexes (take (zs - i) (drop i gs)) @ ''::'' @ hexes (drop ze gs)"
  using assms(2)
proof (induction "zs - i" arbitrary: i)
  case 0
  then have i: "i = zs" by simp
  have "print6_from gs (zs, ze) zs =
      ''::'' @ (if 8 \<le> ze then [] else hexg (gs ! ze) @ print6_from gs (zs, ze) (Suc ze))"
    using assms print6_zeros [of "(zs, ze)" gs] by simp
  moreover have "print6_from gs (zs, ze) (Suc ze) = (if Suc ze < 8 then '':'' else []) @ hexes (drop (Suc ze) gs)"
    if "ze < 8" using that assms by (subst print6_rest) auto
  moreover have "drop ze gs = gs ! ze # drop (Suc ze) gs" if "ze < 8"
    using that assms by (simp add: Cons_nth_drop_Suc)
  ultimately show ?case
    using i assms by (cases "ze = 8"; cases "Suc ze = 8") (simp_all add: join_Cons del: join.simps(3))
next
  case (Suc n)
  then have i: "i < zs" "i < 8" using assms by simp_all
  have IH: "print6_from gs (zs, ze) (Suc i) =
    (if Suc i < zs then '':'' else []) @ hexes (take (zs - Suc i) (drop (Suc i) gs)) @ ''::'' @ hexes (drop ze gs)"
    using Suc.hyps(1) [of "Suc i"] Suc.hyps(2) i by simp
  have "drop i gs = gs ! i # drop (Suc i) gs" using assms i by (simp add: Cons_nth_drop_Suc)
  moreover have "take (zs - i) (x # xs) = x # take (zs - Suc i) xs" for x and xs :: "uint16 list"
    using i by (simp add: take_Cons')
  moreover have "take (zs - Suc i) (drop (Suc i) gs) = [] \<longleftrightarrow> \<not> Suc i < zs"
    using i assms by auto
  ultimately show ?case
    using i IH print6_group [of i "(zs, ze)" gs] by (auto simp: join_Cons simp del: join.simps(3))
qed

text \<open>The two shapes of the text of eight groups.\<close>

lemma print6_shape:
  assumes "length gs = 8"
  obtains "print6_from gs (zero_range gs) 0 = hexes gs"
  | zs ze where "zs + 2 \<le> ze" "ze \<le> 8" "gs = take zs gs @ replicate (ze - zs) 0 @ drop ze gs"
      "print6_from gs (zero_range gs) 0 = hexes (take zs gs) @ ''::'' @ hexes (drop ze gs)"
proof (cases "zero_range gs = (255, 255)")
  case True
  then show thesis using that(1) print6_rest [OF assms, of "(255, 255)" 0] by simp
next
  case False
  obtain zs ze where zr: "zero_range gs = (zs, ze)" by (cases "zero_range gs")
  with False zero_range_ok [OF assms] have ok: "zs + 2 \<le> ze" "ze \<le> 8" "\<And>k. zs \<le> k \<Longrightarrow> k < ze \<Longrightarrow> gs ! k = 0"
    by (auto simp: zero_ok_def)
  have "drop zs (take ze gs) = replicate (ze - zs) 0"
    using ok assms by (intro nth_equalityI) auto
  moreover have "gs = take zs gs @ drop zs (take ze gs) @ drop ze gs"
    using ok assms by (metis append_assoc append_take_drop_id add_leD1 take_take min.absorb1 min_def)
  ultimately show thesis
    using that(2) [of zs ze] ok print6_run [OF assms, of 0 zs ze] zr by simp
qed

section \<open>Round trips\<close>

lemma expand_around:
  assumes "length gs = 8" "zs + 2 \<le> ze" "ze \<le> 8" "gs = take zs gs @ replicate (ze - zs) 0 @ drop ze gs"
  shows "expand_ellipsis (take zs gs @ drop ze gs) (Some zs) = Some gs"
  using assms by (simp add: expand_ellipsis_def min_def)

lemma addr6_of_groups [simp]: "addr6_of [a, b, c, d, e, f, g, h] z = Some (Addr6 a b c d e f g h z)"
  by (simp add: addr6_of_def)

lemma hexes_set: "c \<in> set (hexes gs) \<Longrightarrow> c = CHR '':'' \<or> (\<exists>g. c \<in> set (hexg g))"
  using set_join [of "'':''" "map hexg gs"] by auto

lemma hexes_not_in [simp]:
  "CHR ''%'' \<notin> set (hexes gs)" "CHR ''.'' \<notin> set (hexes gs)" "CHR '']'' \<notin> set (hexes gs)"
  "CHR ''['' \<notin> set (hexes gs)" "CHR '' '' \<notin> set (hexes gs)"
  by (auto dest!: hexes_set simp: hexg_not_in)

lemma parse_ipv6_zone:
  "CHR ''%'' \<notin> set s \<Longrightarrow> parse_ipv6 (s @ zone_suffix z) = parse_ipv6_body z s"
  by (simp add: parse_ipv6_def zone_suffix_def gostr)

lemma not_lead_hexes: "gs \<noteq> [] \<Longrightarrow> \<not> has_prefix (hexes gs @ s) ''::''"
  using hd_hexes [of gs s] by (cases "hexes gs @ s") auto

lemma parse_ipv6_append6:
  assumes len: "length gs = 8"
  shows "parse_ipv6 (append6 gs z) = addr6_of gs z"
  using len
proof (cases rule: print6_shape)
  case 1
  then have "append6 gs z = hexes gs @ zone_suffix z" by (simp add: append6_def)
  moreover have "ipv6_loop [] None (hexes gs) = Some ([], gs, None)"
    using ipv6_loop_hexes [of gs "[]" None] len by (cases gs) auto
  moreover have "\<not> has_prefix (hexes gs) ''::''"
    using not_lead_hexes [of gs "[]"] len by (cases gs) auto
  ultimately show ?thesis
    using len by (simp add: parse_ipv6_zone parse_ipv6_body_def expand_ellipsis_def del: has_prefix_Cons)
next
  case (2 zs ze)
  note exp = expand_around [OF len 2(1,2,3)]
  have body: "append6 gs z = (hexes (take zs gs) @ ''::'' @ hexes (drop ze gs)) @ zone_suffix z"
    using 2(4) by (simp add: append6_def)
  show ?thesis
  proof (cases "zs = 0")
    case True
    show ?thesis
    proof (cases "ze = 8")
      case True
      then have "gs = replicate 8 0" using 2(3) \<open>zs = 0\<close> len by simp
      then show ?thesis
        unfolding body using True \<open>zs = 0\<close> len parse_ipv6_zone [of "''::''" z]
        by (simp add: parse_ipv6_body_def)
    next
      case False
      then have "ipv6_loop [] (Some 0) (hexes (drop ze gs)) = Some ([], drop ze gs, Some 0)"
        using ipv6_loop_hexes [of "drop ze gs" "[]" "Some 0"] 2(2) len by auto
      then show ?thesis
        unfolding body using True False 2(2) exp len hd_hexes [of "drop ze gs"]
          parse_ipv6_zone [of "''::'' @ hexes (drop ze gs)" z]
        by (simp add: parse_ipv6_body_def)
    qed
  next
    case False
    then have ne: "take zs gs \<noteq> []" using len by auto
    have zs: "zs < 8" using 2(1,2) by simp
    have "ipv6_loop [] None (hexes (take zs gs) @ ''::'' @ hexes (drop ze gs)) =
        Some ([], take zs gs @ drop ze gs, Some zs)"
    proof (cases "ze = 8")
      case True
      then show ?thesis using ipv6_loop_hexes_dcolon [OF ne, of "[]" "[]"] zs len by simp
    next
      case False
      then have "drop ze gs \<noteq> []" "zs + length (drop ze gs) \<le> 8" using 2(1,2) len by auto
      then show ?thesis
        using ipv6_loop_hexes_dcolon [OF ne, of "[]" "hexes (drop ze gs)"]
          ipv6_loop_hexes [of "drop ze gs" "take zs gs" "Some zs"] hd_hexes [of "drop ze gs"] zs len
        by (simp add: min_def)
    qed
    then show ?thesis
      unfolding body using not_lead_hexes [OF ne] exp
        parse_ipv6_zone [of "hexes (take zs gs) @ ''::'' @ hexes (drop ze gs)" z]
      by (simp add: parse_ipv6_zone parse_ipv6_body_def del: has_prefix_Cons)
  qed
qed

text \<open>The mapped form \<open>::ffff:a.b.c.d\<close>.\<close>

lemma ucast_bytes: "push_bit 8 (ucast (ucast (drop_bit 8 g) :: uint8)) + ucast (ucast g :: uint8) = (g :: uint16)"
proof -
  have "push_bit 8 (ucast (ucast (drop_bit 8 g) :: uint8)) + ucast (ucast g :: uint8)
      = or (push_bit 8 (ucast (ucast (drop_bit 8 g) :: uint8))) (ucast (ucast g :: uint8) :: uint16)"
    by (rule disjunctive_add_eq_or) (auto intro!: bit_word_eqI simp: bit_simps)
  also have "\<dots> = g"
    by (rule bit_word_eqI) (auto simp: bit_simps)
  finally show ?thesis .
qed

lemma string4_set: "c \<in> set (string4 a b c' d) \<Longrightarrow> c = CHR ''.'' \<or> is_digit c"
  by (auto simp: string4_def dest: dec_set)

lemma string4_not_in [simp]:
  "CHR ''%'' \<notin> set (string4 a b c d)" "CHR '':'' \<notin> set (string4 a b c d)"
  "CHR '']'' \<notin> set (string4 a b c d)" "CHR ''['' \<notin> set (string4 a b c d)"
  "CHR '' '' \<notin> set (string4 a b c d)"
  by (auto dest!: string4_set simp: is_digit_def)

lemma string4_nonempty [simp]: "string4 a b c d \<noteq> []"
  by (simp add: string4_def)

lemma hex_val_digit: "is_digit c \<Longrightarrow> hex_val c = Some (digit_val c)"
  by (simp add: is_digit_def hex_val_def digit_val_def Let_def)

lemma hex_group_digits:
  "\<lbrakk>list_all is_digit u; off + length u \<le> 4; acc < 16 ^ off\<rbrakk> \<Longrightarrow>
   \<exists>acc'. hex_group off acc (u @ CHR ''.'' # s) = Some (off + length u, acc', CHR ''.'' # s)"
proof (induction u arbitrary: off acc)
  case (Cons c u)
  have d: "digit_val c < 16" using Cons.prems(1) by (auto simp: is_digit_def digit_val_def)
  have "off \<le> 3" using Cons.prems(2) by simp
  then have "(16 :: nat) ^ Suc off \<le> 16 ^ 4" by (intro power_increasing) auto
  moreover have acc: "16 * acc + digit_val c < 16 ^ Suc off" using Cons.prems(3) d by simp
  ultimately have "16 * acc + digit_val c \<le> 0xFFFF" by simp
  then show ?case
    using Cons.IH [of "Suc off" "16 * acc + digit_val c"] Cons.prems acc \<open>off \<le> 3\<close>
    by (simp add: hex_val_digit)
qed simp

lemma length_dec_octet: "n < 256 \<Longrightarrow> length (dec n) \<le> 3"
  by (erule dec_octet_cases) simp_all

lemma ipv6_loop_string4:
  "length gs \<le> 6 \<Longrightarrow> ipv6_loop gs (Some e) (string4 a b c d) =
    Some ([], gs @ [push_bit 8 (ucast a) + ucast b, push_bit 8 (ucast c) + ucast d], Some e)"
proof -
  assume "length gs \<le> 6"
  moreover obtain acc where "hex_group 0 0 (string4 a b c d) =
      Some (length (dec (unat a)), acc, ''.'' @ dec (unat b) @ ''.'' @ dec (unat c) @ ''.'' @ dec (unat d))"
    using hex_group_digits [OF dec_digits, of 0 "unat a" 0] length_dec_octet [OF unat_uint8_less [of a]]
    unfolding string4_def by auto
  ultimately show ?thesis
    by (subst ipv6_loop.simps) (simp add: ipv4_fields_string4)
qed

lemma parse_ipv6_mapped:
  "parse_ipv6 (''::ffff:'' @ unmap_text g h @ zone_suffix z) = Some (Addr6 0 0 0 0 0 0xFFFF g h z)"
proof -
  let ?v4 = "unmap_text g h"
  have "hd ?v4 \<noteq> CHR '':'' \<and> ?v4 \<noteq> []"
    using string4_not_in(2) by (metis list.set_sel(1) string4_nonempty unmap_text_def)
  moreover have "hexg 0xFFFF = ''ffff''" by (simp add: hex16_def hex_char_def) code_simp
  ultimately have "ipv6_loop [] (Some 0) (''ffff:'' @ ?v4) = ipv6_loop [0xFFFF] (Some 0) ?v4"
    using ipv6_loop_colon [of "[]" ?v4 "Some 0" "0xFFFF"] by simp
  also have "\<dots> = Some ([], [0xFFFF, g, h], Some 0)"
    by (simp add: unmap_text_def ipv6_loop_string4 ucast_bytes)
  finally have "parse_ipv6_body z (''::ffff:'' @ ?v4) = Some (Addr6 0 0 0 0 0 0xFFFF g h z)"
    by (simp add: parse_ipv6_body_def expand_ellipsis_def numeral_eq_Suc)
  moreover have "CHR ''%'' \<notin> set (''::ffff:'' @ ?v4)" by (simp add: unmap_text_def)
  ultimately show ?thesis using parse_ipv6_zone [of "''::ffff:'' @ ?v4" z] by simp
qed

text \<open>The first dot or colon of the text of an IPv6 address is a colon.\<close>

lemma parse_addr_string6:
  assumes "length gs = 8" "mapped \<Longrightarrow> gs = [0, 0, 0, 0, 0, 0xFFFF, g, h]"
  shows "parse_addr (string6 gs z mapped) = addr6_of gs z"
proof (cases mapped)
  case True
  with assms(2) have "gs = [0, 0, 0, 0, 0, 0xFFFF, g, h]" by blast
  with True show ?thesis
    using parse_ipv6_mapped [of g h z] by (simp add: parse_addr_def string6_def)
next
  case False
  have scan: "parse_addr_scan s (append6 gs z) = parse_ipv6 s" for s
    using assms(1)
  proof (cases rule: print6_shape)
    case 1
    obtain g' gs' where gs: "gs = g' # gs'" "gs' \<noteq> []"
      using assms(1) by (cases gs; cases "tl gs") auto
    with 1 have "append6 gs z = hexg g' @ '':'' @ hexes gs' @ zone_suffix z"
      by (simp add: append6_def join_Cons del: join.simps(3))
    then show ?thesis by (simp add: parse_addr_scan_skip hexg_not_in)
  next
    case (2 zs ze)
    have "parse_addr_scan s (hexes (take zs gs) @ CHR '':'' # u) = parse_ipv6 s" for u
    proof (cases "take zs gs")
      case (Cons g' gs')
      then show ?thesis
        by (cases "gs' = []") (simp_all add: join_Cons parse_addr_scan_skip hexg_not_in del: join.simps(3))
    next
      case Nil
      show ?thesis unfolding Nil by simp
    qed
    with 2(4) show ?thesis by (simp add: append6_def)
  qed
  then show ?thesis
    using False assms(1) parse_ipv6_append6 by (simp add: parse_addr_def string6_def)
qed

lemma parse_addr_addr_string [roundtrip]: "is_valid a \<Longrightarrow> parse_addr (addr_string a) = Some a"
  by (cases a) (auto simp: is_valid_def parse_addr_string4 parse_addr_string6)

lemma parse_addr_port_text [roundtrip]:
  assumes "is_valid a"
  shows "parse_addr_port (addr_port_string (a, p)) = Some (a, p)"
proof (cases a)
  case (Addr4 b c d e)
  have "last_index_byte (CHR '':'') (string4 b c d e @ '':'' @ dec (unat p)) = Some (length (string4 b c d e))"
    by (simp add: gostr)
  moreover have "hd (string4 b c d e) \<noteq> CHR ''[''"
    using string4_not_in(4) by (metis list.set_sel(1) string4_nonempty)
  ultimately have "split_addr_port (string4 b c d e @ '':'' @ dec (unat p)) = Some (string4 b c d e, dec (unat p), False)"
    by (simp add: split_addr_port_def)
  with Addr4 show ?thesis by (simp add: parse_addr_port_def roundtrip parse_addr_string4)
next
  case (Addr6 g1 g2 g3 g4 g5 g6 g7 g8 z)
  let ?t = "string6 [g1, g2, g3, g4, g5, g6, g7, g8] z (is4in6 a)"
  have "last_index_byte (CHR '':'') ((''['' @ ?t @ '']'') @ CHR '':'' # dec (unat p)) = Some (length (''['' @ ?t @ '']''))"
    by (rule last_index_byte_append) simp
  then have "split_addr_port ((''['' @ ?t @ '']'') @ CHR '':'' # dec (unat p)) = Some (?t, dec (unat p), True)"
    by (simp add: split_addr_port_def)
  moreover have "parse_addr ?t = Some a"
    using parse_addr_addr_string [OF assms] Addr6 by simp
  ultimately show ?thesis using Addr6 by (simp add: parse_addr_port_def roundtrip)
qed (use assms in \<open>simp add: is_valid_def\<close>)

text \<open>What the parsers return is an address.\<close>

lemma parse_addr_valid: "parse_addr s = Some a \<Longrightarrow> is_valid a"
proof -
  have "addr6_of gs z = Some a \<Longrightarrow> is_valid a" for gs z
    by (auto simp: addr6_of_def is_valid_def split: list.splits)
  then have "parse_ipv6 s = Some a \<Longrightarrow> is_valid a" for s
    by (auto simp: parse_ipv6_def parse_ipv6_body_def Let_def split: option.splits if_splits prod.splits)
  moreover have "parse_ipv4 s = Some a \<Longrightarrow> is_valid a" for s
    by (auto simp: parse_ipv4_def is_valid_def split: option.splits list.splits)
  ultimately have "parse_addr_scan s t = Some a \<Longrightarrow> is_valid a" for s t
    by (induction s t rule: parse_addr_scan.induct) (auto split: if_splits)
  then show "parse_addr s = Some a \<Longrightarrow> is_valid a" by (simp add: parse_addr_def)
qed

lemma parse_addr_port_valid: "parse_addr_port s = Some (a, p) \<Longrightarrow> is_valid a"
  by (auto simp: parse_addr_port_def dest: parse_addr_valid split: option.splits if_splits prod.splits)

text \<open>Without a zone the texts are printing ASCII and not empty.\<close>

definition zoneless :: "addr \<Rightarrow> bool" where
  "zoneless a \<longleftrightarrow> (case a of Addr6 _ _ _ _ _ _ _ _ z \<Rightarrow> z = [] | _ \<Rightarrow> True)"

lemma string4_graphic [simp]: "graphic (string4 a b c d)"
  by (simp add: string4_def graph_char_def)

lemma string6_graphic:
  assumes "length gs = 8"
  shows "graphic (string6 gs [] m)"
proof -
  have h: "graphic (hexes xs)" for xs by (rule graphic_join) (auto simp: graph_char_def)
  have "graphic (append6 gs [])"
    by (rule print6_shape [OF assms]) (simp_all add: append6_def zone_suffix_def h graph_char_def)
  then show ?thesis by (simp add: string6_def unmap_text_def zone_suffix_def graph_char_def)
qed

lemma addr_texts_graphic:
  "\<lbrakk>is_valid a; zoneless a\<rbrakk> \<Longrightarrow> graphic (addr_string a) \<and> graphic (addr_port_string (a, p))"
  by (cases a) (auto simp: is_valid_def zoneless_def string6_graphic graph_char_def)

lemma addr_string_nonempty [simp]: "addr_string a \<noteq> []"
proof (cases a)
  case (Addr6 g1 g2 g3 g4 g5 g6 g7 g8 z)
  have "append6 gs z \<noteq> []" if "length gs = 8" for gs
    by (rule print6_shape [OF that])
       (use that hd_hexes [of gs] in \<open>cases gs; auto simp: append6_def\<close>)+
  with Addr6 show ?thesis by (simp add: string6_def)
qed simp_all

lemma addr_port_string_nonempty [simp]: "addr_port_string ap \<noteq> []"
  by (cases ap rule: addr_port_string.cases) simp_all

text \<open>The characters of a text without a zone.\<close>

definition addr_char :: "char \<Rightarrow> bool" where
  "addr_char c \<longleftrightarrow>
     (let n = (of_char c :: nat)
      in 48 \<le> n \<and> n \<le> 58 \<or> 97 \<le> n \<and> n \<le> 102 \<or> n = 46 \<or> n = 91 \<or> n = 93)"

lemma addr_char_simps [simp]:
  "addr_char (CHR ''.'')" "addr_char (CHR '':'')" "addr_char (CHR ''['')" "addr_char (CHR '']'')"
  "addr_char (CHR ''f'')" "is_digit c \<Longrightarrow> addr_char c" "d < 16 \<Longrightarrow> addr_char (hex_char d)"
  by (simp_all add: addr_char_def is_digit_def of_hex_char)

lemma addr_char_printed:
  "c \<in> set (dec n) \<Longrightarrow> addr_char c" "c \<in> set (string4 b1 b2 b3 b4) \<Longrightarrow> addr_char c"
  using dec_set [of c n] string4_set [of c b1 b2 b3 b4] by auto

lemma addr_char_hexes: "c \<in> set (hexes gs) \<Longrightarrow> addr_char c"
  by (auto dest!: hexes_set hex_char_set [OF _ unat_uint16_less])

lemma addr_char_string6:
  assumes "length gs = 8" "c \<in> set (string6 gs [] m)"
  shows "addr_char c"
proof -
  have "addr_char c" if "c \<in> set (append6 gs [])"
    by (rule print6_shape [OF assms(1)]) (use that addr_char_hexes in \<open>auto simp: append6_def zone_suffix_def\<close>)
  then show ?thesis
    using assms(2)
    by (auto simp: string6_def unmap_text_def zone_suffix_def split: if_splits dest: addr_char_printed)
qed

lemma addr_text_chars:
  assumes "is_valid a" "zoneless a"
  shows "(\<forall>c \<in> set (addr_string a). addr_char c) \<and> (\<forall>c \<in> set (addr_port_string (a, p)). addr_char c)"
proof (cases a)
  case (Addr4 b1 b2 b3 b4)
  then show ?thesis
    by (auto dest: addr_char_printed)
next
  case (Addr6 g1 g2 g3 g4 g5 g6 g7 g8 z)
  then have "z = []" using assms by (simp add: zoneless_def)
  with Addr6 have "addr_char c" if "c \<in> set (addr_string a)" for c
    using that by (auto intro: addr_char_string6 [rotated])
  with Addr6 show ?thesis
    by (auto dest: addr_char_printed)
qed (use assms in \<open>simp_all add: is_valid_def\<close>)

text \<open>Such a text is not the word \<open>NORESPONSE\<close>, in any case of its letters.\<close>

lemma addr_chars_no_response:
  assumes "s \<noteq> []" "\<And>c. c \<in> set s \<Longrightarrow> c = CHR '' '' \<or> addr_char c"
  shows "\<not> equal_fold s ''NORESPONSE''"
proof -
  obtain c t where cs: "s = c # t" using assms(1) by (cases s) auto
  let ?n = "of_char c :: nat"
  have n: "?n = 32 \<or> 48 \<le> ?n \<and> ?n \<le> 58 \<or> 97 \<le> ?n \<and> ?n \<le> 102 \<or> ?n = 46 \<or> ?n = 91 \<or> ?n = 93"
    using assms(2) [of c] by (auto simp: cs addr_char_def Let_def)
  then have "?n < 0x80" "\<not> (0x41 \<le> ?n \<and> ?n \<le> 0x5A)" by linarith+
  then have "ascii_lower c = c" "?n < 0x80" by (auto simp: ascii_lower_def Let_def)
  moreover have "c \<noteq> CHR ''n''" using n by auto
  moreover have "ascii_lower (CHR ''N'') = CHR ''n''" by code_simp
  ultimately show ?thesis by (simp add: cs)
qed

lemma addr_text_no_response:
  assumes "is_valid a" "zoneless a"
  shows "\<not> equal_fold (addr_port_string (a, p)) ''NORESPONSE''"
proof (rule addr_chars_no_response)
  show "addr_port_string (a, p) \<noteq> []" using assms by (cases a) (auto simp: is_valid_def)
qed (use addr_text_chars assms in blast)

end
