(* ===== verification/Core_Types.thy ===== *)
theory Core_Types
  imports Netip
begin

text \<open>
  The types of the \<open>core\<close> package: \<open>Record\<close>, the \<open>RecordRepository\<close> interface with its
  contract as a locale, the \<open>Metrics\<close> events, the regular-expression library as a
  parameter, and the \<open>Server\<close> structure. Every error of the program is a value of
  \<open>error\<close>; \<open>ErrExternal\<close> is one that a database, a network call or the file system returned.
\<close>

section \<open>Errors\<close>

datatype error =
    ErrRecordNil | ErrRecordNotFound | ErrDomainRequired
  | ErrInvalidIP | ErrRepoRequired | ErrInvalidListen
  | ErrReaderNil | ErrScan
  | ErrInvalidPort | ErrInvalidInstanceID
  | ErrLineInvalidIP nat string
  | ErrLineCreate nat string error
  | ErrInvalidTarget string
  | ErrDialectRequired | ErrSQLDSNRequired | ErrUnsupportedDialect string
  | ErrRedisAddrRequired | ErrDecodeRecord string
  | ErrDSNRequired | ErrInvalidDSN | ErrSchemeRequired | ErrUnsupportedScheme string
  | ErrUnsupportedBackend | ErrSQLitePathMissing | ErrPostgresURLRequired
  | ErrMySQLHostMissing | ErrMySQLDBMissing | ErrMySQLUserMissing
  | ErrRedisUserUnsupported | ErrRedisHostMissing | ErrRedisDBInvalid
  | ErrListenRequired | ErrCacheRequired | ErrStorageRequired | ErrAPIMethodRequired
  | ErrReadConfig | ErrParseConfig
  | ErrInputRequired | ErrAPIRequired | ErrAPIError string
  | ErrInvalidInterval
  | ErrExternal string

section \<open>Records\<close>

text \<open>An instant of \<open>time.Time\<close>, in nanoseconds since the zero time, which is 0.\<close>

type_synonym time = int

definition time_is_zero :: "time \<Rightarrow> bool" where
  "time_is_zero t \<longleftrightarrow> t = 0"

text \<open>The text of a time in the layout RFC3339Nano, and the reading of such a text.\<close>

record time_codec =
  tc_format :: "time \<Rightarrow> string"
  tc_parse :: "string \<Rightarrow> time option"

record tsrecord =
  rec_created_at :: time
  rec_updated_at :: time
  rec_deleted_at :: "time option"
  rec_domain :: string
  rec_targets :: "addr_port list"
  rec_id :: int64
  rec_instance_id :: int64

text \<open>\<open>&Record{InstanceID: i, Domain: d, Targets: ts}\<close>, every other field its zero value.\<close>

definition new_record :: "int64 \<Rightarrow> string \<Rightarrow> addr_port list \<Rightarrow> tsrecord" where
  "new_record i d ts =
     \<lparr>rec_created_at = 0, rec_updated_at = 0, rec_deleted_at = None, rec_domain = d,
      rec_targets = ts, rec_id = 0, rec_instance_id = i\<rparr>"

lemma new_record_simps [simp]:
  "rec_domain (new_record i d ts) = d" "rec_targets (new_record i d ts) = ts"
  "rec_instance_id (new_record i d ts) = i" "rec_created_at (new_record i d ts) = 0"
  by (simp_all add: new_record_def)

section \<open>Metrics\<close>

text \<open>The calls of the \<open>Metrics\<close> interface, without the measured durations.\<close>

datatype metric =
    RecordQuery string
  | RecordCacheRefresh string
  | RecordRepositoryOp string string

section \<open>Regular expressions\<close>

text \<open>\<open>regexp.Compile\<close> (\<open>None\<close> for its error) and \<open>MatchString\<close>; \<open>'x\<close> is a compiled expression.\<close>

record 'x regexp =
  rx_compile :: "string \<Rightarrow> 'x option"
  rx_match :: "'x \<Rightarrow> string \<Rightarrow> bool"

section \<open>The repository interface\<close>

text \<open>
  The operations of \<open>RecordRepository\<close> on a repository state \<open>'r\<close>. \<open>create\<close> takes the
  clock's value and a pointer that may be nil, and returns the record as it left it.
\<close>

record 'r repo_ops =
  repo_find :: "'r \<Rightarrow> error + tsrecord list"
  repo_find_by_domain :: "string \<Rightarrow> 'r \<Rightarrow> error + tsrecord"
  repo_create :: "time \<Rightarrow> tsrecord option \<Rightarrow> 'r \<Rightarrow> (error + tsrecord) \<times> 'r"
  repo_delete :: "string \<Rightarrow> 'r \<Rightarrow> (error + unit) \<times> 'r"
  repo_delete_by_instance_id :: "int64 \<Rightarrow> 'r \<Rightarrow> (error + unit) \<times> 'r"
  repo_close :: "'r \<Rightarrow> (error + unit) \<times> 'r"

text \<open>What a repository stores for a domain, as far as its clients rely on it.\<close>

type_synonym entry = "int64 \<times> addr_port list"

definition rec_entry :: "tsrecord \<Rightarrow> entry" where
  "rec_entry r = (rec_instance_id r, rec_targets r)"

definition entries_of :: "tsrecord list \<Rightarrow> string \<Rightarrow> entry option" where
  "entries_of rs = map_of (map (\<lambda>r. (rec_domain r, rec_entry r)) rs)"

lemma entries_of_iff:
  "distinct (map rec_domain rs) \<Longrightarrow>
   entries_of rs d = Some e \<longleftrightarrow> (\<exists>x \<in> set rs. rec_domain x = d \<and> rec_entry x = e)"
  by (force simp: entries_of_def map_of_eq_Some_iff comp_def)

lemma rec_entry_new [simp]: "rec_entry (new_record i d ts) = (i, ts)"
  by (simp add: rec_entry_def)

text \<open>
  The contract of the interface: \<open>content\<close> abstracts a repository to a map from domains to
  entries, \<open>invar\<close> is what its operations keep, and \<open>storable\<close> the targets it stores
  without loss. Any operation may fail; the laws speak of the calls that succeed, and of
  the failures the code itself raises.
\<close>

locale record_repository =
  fixes ops :: "'r repo_ops"
    and content :: "'r \<Rightarrow> string \<Rightarrow> entry option"
    and invar :: "'r \<Rightarrow> bool"
    and storable :: "addr_port \<Rightarrow> bool"
  assumes find_content:
      "\<lbrakk>invar r; repo_find ops r = Inr rs\<rbrakk> \<Longrightarrow> distinct (map rec_domain rs) \<and> entries_of rs = content r"
    and find_by_domain_content:
      "\<lbrakk>invar r; repo_find_by_domain ops d r = Inr x\<rbrakk> \<Longrightarrow> rec_domain x = d \<and> content r d = Some (rec_entry x)"
    and create_nil: "repo_create ops now None r = (Inl ErrRecordNil, r)"
    and create_blank:
      "trim_space (rec_domain x) = [] \<Longrightarrow> repo_create ops now (Some x) r = (Inl ErrDomainRequired, r)"
    and create_content:
      "\<lbrakk>invar r; list_all storable (rec_targets x); repo_create ops now (Some x) r = (Inr x', r')\<rbrakk> \<Longrightarrow>
       content r' = (content r)(rec_domain x \<mapsto> rec_entry x) \<and> rec_domain x' = rec_domain x \<and> rec_entry x' = rec_entry x"
    and delete_content:
      "\<lbrakk>invar r; repo_delete ops d r = (Inr (), r')\<rbrakk> \<Longrightarrow> content r d \<noteq> None \<and> content r' = (content r)(d := None)"
    and delete_by_instance_content:
      "\<lbrakk>invar r; repo_delete_by_instance_id ops i r = (Inr (), r')\<rbrakk> \<Longrightarrow>
       content r' = (\<lambda>d. case content r d of
                          None \<Rightarrow> None
                        | Some e \<Rightarrow> if fst e = i then None else Some e)"
    and create_invar: "invar r \<Longrightarrow> invar (snd (repo_create ops now xo r))"
    and delete_invar: "invar r \<Longrightarrow> invar (snd (repo_delete ops d r))"
    and delete_by_instance_invar: "invar r \<Longrightarrow> invar (snd (repo_delete_by_instance_id ops i r))"
begin

lemmas repo_invar = create_invar delete_invar delete_by_instance_invar

text \<open>Missing domains are an error of the lookup and of the deletion.\<close>

lemma find_by_domain_missing:
  assumes "invar r" "content r d = None"
  shows "\<exists>e. repo_find_by_domain ops d r = Inl e"
  using find_by_domain_content [OF assms(1), of d] assms(2)
  by (cases "repo_find_by_domain ops d r") auto

lemma delete_missing:
  assumes "invar r" "content r d = None"
  shows "\<exists>e. fst (repo_delete ops d r) = Inl e"
  using delete_content [OF assms(1), of d] assms(2)
  by (cases "repo_delete ops d r"; cases "fst (repo_delete ops d r)") auto

text \<open>A successful listing holds one record for each stored domain and no other.\<close>

lemma find_mem:
  assumes "invar r" "repo_find ops r = Inr rs"
  shows "content r d = Some e \<longleftrightarrow> (\<exists>x \<in> set rs. rec_domain x = d \<and> rec_entry x = e)"
  using find_content [OF assms] entries_of_iff [of rs d e] by auto

lemma find_unique:
  "\<lbrakk>invar r; repo_find ops r = Inr rs; x \<in> set rs; y \<in> set rs; rec_domain x = rec_domain y\<rbrakk> \<Longrightarrow> x = y"
  by (metis find_content distinct_map inj_on_eq_iff)

end

section \<open>Logging\<close>

text \<open>A logger is the level of its handler and whether the handler writes JSON.\<close>

datatype log_level = LevelDebug | LevelInfo | LevelWarn | LevelError

type_synonym logger = "log_level \<times> bool"

definition new_default_logger :: logger where
  "new_default_logger = (LevelDebug, False)"

section \<open>The server\<close>

text \<open>
  The fields of \<open>Server\<close>. The repository value is the repository's state; the log of
  metric calls stands for the \<open>Metrics\<close> object, the two flags for the context's
  cancellation and the listener.
\<close>

record ('r, 'x) server =
  srv_repository :: 'r
  srv_metrics :: "metric list"
  srv_listening :: bool
  srv_cancelled :: bool
  srv_addr :: string
  srv_cache :: "string \<Rightarrow> tsrecord option"
  srv_wildcard_records :: "tsrecord list"
  srv_regex_records :: "(tsrecord \<times> 'x) list"
  srv_cache_refresh_interval :: int
  srv_logger :: logger

definition log_metric :: "metric \<Rightarrow> ('r, 'x) server \<Rightarrow> ('r, 'x) server" where
  "log_metric m s = s\<lparr>srv_metrics := srv_metrics s @ [m]\<rparr>"

lemma log_metric_simps [simp]:
  "srv_repository (log_metric m s) = srv_repository s" "srv_cache (log_metric m s) = srv_cache s"
  "srv_wildcard_records (log_metric m s) = srv_wildcard_records s"
  "srv_regex_records (log_metric m s) = srv_regex_records s"
  "srv_metrics (log_metric m s) = srv_metrics s @ [m]"
  "srv_cancelled (log_metric m s) = srv_cancelled s" "srv_listening (log_metric m s) = srv_listening s"
  by (simp_all add: log_metric_def)

end
