(* ===== verification/Utf8.thy ===== *)
theory Utf8
  imports Go_Strings
begin

text \<open>
  UTF-8 as Go decodes it: \<open>utf8.DecodeRuneInString\<close> gives a rune and its width, the
  replacement rune U+FFFD and width 1 for an invalid sequence. The regular expressions
  step through a text rune by rune.
\<close>

definition cont_byte :: "nat \<Rightarrow> bool" where
  "cont_byte b \<longleftrightarrow> 0x80 \<le> b \<and> b \<le> 0xBF"

text \<open>The range of the second byte for a first byte of a sequence of three or four bytes.\<close>

definition second_ok :: "nat \<Rightarrow> nat \<Rightarrow> bool" where
  "second_ok b0 b1 \<longleftrightarrow>
     (if b0 = 0xE0 then 0xA0 \<le> b1 \<and> b1 \<le> 0xBF
      else if b0 = 0xED then 0x80 \<le> b1 \<and> b1 \<le> 0x9F
      else if b0 = 0xF0 then 0x90 \<le> b1 \<and> b1 \<le> 0xBF
      else if b0 = 0xF4 then 0x80 \<le> b1 \<and> b1 \<le> 0x8F
      else cont_byte b1)"

definition replacement_rune :: nat where
  "replacement_rune = 0xFFFD"

text \<open>The width of a valid first rune; 0 when the text starts with no valid rune.\<close>

fun valid_width :: "nat list \<Rightarrow> nat" where
  "valid_width [] = 0"
| "valid_width (b0 # s) =
     (if b0 < 0x80 then 1
      else if 0xC2 \<le> b0 \<and> b0 \<le> 0xDF then
        (case s of b1 # _ \<Rightarrow> if cont_byte b1 then 2 else 0 | _ \<Rightarrow> 0)
      else if 0xE0 \<le> b0 \<and> b0 \<le> 0xEF then
        (case s of b1 # b2 # _ \<Rightarrow> if second_ok b0 b1 \<and> cont_byte b2 then 3 else 0 | _ \<Rightarrow> 0)
      else if 0xF0 \<le> b0 \<and> b0 \<le> 0xF4 then
        (case s of b1 # b2 # b3 # _ \<Rightarrow>
           if second_ok b0 b1 \<and> cont_byte b2 \<and> cont_byte b3 then 4 else 0 | _ \<Rightarrow> 0)
      else 0)"

definition rune_width :: "string \<Rightarrow> nat" where
  "rune_width s = max 1 (valid_width (map of_char (take 4 s)))"

text \<open>The rune of a chunk: the bytes of one rune, or one invalid byte.\<close>

definition rune_of :: "string \<Rightarrow> nat" where
  "rune_of w =
     (case map of_char w of
        [b0] \<Rightarrow> if b0 < 0x80 then b0 else replacement_rune
      | [b0, b1] \<Rightarrow> (b0 mod 32) * 64 + b1 mod 64
      | [b0, b1, b2] \<Rightarrow> (b0 mod 16) * 4096 + (b1 mod 64) * 64 + b2 mod 64
      | [b0, b1, b2, b3] \<Rightarrow> (b0 mod 8) * 262144 + (b1 mod 64) * 4096 + (b2 mod 64) * 64 + b3 mod 64
      | _ \<Rightarrow> replacement_rune)"

function chunks :: "string \<Rightarrow> string list" where
  "chunks s = (if s = [] then [] else take (rune_width s) s # chunks (drop (rune_width s) s))"
  by pat_completeness auto
termination
  by (relation "measure length") (auto simp: rune_width_def)

declare chunks.simps [simp del]

definition runes :: "string \<Rightarrow> nat list" where
  "runes s = map rune_of (chunks s)"

text \<open>\<open>utf8.ValidString\<close>.\<close>

definition valid_chunk :: "string \<Rightarrow> bool" where
  "valid_chunk w \<longleftrightarrow> w \<noteq> [] \<and> valid_width (map of_char w) = length w"

definition utf8_valid :: "string \<Rightarrow> bool" where
  "utf8_valid s \<longleftrightarrow> list_all valid_chunk (chunks s)"

lemma chunks_Nil [simp]: "chunks [] = []"
  by (simp add: chunks.simps)

lemma concat_chunks [simp]: "concat (chunks s) = s"
proof (induction s rule: chunks.induct)
  case (1 s)
  then show ?case by (cases "s = []") (simp_all add: chunks.simps [of s])
qed

lemma chunks_nonempty: "w \<in> set (chunks s) \<Longrightarrow> w \<noteq> []"
proof (induction s rule: chunks.induct)
  case (1 s)
  then show ?case
    by (cases "s = []") (auto simp: chunks.simps [of s] rune_width_def)
qed

text \<open>A valid chunk in front of a text is that text's first chunk.\<close>

lemma valid_width_append:
  "valid_width bs = length bs \<Longrightarrow> bs \<noteq> [] \<Longrightarrow> length bs \<le> 4 \<and> valid_width (take 4 (bs @ cs)) = length bs"
  by (cases bs) (auto split: list.splits if_splits)

lemma rune_width_append: "valid_chunk w \<Longrightarrow> rune_width (w @ s) = length w"
proof -
  assume w: "valid_chunk w"
  then have "length w \<le> 4" "valid_width (take 4 (map of_char w @ map of_char s)) = length w"
    using valid_width_append [of "map of_char w" "map of_char s"] by (auto simp: valid_chunk_def)
  moreover have "1 \<le> length w" using w by (cases w) (simp_all add: valid_chunk_def)
  ultimately show ?thesis by (simp add: rune_width_def take_map max_def)
qed

lemma chunks_append: "valid_chunk w \<Longrightarrow> chunks (w @ s) = w # chunks s"
  using rune_width_append [of w s] by (subst chunks.simps) (auto simp: valid_chunk_def)

lemma chunks_concat: "list_all valid_chunk ws \<Longrightarrow> chunks (concat ws) = ws"
  by (induction ws) (simp_all add: chunks_append)

lemma valid_chunk_ascii: "(of_char c :: nat) < 0x80 \<Longrightarrow> valid_chunk [c]"
  by (simp add: valid_chunk_def)

lemma utf8_valid_ascii: "list_all (\<lambda>c. (of_char c :: nat) < 0x80) s \<Longrightarrow> chunks s = map (\<lambda>c. [c]) s"
  by (induction s) (simp, metis append_Cons append_Nil chunks_append list.pred_inject(2) list.simps(9) valid_chunk_ascii)

lemma runes_ascii: "list_all (\<lambda>c. (of_char c :: nat) < 0x80) s \<Longrightarrow> runes s = map of_char s"
  by (simp add: runes_def utf8_valid_ascii comp_def rune_of_def list_all_iff)

text \<open>Only the first chunk byte of a valid chunk of one byte is ASCII.\<close>

lemma valid_chunk_long: "\<lbrakk>valid_chunk w; length w \<noteq> 1; c \<in> set w\<rbrakk> \<Longrightarrow> 0x80 \<le> (of_char c :: nat)"
  by (cases w) (auto simp: valid_chunk_def cont_byte_def second_ok_def split: list.splits if_splits)

end
