(* ===== verification/Cache.thy ===== *)
theory Cache
  imports Core_Types Utf8
begin

text \<open>
  \<open>core/cache.go\<close>: the in-memory tables a server answers from. \<open>load_cache\<close> reads every
  record and rebuilds the three tables: the exact one, the wildcards, most specific first,
  and the records with a compiled expression. The library \<open>regexp\<close> is the parameter
  \<open>eng\<close>. The lemmas give each table as a function of the list of records.
\<close>

section \<open>From domains to expressions\<close>

text \<open>\<open>regexp.QuoteMeta\<close>.\<close>

definition special_char :: "char \<Rightarrow> bool" where
  "special_char c \<longleftrightarrow> c \<in> set (CHR 0x5C # ''.+*?()|[]{}^$'')"

definition quote_meta :: "string \<Rightarrow> string" where
  "quote_meta s = concat (map (\<lambda>c. if special_char c then [CHR 0x5C, c] else [c]) s)"

definition domain_to_regex :: "string \<Rightarrow> string" where
  "domain_to_regex domain =
     (let r = quote_meta domain;
          r = replace_all [CHR 0x5C, CHR ''*''] ''.*'' r;
          r = replace_all [CHR 0x5C, CHR ''?''] ''.'' r
      in ''^'' @ r @ ''$'')"

section \<open>Classification of the records\<close>

definition try_process_regex ::
  "'x regexp \<Rightarrow> tsrecord \<Rightarrow> (tsrecord \<times> 'x) list \<Rightarrow> bool \<times> (tsrecord \<times> 'x) list" where
  "try_process_regex eng r regexes =
     (case cut_prefix (rec_domain r) ''reg:'' of
        Some pattern \<Rightarrow>
          (case rx_compile eng pattern of
             Some re \<Rightarrow> (True, regexes @ [(r, re)])
           | None \<Rightarrow> (True, regexes))
      | None \<Rightarrow> (False, regexes))"

definition is_advanced :: "string \<Rightarrow> bool" where
  "is_advanced domain \<longleftrightarrow>
     CHR ''?'' \<in> set domain \<or> count_list domain (CHR ''*'') > 1 \<or>
     (CHR ''*'' \<in> set domain \<and> \<not> has_prefix domain ''*'')"

definition try_process_advanced_glob ::
  "'x regexp \<Rightarrow> tsrecord \<Rightarrow> (tsrecord \<times> 'x) list \<Rightarrow> bool \<times> (tsrecord \<times> 'x) list" where
  "try_process_advanced_glob eng r regexes =
     (if is_advanced (rec_domain r) then
        (case rx_compile eng (domain_to_regex (rec_domain r)) of
           Some re \<Rightarrow> (True, regexes @ [(r, re)])
         | None \<Rightarrow> (True, regexes))
      else (False, regexes))"

type_synonym 'x tables = "(string \<Rightarrow> tsrecord option) \<times> tsrecord list \<times> (tsrecord \<times> 'x) list"

definition process_record :: "'x regexp \<Rightarrow> tsrecord \<Rightarrow> 'x tables \<Rightarrow> 'x tables" where
  "process_record eng r = (\<lambda>(new_cache, wildcards, regexes).
     let domain = rec_domain r;
         new_cache = new_cache(domain \<mapsto> r);
         (done, regexes) = try_process_regex eng r regexes
     in if done then (new_cache, wildcards, regexes)
        else let (done, regexes) = try_process_advanced_glob eng r regexes
          in if done then (new_cache, wildcards, regexes)
             else if has_prefix domain ''*'' then (new_cache, wildcards @ [r], regexes)
             else (new_cache, wildcards, regexes))"

definition process_records :: "'x regexp \<Rightarrow> tsrecord list \<Rightarrow> 'x tables" where
  "process_records eng records = fold (process_record eng) records (Map.empty, [], [])"

text \<open>\<open>sort.SliceStable\<close> by the length of the domain, longest first.\<close>

definition sort_wildcards :: "tsrecord list \<Rightarrow> tsrecord list" where
  "sort_wildcards ws = sort_key (\<lambda>r. - int (length (rec_domain r))) ws"

section \<open>Loading\<close>

definition load_cache ::
  "'r repo_ops \<Rightarrow> 'x regexp \<Rightarrow> ('r, 'x) server \<Rightarrow> (error + unit) \<times> ('r, 'x) server" where
  "load_cache ops eng s =
     (case repo_find ops (srv_repository s) of
        Inl err \<Rightarrow>
          (Inl err, log_metric (RecordRepositoryOp ''find'' ''error'')
                      (log_metric (RecordCacheRefresh ''error'') s))
      | Inr records \<Rightarrow>
          let s = log_metric (RecordRepositoryOp ''find'' ''success'') s;
              (new_cache, wildcards, regexes) = process_records eng records;
              wildcards = sort_wildcards wildcards;
              s = s\<lparr>srv_cache := new_cache, srv_wildcard_records := wildcards,
                    srv_regex_records := regexes\<rparr>
          in (Inr (), log_metric (RecordCacheRefresh ''success'') s))"

section \<open>The tables as functions of the records\<close>

text \<open>What a record is for the lookup: an expression of its own, a simple wildcard, or neither.\<close>

definition pattern_of :: "string \<Rightarrow> string option" where
  "pattern_of domain =
     (case cut_prefix domain ''reg:'' of
        Some p \<Rightarrow> Some p
      | None \<Rightarrow> if is_advanced domain then Some (domain_to_regex domain) else None)"

definition compiled :: "'x regexp \<Rightarrow> tsrecord \<Rightarrow> (tsrecord \<times> 'x) option" where
  "compiled eng r =
     (case pattern_of (rec_domain r) of
        None \<Rightarrow> None
      | Some p \<Rightarrow> map_option (Pair r) (rx_compile eng p))"

definition simple_wildcard :: "tsrecord \<Rightarrow> bool" where
  "simple_wildcard r \<longleftrightarrow> pattern_of (rec_domain r) = None \<and> has_prefix (rec_domain r) ''*''"

lemma process_record_simp:
  "process_record eng r (c, w, x) =
     (c(rec_domain r \<mapsto> r),
      w @ (if simple_wildcard r then [r] else []),
      x @ (case compiled eng r of None \<Rightarrow> [] | Some cr \<Rightarrow> [cr]))"
proof (cases "cut_prefix (rec_domain r) ''reg:''")
  case (Some p)
  then show ?thesis
    by (cases "rx_compile eng p")
       (simp_all add: process_record_def try_process_regex_def simple_wildcard_def compiled_def pattern_of_def)
next
  case None
  then show ?thesis
    by (cases "is_advanced (rec_domain r)"; cases "rx_compile eng (domain_to_regex (rec_domain r))")
       (simp_all add: process_record_def try_process_regex_def try_process_advanced_glob_def
         simple_wildcard_def compiled_def pattern_of_def del: has_prefix_Cons)
qed

lemma fold_process:
  "fold (process_record eng) rs (c, w, x) =
     (fold (\<lambda>r c. c(rec_domain r \<mapsto> r)) rs c, w @ filter simple_wildcard rs, x @ List.map_filter (compiled eng) rs)"
  by (induction rs arbitrary: c w x)
     (simp_all add: process_record_simp List.map_filter_simps split: option.splits)

lemma process_records_eq:
  "process_records eng rs =
     (fold (\<lambda>r c. c(rec_domain r \<mapsto> r)) rs Map.empty,
      filter simple_wildcard rs, List.map_filter (compiled eng) rs)"
  by (simp add: process_records_def fold_process)

text \<open>The exact table holds the last record of each domain.\<close>

lemma fold_cache: "fold (\<lambda>r c. c(rec_domain r \<mapsto> r)) rs c d =
    (case find (\<lambda>r. rec_domain r = d) (rev rs) of None \<Rightarrow> c d | Some r \<Rightarrow> Some r)"
  by (induction rs arbitrary: c) (auto simp: find_append split: option.splits)

lemma find_distinct:
  "\<lbrakk>distinct (map rec_domain rs); r \<in> set rs\<rbrakk> \<Longrightarrow> find (\<lambda>x. rec_domain x = rec_domain r) rs = Some r"
  by (induction rs) auto

lemma cache_distinct:
  assumes "distinct (map rec_domain rs)"
  shows "fold (\<lambda>r c. c(rec_domain r \<mapsto> r)) rs Map.empty d = Some r \<longleftrightarrow> r \<in> set rs \<and> rec_domain r = d"
  using assms find_distinct [of "rev rs" r]
  by (auto simp: fold_cache rev_map [symmetric] split: option.splits dest: find_SomeD)

section \<open>Sorting\<close>

lemma set_sort_wildcards [simp]: "set (sort_wildcards ws) = set ws"
  by (simp add: sort_wildcards_def)

lemma sorted_sort_wildcards:
  "sorted_wrt (\<lambda>x y. length (rec_domain y) \<le> length (rec_domain x)) (sort_wildcards ws)"
  using sorted_sort_key [of "\<lambda>r. - int (length (rec_domain r))" ws]
  by (simp add: sort_wildcards_def sorted_map)

lemma sort_wildcards_stable:
  "filter (\<lambda>r. length (rec_domain r) = n) (sort_wildcards ws) = filter (\<lambda>r. length (rec_domain r) = n) ws"
  using sort_key_stable [of "\<lambda>r. - int (length (rec_domain r))" "- int n" ws]
  by (simp add: sort_wildcards_def)

end
