(* ===== verification/Glob.thy ===== *)
theory Glob
  imports Cache
begin

text \<open>
  The expressions \<open>domainToRegex\<close> makes of advanced globs, and what they match.
  \<open>glob_match\<close> says what a glob means, rune by rune; \<open>glob_regexp\<close> states what the
  documentation of the \<open>regexp\<close> library says of the anchored sequences of literals, \<open>.\<close>
  and \<open>.*\<close>, the only patterns a glob becomes; \<open>frag_regexp\<close> is an engine for just these
  patterns, which satisfies it.
\<close>

section \<open>The text of the expression\<close>

definition glob_token :: "char \<Rightarrow> string" where
  "glob_token c =
     (if c = CHR ''*'' then ''.*''
      else if c = CHR ''?'' then ''.''
      else if special_char c then [CHR 0x5C, c]
      else [c])"

lemma replace_all_skip:
  "\<lbrakk>q \<notin> set u; t = [] \<or> hd t \<noteq> q\<rbrakk> \<Longrightarrow>
   replace_all [CHR 0x5C, q] new (u @ t) = u @ replace_all [CHR 0x5C, q] new t"
proof (induction u)
  case (Cons a u)
  then have "u @ t = [] \<or> hd (u @ t) \<noteq> q" by (cases u) auto
  then have "\<not> has_prefix (a # u @ t) [CHR 0x5C, q]" by auto
  with Cons show ?case by (simp add: replace_all_miss del: has_prefix_Cons)
qed simp

lemma replace_all_tokens:
  assumes "\<And>c. c \<noteq> q \<Longrightarrow> f c \<noteq> [] \<and> q \<notin> set (f c)" "f q = [CHR 0x5C, q]" "q \<noteq> CHR 0x5C"
  shows "replace_all [CHR 0x5C, q] new (concat (map f s)) = concat (map (\<lambda>c. if c = q then new else f c) s)"
proof (induction s)
  case (Cons c s)
  show ?case
  proof (cases "c = q")
    case True
    then show ?thesis using Cons replace_all_hit [of "[CHR 0x5C, q]" new] assms(2) by simp
  next
    case False
    have "concat (map f s) = [] \<or> hd (concat (map f s)) \<noteq> q"
    proof (cases s)
      case (Cons a s')
      have "f a \<noteq> [] \<and> hd (f a) \<noteq> q"
      proof (cases "a = q")
        case True
        then show ?thesis using assms(2,3) by simp
      next
        case False
        then show ?thesis using assms(1) [OF False] by (cases "f a") auto
      qed
      then show ?thesis using Cons by simp
    qed simp
    then show ?thesis using False Cons assms(1) by (simp add: replace_all_skip)
  qed
qed simp

lemma quote_meta_tokens: "quote_meta s = concat (map (\<lambda>c. if special_char c then [CHR 0x5C, c] else [c]) s)"
  by (simp add: quote_meta_def)

lemma special_star_question: "special_char (CHR ''*'')" "special_char (CHR ''?'')"
  by (simp_all add: special_char_def)

text \<open>Byte by byte: \<open>*\<close> becomes \<open>.*\<close>, \<open>?\<close> becomes \<open>.\<close>, every other metacharacter is escaped.\<close>

lemma domain_to_regex_tokens: "domain_to_regex d = ''^'' @ concat (map glob_token d) @ ''$''"
proof -
  let ?q = "\<lambda>c. if special_char c then [CHR 0x5C, c] else [c]"
  let ?q1 = "\<lambda>c. if c = CHR ''*'' then ''.*'' else ?q c"
  have "replace_all [CHR 0x5C, CHR ''*''] ''.*'' (concat (map ?q d)) = concat (map ?q1 d)"
    by (rule replace_all_tokens) (auto simp: special_star_question)
  moreover have "replace_all [CHR 0x5C, CHR ''?''] ''.'' (concat (map ?q1 d)) =
      concat (map (\<lambda>c. if c = CHR ''?'' then ''.'' else ?q1 c) d)"
    by (rule replace_all_tokens) (auto simp: special_star_question)
  moreover have "(\<lambda>c. if c = CHR ''?'' then ''.'' else ?q1 c) = glob_token"
    by (auto simp: glob_token_def)
  ultimately show ?thesis by (simp add: domain_to_regex_def quote_meta_tokens)
qed

section \<open>What the library says of such expressions\<close>

text \<open>A literal is the bytes of one valid rune.\<close>

datatype rx_item = Lit string | Dot | DotStar

fun item_ok :: "rx_item \<Rightarrow> bool" where
  "item_ok (Lit w) = valid_chunk w"
| "item_ok _ = True"

fun render_item :: "rx_item \<Rightarrow> string" where
  "render_item (Lit w) = (if length w = 1 \<and> special_char (hd w) then CHR 0x5C # w else w)"
| "render_item Dot = ''.''"
| "render_item DotStar = ''.*''"

definition render :: "rx_item list \<Rightarrow> string" where
  "render items = ''^'' @ concat (map render_item items) @ ''$''"

text \<open>\<open>.\<close> matches any rune but a line feed; \<open>^\<close> and \<open>$\<close> match only at the ends of the text.\<close>

definition newline_rune :: nat where
  "newline_rune = 10"

fun items_match :: "rx_item list \<Rightarrow> nat list \<Rightarrow> bool" where
  "items_match [] s = (s = [])"
| "items_match (Lit w # p) s = (case s of [] \<Rightarrow> False | c # s' \<Rightarrow> c = rune_of w \<and> items_match p s')"
| "items_match (Dot # p) s = (case s of [] \<Rightarrow> False | c # s' \<Rightarrow> c \<noteq> newline_rune \<and> items_match p s')"
| "items_match (DotStar # p) [] = items_match p []"
| "items_match (DotStar # p) (c # s) =
     (items_match p (c # s) \<or> (c \<noteq> newline_rune \<and> items_match (DotStar # p) s))"

definition glob_regexp :: "'x regexp \<Rightarrow> bool" where
  "glob_regexp eng \<longleftrightarrow>
     (\<forall>items. list_all item_ok items \<longrightarrow>
        (\<exists>x. rx_compile eng (render items) = Some x \<and>
             (\<forall>h. rx_match eng x h \<longleftrightarrow> items_match items (runes h))))"

section \<open>What a glob means\<close>

text \<open>\<open>*\<close> is any sequence of runes other than a line feed, \<open>?\<close> any one such rune.\<close>

fun glob_match :: "nat list \<Rightarrow> nat list \<Rightarrow> bool" where
  "glob_match [] s = (s = [])"
| "glob_match (g # p) [] = (g = 0x2A \<and> glob_match p [])"
| "glob_match (g # p) (c # s) =
     (if g = 0x2A then glob_match p (c # s) \<or> (c \<noteq> newline_rune \<and> glob_match (g # p) s)
      else if g = 0x3F then c \<noteq> newline_rune \<and> glob_match p s
      else c = g \<and> glob_match p s)"

definition item_of :: "string \<Rightarrow> rx_item" where
  "item_of w = (if w = ''*'' then DotStar else if w = ''?'' then Dot else Lit w)"

lemma special_char_ascii: "special_char c \<Longrightarrow> (of_char c :: nat) < 0x80"
  by (auto simp: special_char_def)

lemma concat_map_concat: "concat (map f (concat xss)) = concat (map (\<lambda>xs. concat (map f xs)) xss)"
  by (induction xss) simp_all

lemma concat_glob_token:
  assumes "valid_chunk w"
  shows "concat (map glob_token w) = render_item (item_of w)"
proof (cases "length w = 1")
  case True
  then obtain c where "w = [c]" by (auto simp: length_Suc_conv)
  then show ?thesis by (auto simp: glob_token_def item_of_def special_star_question)
next
  case False
  have "glob_token c = [c]" if "c \<in> set w" for c
    using valid_chunk_long [OF assms False that] special_char_ascii [of c] special_star_question
    by (auto simp: glob_token_def)
  then have "concat (map glob_token w) = concat (map (\<lambda>c. [c]) w)"
    by (metis map_cong)
  with False show ?thesis by (auto simp: item_of_def)
qed

lemma domain_to_regex_render:
  assumes "utf8_valid d"
  shows "domain_to_regex d = render (map item_of (chunks d))"
proof -
  have "concat (map glob_token d) = concat (map glob_token (concat (chunks d)))" by simp
  also have "\<dots> = concat (map (\<lambda>w. concat (map glob_token w)) (chunks d))"
    by (rule concat_map_concat)
  also have "\<dots> = concat (map (\<lambda>w. render_item (item_of w)) (chunks d))"
    using assms by (intro arg_cong [where f = concat] map_cong)
      (auto simp: utf8_valid_def list_all_iff concat_glob_token)
  finally show ?thesis by (simp add: domain_to_regex_tokens render_def comp_def)
qed

lemma mod_block:
  fixes b :: nat
  assumes "k * m \<le> b" "b < k * m + m"
  shows "b mod m = b - k * m"
proof -
  have "b mod m = (b - k * m + k * m) mod m" using assms(1) by simp
  also have "\<dots> = (b - k * m) mod m" by (rule mod_mult_self1)
  also have "\<dots> = b - k * m" using assms by (intro mod_less) linarith
  finally show ?thesis .
qed

text \<open>Only the chunk of an ASCII byte has that byte's code as its rune.\<close>

lemma rune_of_ascii:
  assumes "valid_chunk w" "rune_of w < 0x80"
  shows "length w = 1"
proof -
  have mod32: "2 \<le> b mod 32" if "0xC2 \<le> b" "b \<le> 0xDF" for b :: nat using that mod_block [of 6 32 b] by simp
  have mod64: "32 \<le> b mod 64" if "0xA0 \<le> b" "b \<le> 0xBF" for b :: nat using that mod_block [of 2 64 b] by simp
  have mod16: "1 \<le> b mod 16" if "0xE1 \<le> b" "b \<le> 0xEF" for b :: nat using that mod_block [of 14 16 b] by simp
  have mod64': "16 \<le> b mod 64" if "0x90 \<le> b" "b \<le> 0xBF" for b :: nat using that mod_block [of 2 64 b] by simp
  have mod8: "1 \<le> b mod 8" if "0xF1 \<le> b" "b \<le> 0xF4" for b :: nat using that mod_block [of 30 8 b] by simp
  consider c where "w = [c]" | b0 b1 where "w = [b0, b1]" | b0 b1 b2 where "w = [b0, b1, b2]"
    | b0 b1 b2 b3 where "w = [b0, b1, b2, b3]" | "4 < length w"
    | "w = []"
    by (cases w; cases "tl w"; cases "tl (tl w)"; cases "tl (tl (tl w))"; cases "tl (tl (tl (tl w)))") auto
  then show ?thesis
  proof cases
    case 2
    then show ?thesis
      using assms mod32 [of "of_char b0"] by (auto simp: valid_chunk_def rune_of_def cont_byte_def split: if_splits)
  next
    case 3
    then show ?thesis
      using assms mod64 [of "of_char b1"] mod16 [of "of_char b0"]
      by (auto simp: valid_chunk_def rune_of_def cont_byte_def second_ok_def split: if_splits)
  next
    case 4
    then show ?thesis
      using assms mod64' [of "of_char b1"] mod8 [of "of_char b0"]
      by (auto simp: valid_chunk_def rune_of_def cont_byte_def second_ok_def split: if_splits)
  next
    case 5
    then show ?thesis
      using assms by (cases w) (auto simp: valid_chunk_def split: if_splits list.splits)
  qed (use assms in \<open>auto simp: valid_chunk_def\<close>)
qed

section \<open>The expression matches as the glob\<close>

lemma rune_item_of:
  assumes "valid_chunk w"
  shows "item_of w = (if rune_of w = 0x2A then DotStar else if rune_of w = 0x3F then Dot else Lit w)"
proof (cases "length w = 1")
  case True
  then obtain c where w: "w = [c]" by (auto simp: length_Suc_conv)
  with assms have "(of_char c :: nat) < 0x80" by (simp add: valid_chunk_def split: if_splits)
  moreover have "c = CHR ''*'' \<longleftrightarrow> (of_char c :: nat) = 0x2A" "c = CHR ''?'' \<longleftrightarrow> (of_char c :: nat) = 0x3F"
    using of_char_eq_iff [where ?'a = nat, of c "CHR ''*''"] of_char_eq_iff [where ?'a = nat, of c "CHR ''?''"]
    by simp_all
  ultimately show ?thesis using w by (auto simp: item_of_def rune_of_def)
next
  case False
  then have "\<not> rune_of w < 0x80" using rune_of_ascii [OF assms] by blast
  with False show ?thesis by (auto simp: item_of_def)
qed

lemma items_match_glob:
  "list_all valid_chunk ws \<Longrightarrow> items_match (map item_of ws) s \<longleftrightarrow> glob_match (map rune_of ws) s"
proof (induction "map rune_of ws" s arbitrary: ws rule: glob_match.induct)
  case (2 g p)
  then show ?case by (cases ws) (auto simp: rune_item_of)
next
  case (3 g p c s)
  then obtain w ws' where ws: "ws = w # ws'" "valid_chunk w" "list_all valid_chunk ws'" "g = rune_of w"
      "p = map rune_of ws'"
    by (cases ws) auto
  show ?case
  proof (cases "g = 0x2A")
    case True
    then have "item_of w = DotStar" using ws by (simp add: rune_item_of)
    moreover have "items_match (map item_of ws) s \<longleftrightarrow> glob_match (g # p) s"
      "items_match (map item_of ws') (c # s) \<longleftrightarrow> glob_match p (c # s)"
      using 3(1) [of ws'] 3(2) [of ws] True ws by simp_all
    ultimately show ?thesis using ws True by simp
  next
    case False
    with 3(3,4) ws show ?thesis by (auto simp: rune_item_of)
  qed
qed auto

lemma item_ok_item_of: "list_all valid_chunk ws \<Longrightarrow> list_all item_ok (map item_of ws)"
  by (auto simp: list_all_iff item_of_def)

lemma domain_to_regex_match:
  assumes "glob_regexp eng" "utf8_valid d"
  obtains x where "rx_compile eng (domain_to_regex d) = Some x"
    "\<And>h. rx_match eng x h \<longleftrightarrow> glob_match (runes d) (runes h)"
proof -
  have ok: "list_all valid_chunk (chunks d)" using assms(2) by (simp add: utf8_valid_def)
  then obtain x where "rx_compile eng (render (map item_of (chunks d))) = Some x"
      "\<And>h. rx_match eng x h \<longleftrightarrow> items_match (map item_of (chunks d)) (runes h)"
    using assms(1) item_ok_item_of unfolding glob_regexp_def by blast
  then show thesis
    using that by (simp add: domain_to_regex_render [OF assms(2)] items_match_glob [OF ok] runes_def)
qed

text \<open>A glob with one star: a prefix and a suffix around any text without a line feed.\<close>

lemma glob_match_literal:
  "list_all (\<lambda>g. g \<noteq> 0x2A \<and> g \<noteq> 0x3F) p \<Longrightarrow> glob_match p s \<longleftrightarrow> s = p"
  by (induction p s rule: glob_match.induct) auto

lemma glob_match_literal_append:
  "list_all (\<lambda>g. g \<noteq> 0x2A \<and> g \<noteq> 0x3F) p \<Longrightarrow> glob_match (p @ q) s \<longleftrightarrow> (\<exists>t. s = p @ t \<and> glob_match q t)"
proof (induction p arbitrary: s)
  case (Cons g p)
  then show ?case by (cases s) auto
qed simp

lemma glob_match_star:
  "glob_match (0x2A # q) s \<longleftrightarrow> (\<exists>m t. s = m @ t \<and> newline_rune \<notin> set m \<and> glob_match q t)"
proof (induction s)
  case (Cons c s)
  show ?case
  proof
    assume "glob_match (0x2A # q) (c # s)"
    then consider "glob_match q (c # s)" | "c \<noteq> newline_rune" "glob_match (0x2A # q) s" by auto
    then show "\<exists>m t. c # s = m @ t \<and> newline_rune \<notin> set m \<and> glob_match q t"
    proof cases
      case 2
      with Cons obtain m t where "s = m @ t" "newline_rune \<notin> set m" "glob_match q t" by blast
      with 2 have "c # s = (c # m) @ t \<and> newline_rune \<notin> set (c # m) \<and> glob_match q t" by auto
      then show ?thesis by blast
    qed (metis append_Nil empty_iff empty_set)
  next
    assume "\<exists>m t. c # s = m @ t \<and> newline_rune \<notin> set m \<and> glob_match q t"
    then obtain m t where mt: "c # s = m @ t" "newline_rune \<notin> set m" "glob_match q t" by blast
    then show "glob_match (0x2A # q) (c # s)"
      using Cons by (cases m) auto
  qed
qed auto

section \<open>An engine for these expressions\<close>

text \<open>The parser of the text after the leading \<open>^\<close>; a pattern outside the fragment does not compile.\<close>

function frag_items :: "string \<Rightarrow> rx_item list option" where
  "frag_items s =
     (if s = [] then None
      else if hd s = CHR ''$'' then (if tl s = [] then Some [] else None)
      else if hd s = CHR 0x5C then
        (case tl s of
           [] \<Rightarrow> None
         | c # t \<Rightarrow> if special_char c then map_option ((#) (Lit [c])) (frag_items t) else None)
      else if hd s = CHR ''.'' then
        (case tl s of
           [] \<Rightarrow> None
         | c # t \<Rightarrow> if c = CHR ''*'' then map_option ((#) DotStar) (frag_items t)
                    else map_option ((#) Dot) (frag_items (c # t)))
      else if special_char (hd s) then None
      else if valid_chunk (take (rune_width s) s)
        then map_option ((#) (Lit (take (rune_width s) s))) (frag_items (drop (rune_width s) s))
      else None)"
  by pat_completeness auto
termination
proof (relation "measure length")
  fix s c and t :: string
  show "s \<noteq> [] \<Longrightarrow> (drop (rune_width s) s, s) \<in> measure length"
    by (cases s) (auto simp: rune_width_def)
qed (simp, auto simp: neq_Nil_conv)

declare frag_items.simps [simp del]

definition frag_regexp :: "rx_item list regexp" where
  "frag_regexp =
     \<lparr>rx_compile = (\<lambda>p. case p of [] \<Rightarrow> None | c # s \<Rightarrow> if c = CHR ''^'' then frag_items s else None),
      rx_match = (\<lambda>items h. items_match items (runes h))\<rparr>"

lemma frag_items_render:
  "list_all item_ok items \<Longrightarrow> frag_items (concat (map render_item items) @ ''$'') = Some items"
proof (induction items)
  case (Cons i items)
  let ?rest = "concat (map render_item items) @ ''$''"
  have star: "hd ?rest \<noteq> CHR ''*''"
  proof (cases items)
    case (Cons j js)
    have "render_item j \<noteq> [] \<and> hd (render_item j) \<noteq> CHR ''*''" if "item_ok j" for j
    proof (cases j)
      case (Lit w)
      then have w: "valid_chunk w" "w \<noteq> []" using that by (auto simp: valid_chunk_def)
      have "hd w \<noteq> CHR ''*'' \<or> length w = 1"
        using valid_chunk_long [OF w(1) _ hd_in_set [OF w(2)]] by (cases "length w = 1") auto
      then show ?thesis using Lit w special_star_question by auto
    qed simp_all
    then show ?thesis using Cons \<open>list_all item_ok (i # items)\<close> by simp
  qed simp
  show ?case
  proof (cases i)
    case (Lit w)
    then have w: "valid_chunk w" "w \<noteq> []" using Cons.prems by (auto simp: valid_chunk_def)
    show ?thesis
    proof (cases "length w = 1 \<and> special_char (hd w)")
      case True
      then obtain c where "w = [c]" by (auto simp: length_Suc_conv)
      with True Cons Lit show ?thesis by (subst frag_items.simps) simp
    next
      case False
      have "\<not> special_char (hd w)"
        using False valid_chunk_long [OF w(1) _ hd_in_set [OF w(2)]] special_char_ascii [of "hd w"] by auto
      moreover have "special_char (CHR ''$'')" "special_char (CHR 0x5C)" "special_char (CHR ''.'')"
        by (simp_all add: special_char_def)
      ultimately show ?thesis
        using False Cons Lit w rune_width_append [OF w(1), of ?rest]
        by (subst frag_items.simps) auto
    qed
  next
    case Dot
    with star Cons show ?thesis
      by (subst frag_items.simps) (auto split: list.splits)
  next
    case DotStar
    with Cons show ?thesis by (subst frag_items.simps) simp
  qed
qed (simp add: frag_items.simps)

lemma glob_regexp_frag: "glob_regexp frag_regexp"
  by (simp add: glob_regexp_def frag_regexp_def render_def frag_items_render)

end
