(* ===== verification/Handler.thy ===== *)
theory Handler
  imports Glob
begin

text \<open>
  \<open>core/handler.go\<close>: one TSDNS query, from the bytes read to the bytes written. The
  query is parsed into a host and a port, the host is looked up in the three tables in
  the order exact, expression, wildcard, and the targets of the record found are printed.
  A connection carries what its one \<open>Read\<close> returns and whether its \<open>Write\<close> fails.
\<close>

section \<open>Parsing the query\<close>

definition parse_bracketed :: "string \<Rightarrow> (string \<times> int32) option" where
  "parse_bracketed raw =
     (if has_prefix raw ''['' then
        (case index_byte (CHR '']'') raw of
           None \<Rightarrow> None
         | Some e \<Rightarrow>
             if 1 < e \<and> e + 1 < length raw \<and> raw ! (e + 1) = CHR '':'' then
               (case parse_uint16 (drop (e + 2) raw) of
                  Some pn \<Rightarrow> Some (drop 1 (take e raw), ucast pn)
                | None \<Rightarrow> None)
             else None)
      else None)"

definition parse_host_port :: "string \<Rightarrow> (string \<times> int32) option" where
  "parse_host_port raw =
     (case last_index_byte (CHR '':'') raw of
        None \<Rightarrow> None
      | Some idx \<Rightarrow>
          if 0 < idx \<and> idx + 1 < length raw then
            (case parse_uint16 (drop (idx + 1) raw) of
               Some pn \<Rightarrow> Some (take idx raw, ucast pn)
             | None \<Rightarrow> None)
          else None)"

definition parse_query :: "string \<Rightarrow> string \<times> int32" where
  "parse_query raw0 =
     (let raw = trim_space raw0
      in if raw = [] then ([], 0)
         else case parse_bracketed raw of
           Some hp \<Rightarrow> hp
         | None \<Rightarrow> (case parse_host_port raw of Some hp \<Rightarrow> hp | None \<Rightarrow> (raw, 0)))"

section \<open>The lookup\<close>

text \<open>The body of the loop over the wildcards.\<close>

definition wildcard_hit :: "string \<Rightarrow> tsrecord \<Rightarrow> bool" where
  "wildcard_hit host r =
     (let pat = rec_domain r
      in if \<not> has_prefix pat ''*'' then False
         else let suffix = trim_prefix pat ''*'' in suffix = [] \<or> has_suffix host suffix)"

definition lookup_record :: "'x regexp \<Rightarrow> ('r, 'x) server \<Rightarrow> string \<Rightarrow> tsrecord option" where
  "lookup_record eng s host =
     (case srv_cache s host of
        Some r \<Rightarrow> Some r
      | None \<Rightarrow>
          (case find (\<lambda>(r, re). rx_match eng re host) (srv_regex_records s) of
             Some (r, re) \<Rightarrow> Some r
           | None \<Rightarrow> find (wildcard_hit host) (srv_wildcard_records s)))"

section \<open>The response\<close>

text \<open>One target; the second component of the pair is the code's \<open>usePort\<close>.\<close>

definition effective_port :: "uint16 \<Rightarrow> int32 \<Rightarrow> int32 \<times> bool" where
  "effective_port p query_port =
     (let port = ucast p :: int32
      in if port = 0 then (if 0 < sint query_port then (query_port, True) else (port, False))
         else (port, True))"

definition target_text :: "int32 \<Rightarrow> addr_port \<Rightarrow> string" where
  "target_text query_port tp =
     (let (port, use_port) = effective_port (snd tp) query_port
      in (if is6 (fst tp) then ''['' @ addr_string (fst tp) @ '']'' else addr_string (fst tp))
         @ (if use_port then '':'' @ itoa (sint port) else []))"

fun write_targets :: "nat \<Rightarrow> int32 \<Rightarrow> addr_port list \<Rightarrow> string" where
  "write_targets i query_port [] = []"
| "write_targets i query_port (tp # tps) =
     (if 0 < i then '' '' else []) @ target_text query_port tp @ write_targets (Suc i) query_port tps"

definition build_response :: "tsrecord \<Rightarrow> int32 \<Rightarrow> string" where
  "build_response r query_port =
     (if rec_targets r = [] then [] else write_targets 0 query_port (rec_targets r))"

section \<open>The connection\<close>

record conn =
  conn_read :: "error + string"
  conn_write_fails :: bool
  conn_written :: string
  conn_closed :: bool

definition conn_write :: "string \<Rightarrow> conn \<Rightarrow> bool \<times> conn" where
  "conn_write bytes c =
     (if conn_write_fails c then (False, c) else (True, c\<lparr>conn_written := conn_written c @ bytes\<rparr>))"

definition handle_not_found :: "('r, 'x) server \<Rightarrow> conn \<Rightarrow> ('r, 'x) server \<times> conn" where
  "handle_not_found s c =
     (let (ok, c) = conn_write (''404'' @ [CHR 0x0A]) c
      in (log_metric (RecordQuery ''miss'') s, c))"

definition handle_hit ::
  "('r, 'x) server \<Rightarrow> conn \<Rightarrow> int32 \<Rightarrow> tsrecord \<Rightarrow> ('r, 'x) server \<times> conn" where
  "handle_hit s c port r =
     (if rec_targets r = [] then (log_metric (RecordQuery ''hit'') s, c)
      else let response = build_response r port
        in if response = [] then (log_metric (RecordQuery ''error'') s, c)
           else let (ok, c) = conn_write response c
             in if \<not> ok then (log_metric (RecordQuery ''error'') s, c)
                else (log_metric (RecordQuery ''hit'') s, c))"

definition max_query_size :: nat where
  "max_query_size = 512"

definition handle_query :: "'x regexp \<Rightarrow> ('r, 'x) server \<Rightarrow> conn \<Rightarrow> ('r, 'x) server \<times> conn" where
  "handle_query eng s c =
     (let (s, c) =
        (case conn_read c of
           Inl err \<Rightarrow> (s, c)
         | Inr bytes \<Rightarrow>
             let raw = trim_space (take max_query_size bytes)
             in if raw = [] then (s, c)
                else let (host, port) = parse_query raw
                  in case lookup_record eng s host of
                       None \<Rightarrow> handle_not_found s c
                     | Some r \<Rightarrow> handle_hit s c port r)
      in (s, c\<lparr>conn_closed := True\<rparr>))"

section \<open>Lemmas: queries\<close>

lemma parse_query_no_colon:
  assumes "trim_space raw \<noteq> []" "CHR '':'' \<notin> set (trim_space raw)"
  shows "parse_query raw = (trim_space raw, 0)"
proof -
  let ?r = "trim_space raw"
  have "parse_bracketed ?r = None"
  proof (cases "index_byte (CHR '']'') ?r")
    case (Some e)
    have "e + 1 < length ?r \<Longrightarrow> ?r ! (e + 1) \<noteq> CHR '':''" using assms(2) nth_mem by metis
    with Some show ?thesis by (auto simp: parse_bracketed_def)
  qed (simp add: parse_bracketed_def del: index_byte_None)
  moreover have "parse_host_port ?r = None"
    using assms(2) by (simp add: parse_host_port_def del: last_index_byte_None)
      (simp add: last_index_byte_None [THEN iffD2])
  ultimately show ?thesis using assms(1) by (simp add: parse_query_def Let_def)
qed

lemma trim_space_port:
  "\<lbrakk>h \<noteq> []; graph_char (hd h)\<rbrakk> \<Longrightarrow> trim_space (h @ '':'' @ dec n) = h @ '':'' @ dec n"
  using dec_set [OF last_in_set [OF dec_nonempty], of n]
  by (intro trim_space_graph_ends) (auto simp: is_digit_graph)

lemma parse_query_host_port:
  fixes p :: uint16
  assumes "h \<noteq> []" "graph_char (hd h)" "hd h \<noteq> CHR ''[''"
  shows "parse_query (h @ '':'' @ dec (unat p)) = (h, ucast p)"
proof -
  have "last_index_byte (CHR '':'') (h @ CHR '':'' # dec (unat p)) = Some (length h)"
    by (simp add: gostr)
  then have "parse_host_port (h @ '':'' @ dec (unat p)) = Some (h, ucast p)"
    using assms by (simp add: parse_host_port_def roundtrip)
  moreover have "parse_bracketed (h @ '':'' @ dec (unat p)) = None"
    using assms by (simp add: parse_bracketed_def)
  ultimately show ?thesis
    using trim_space_port [OF assms(1,2), of "unat p"] assms(1) by (simp add: parse_query_def Let_def)
qed

lemma parse_query_bracketed:
  fixes p :: uint16
  assumes "h \<noteq> []" "CHR '']'' \<notin> set h"
  shows "parse_query (''['' @ h @ '']:'' @ dec (unat p)) = (h, ucast p)"
proof -
  let ?raw = "''['' @ h @ '']:'' @ dec (unat p)"
  have "index_byte (CHR '']'') ((CHR ''['' # h) @ CHR '']'' # '':'' @ dec (unat p)) = Some (length (CHR ''['' # h))"
    by (rule index_byte_append) (use assms in simp)
  then have "index_byte (CHR '']'') ?raw = Some (Suc (length h))" by simp
  then have "parse_bracketed ?raw = Some (h, ucast p)"
    using assms by (simp add: parse_bracketed_def nth_append roundtrip)
  moreover have "trim_space ?raw = ?raw"
    using trim_space_port [of "''['' @ h @ '']''" "unat p"] by (simp add: graph_char_def)
  ultimately show ?thesis by (simp add: parse_query_def Let_def)
qed

lemma uint_uint16: "uint (p :: uint16) < 65536"
  using uint_lt2p [of p] by simp

lemma sint_ucast_port: "sint (ucast (p :: uint16) :: int32) = int (unat p)"
proof -
  have "sint (ucast p :: int32) = signed_take_bit 31 (uint p)"
    by (simp add: signed_ucast_eq)
  also have "\<dots> = uint p"
    using uint_uint16 [of p] order_trans [OF _ uint_ge_0 [of p], of "- 2147483648"]
    by (intro signed_take_bit_int_eq_self) simp_all
  finally show ?thesis by simp
qed

definition port_range :: "int32 \<Rightarrow> bool" where
  "port_range q \<longleftrightarrow> 0 \<le> sint q \<and> sint q \<le> 65535"

lemma port_range_ucast [simp]: "port_range (ucast (p :: uint16))"
proof -
  have "int (unat p) \<le> 65535" by (metis of_nat_le_iff of_nat_numeral unat_uint16_le)
  then show ?thesis by (simp add: port_range_def sint_ucast_port del: uint_nat unat_eq_nat_uint)
qed

lemma port_range_0 [simp]: "port_range 0"
  by (simp add: port_range_def)

lemma parse_bracketed_SomeD:
  assumes "parse_bracketed raw = Some (h, q)"
  shows "h \<noteq> [] \<and> port_range q"
proof -
  obtain e p where "index_byte (CHR '']'') raw = Some e" "1 < e" "e + 1 < length raw"
      "parse_uint16 (drop (e + 2) raw) = Some p" "h = drop 1 (take e raw)" "q = ucast p"
    using assms by (auto simp: parse_bracketed_def simp del: has_prefix_Cons split: option.splits if_splits)
  then show ?thesis by simp
qed

lemma parse_host_port_SomeD:
  assumes "parse_host_port raw = Some (h, q)"
  shows "h \<noteq> [] \<and> port_range q"
proof -
  obtain i p where "last_index_byte (CHR '':'') raw = Some i" "0 < i" "i + 1 < length raw"
      "parse_uint16 (drop (i + 1) raw) = Some p" "h = take i raw" "q = ucast p"
    using assms by (auto simp: parse_host_port_def split: option.splits if_splits)
  then show ?thesis by auto
qed

lemma parse_query_cases:
  assumes "trim_space raw \<noteq> []"
  obtains "parse_bracketed (trim_space raw) = Some (parse_query raw)"
    | "parse_host_port (trim_space raw) = Some (parse_query raw)"
    | "parse_query raw = (trim_space raw, 0)"
  using assms that
  by (cases "parse_bracketed (trim_space raw)"; cases "parse_host_port (trim_space raw)")
     (simp_all add: parse_query_def Let_def)

lemma parse_query_ok:
  assumes "trim_space raw \<noteq> []"
  shows "fst (parse_query raw) \<noteq> [] \<and> port_range (snd (parse_query raw))"
  using assms
proof (rule parse_query_cases)
  assume "parse_bracketed (trim_space raw) = Some (parse_query raw)"
  then show ?thesis by (metis parse_bracketed_SomeD prod.collapse)
next
  assume "parse_host_port (trim_space raw) = Some (parse_query raw)"
  then show ?thesis by (metis parse_host_port_SomeD prod.collapse)
qed (simp add: assms)

section \<open>Lemmas: the response\<close>

lemma write_targets_join:
  "write_targets i q tps = (if 0 < i \<and> tps \<noteq> [] then '' '' else []) @ join '' '' (map (target_text q) tps)"
proof (induction i q tps rule: write_targets.induct)
  case (2 i q tp tps)
  then show ?case by (cases tps) simp_all
qed simp

lemma build_response_join: "build_response r q = join '' '' (map (target_text q) (rec_targets r))"
  by (simp add: build_response_def write_targets_join)

text \<open>The port a target is answered with: its own, or the query's when its own is 0.\<close>

definition answer_port :: "uint16 \<Rightarrow> int32 \<Rightarrow> uint16" where
  "answer_port p q = (if p = 0 then ucast q else p)"

lemma ucast_port_cancel: "ucast (ucast (p :: uint16) :: int32) = p"
  by (rule ucast_up_ucast_id) (simp add: is_up.rep_eq)

lemma ucast_port_0 [simp]: "(ucast (p :: uint16) :: int32) = 0 \<longleftrightarrow> p = 0"
  by (metis ucast_0 ucast_port_cancel)

lemma port_range_ucast_E:
  assumes "port_range q"
  obtains p where "q = ucast (p :: uint16)"
proof -
  obtain n where n: "sint q = int n" "n \<le> 65535"
    using assms by (auto simp: port_range_def dest: nonneg_int_cases)
  have "unat (word_of_nat n :: uint16) = n" using n(2) by (simp add: unat_of_nat)
  then have "sint (ucast (word_of_nat n :: uint16) :: int32) = sint q"
    using n(1) by (simp only: sint_ucast_port)
  then have "q = ucast (word_of_nat n :: uint16)" by (metis signed_word_eqI)
  then show thesis by (rule that)
qed

lemma target_text_port:
  assumes "is_valid (fst tp)" "port_range q" "snd tp \<noteq> 0 \<or> q \<noteq> 0"
  shows "target_text q tp = addr_port_string (fst tp, answer_port (snd tp) q)"
proof -
  obtain p where q: "q = ucast (p :: uint16)" using assms(2) by (rule port_range_ucast_E)
  have "0 < sint q \<longleftrightarrow> p \<noteq> 0" by (simp only: q sint_ucast_port of_nat_0_less_iff unat_gt_0)
  then show ?thesis
    using assms q
    by (cases "fst tp")
       (auto simp: target_text_def effective_port_def answer_port_def sint_ucast_port ucast_port_cancel
         itoa_def is_valid_def simp del: unat_eq_nat_uint uint_nat)
qed

lemma target_text_bare:
  "target_text 0 (a, 0) = (if is6 a then ''['' @ addr_string a @ '']'' else addr_string a)"
  by (simp add: target_text_def effective_port_def)

lemma target_text_nonempty [simp]: "target_text q tp \<noteq> []"
  by (simp add: target_text_def split: prod.splits)

lemma build_response_eq_Nil [simp]: "build_response r q = [] \<longleftrightarrow> rec_targets r = []"
  unfolding build_response_join by (subst join_eq_Nil) auto

text \<open>A client that splits the response at blanks reads the targets back.\<close>

lemma response_targets:
  assumes "\<And>a p. (a, p) \<in> set (rec_targets r) \<Longrightarrow> is_valid a \<and> zoneless a"
    and "port_range q" "q = 0 \<Longrightarrow> \<forall>(a, p) \<in> set (rec_targets r). p \<noteq> 0"
  shows "map parse_addr_port (str_fields (build_response r q)) =
         map (\<lambda>(a, p). Some (a, answer_port p q)) (rec_targets r)"
proof -
  have port: "target_text q (a, p) = addr_port_string (a, answer_port p q)"
    if "(a, p) \<in> set (rec_targets r)" for a p
    using assms(1) [OF that] assms(2,3) that target_text_port [of "(a, p)" q] by auto
  then have "graphic (target_text q (a, p))" if "(a, p) \<in> set (rec_targets r)" for a p
    using assms(1) [OF that] that by (simp add: addr_texts_graphic)
  then have "str_fields (build_response r q) = map (target_text q) (rec_targets r)"
    unfolding build_response_join by (intro fields_join_blank) auto
  then show ?thesis using port assms(1) by (auto simp: roundtrip)
qed

section \<open>Lemmas: the lookup\<close>

text \<open>The tables of a server that has loaded the list \<open>rs\<close>.\<close>

definition snapshot :: "'x regexp \<Rightarrow> tsrecord list \<Rightarrow> ('r, 'x) server \<Rightarrow> bool" where
  "snapshot eng rs s \<longleftrightarrow>
     srv_cache s = fst (process_records eng rs) \<and>
     srv_wildcard_records s = sort_wildcards (fst (snd (process_records eng rs))) \<and>
     srv_regex_records s = snd (snd (process_records eng rs))"

lemma load_cache_Inl:
  "repo_find ops (srv_repository s) = Inl e \<Longrightarrow>
   load_cache ops eng s =
     (Inl e, log_metric (RecordRepositoryOp ''find'' ''error'') (log_metric (RecordCacheRefresh ''error'') s))"
  by (simp add: load_cache_def)

lemma load_cache_Inr:
  assumes "repo_find ops (srv_repository s) = Inr rs"
  shows "fst (load_cache ops eng s) = Inr ()"
    and "snapshot eng rs (snd (load_cache ops eng s))"
  using assms by (simp_all add: load_cache_def snapshot_def Let_def split: prod.splits)

lemma load_cache_repository [simp]: "srv_repository (snd (load_cache ops eng s)) = srv_repository s"
  by (auto simp: load_cache_def Let_def split: sum.splits prod.splits)

text \<open>What it means for a stored record to match a host, in each of the three ways.\<close>

definition expression_match :: "'x regexp \<Rightarrow> string \<Rightarrow> tsrecord \<Rightarrow> bool" where
  "expression_match eng host r \<longleftrightarrow>
     (case pattern_of (rec_domain r) of
        None \<Rightarrow> False
      | Some p \<Rightarrow> (case rx_compile eng p of None \<Rightarrow> False | Some x \<Rightarrow> rx_match eng x host))"

definition wildcard_match :: "string \<Rightarrow> tsrecord \<Rightarrow> bool" where
  "wildcard_match host r \<longleftrightarrow> simple_wildcard r \<and> has_suffix host (drop 1 (rec_domain r))"

text \<open>Of the wildcards that match, the first of the longest.\<close>

fun best_wildcard :: "string \<Rightarrow> tsrecord list \<Rightarrow> tsrecord option" where
  "best_wildcard host [] = None"
| "best_wildcard host (r # rs) =
     (case best_wildcard host rs of
        None \<Rightarrow> if wildcard_match host r then Some r else None
      | Some b \<Rightarrow>
          if wildcard_match host r \<and> length (rec_domain b) \<le> length (rec_domain r) then Some r else Some b)"

definition lookup_spec :: "'x regexp \<Rightarrow> tsrecord list \<Rightarrow> string \<Rightarrow> tsrecord option" where
  "lookup_spec eng rs host =
     (case find (\<lambda>r. rec_domain r = host) (rev rs) of
        Some r \<Rightarrow> Some r
      | None \<Rightarrow>
          (case find (expression_match eng host) rs of
             Some r \<Rightarrow> Some r
           | None \<Rightarrow> best_wildcard host rs))"

lemma find_insort:
  "sorted (map f xs) \<Longrightarrow>
   find P (insort_key f x xs) =
     (if P x then (case find P xs of
                     None \<Rightarrow> Some x
                   | Some y \<Rightarrow> if f x \<le> f y then Some x else Some y)
      else find P xs)"
  by (induction xs) (auto split: option.splits dest!: find_SomeD)

lemma wildcard_hit_match: "simple_wildcard r \<Longrightarrow> wildcard_hit host r \<longleftrightarrow> wildcard_match host r"
  by (auto simp: wildcard_hit_def wildcard_match_def simple_wildcard_def trim_prefix_def Let_def drop_Suc
      simp del: has_prefix_Cons)

lemma find_sort_wildcards:
  "find (wildcard_hit host) (sort_wildcards (filter simple_wildcard rs)) = best_wildcard host rs"
proof (induction rs)
  case (Cons r rs)
  show ?case
  proof (cases "simple_wildcard r")
    case True
    then show ?thesis
      using Cons find_insort [OF sorted_sort_key, of "wildcard_hit host" "\<lambda>r. - int (length (rec_domain r))" r]
      by (simp add: sort_wildcards_def sort_key_def wildcard_hit_match split: option.splits)
  next
    case False
    with Cons show ?thesis by (simp add: wildcard_match_def split: option.splits)
  qed
qed (simp add: sort_wildcards_def)

lemma find_compiled:
  "find (\<lambda>(r, x). rx_match eng x host) (List.map_filter (compiled eng) rs) =
     (case find (expression_match eng host) rs of
        None \<Rightarrow> None
      | Some r \<Rightarrow> compiled eng r)"
proof (induction rs)
  case (Cons r rs)
  then show ?case
    by (cases "pattern_of (rec_domain r)"; cases "rx_compile eng (the (pattern_of (rec_domain r)))")
       (simp_all add: List.map_filter_simps compiled_def expression_match_def)
qed (simp add: List.map_filter_simps)

lemma expression_match_compiled: "expression_match eng host r \<Longrightarrow> \<exists>x. compiled eng r = Some (r, x)"
  by (auto simp: expression_match_def compiled_def split: option.splits)

lemma lookup_snapshot:
  assumes "snapshot eng rs s"
  shows "lookup_record eng s host = lookup_spec eng rs host"
proof -
  have cache: "srv_cache s host = find (\<lambda>r. rec_domain r = host) (rev rs)"
    using assms by (simp add: snapshot_def process_records_eq fold_cache split: option.splits)
  have wild: "find (wildcard_hit host) (srv_wildcard_records s) = best_wildcard host rs"
    using assms by (simp add: snapshot_def process_records_eq find_sort_wildcards)
  have expr: "find (\<lambda>(r, x). rx_match eng x host) (srv_regex_records s) =
      (case find (expression_match eng host) rs of None \<Rightarrow> None | Some r \<Rightarrow> compiled eng r)"
    using assms by (simp add: snapshot_def process_records_eq find_compiled)
  show ?thesis
  proof (cases "find (expression_match eng host) rs")
    case None
    with expr cache wild show ?thesis
      by (cases "find (\<lambda>r. rec_domain r = host) (rev rs)") (simp_all add: lookup_record_def lookup_spec_def)
  next
    case (Some r)
    then obtain x where "compiled eng r = Some (r, x)"
      using expression_match_compiled by (metis find_SomeD)
    with Some expr cache show ?thesis
      by (cases "find (\<lambda>r. rec_domain r = host) (rev rs)") (simp_all add: lookup_record_def lookup_spec_def)
  qed
qed

definition record_match :: "'x regexp \<Rightarrow> string \<Rightarrow> tsrecord \<Rightarrow> bool" where
  "record_match eng host r \<longleftrightarrow> rec_domain r = host \<or> expression_match eng host r \<or> wildcard_match host r"

lemma best_wildcard_None: "best_wildcard host rs = None \<longleftrightarrow> (\<forall>r \<in> set rs. \<not> wildcard_match host r)"
  by (induction rs) (auto split: option.splits)

lemma best_wildcard_Some:
  "best_wildcard host rs = Some b \<Longrightarrow>
   b \<in> set rs \<and> wildcard_match host b \<and>
   (\<forall>r \<in> set rs. wildcard_match host r \<longrightarrow> length (rec_domain r) \<le> length (rec_domain b))"
  by (induction rs arbitrary: b) (auto simp: best_wildcard_None split: option.splits if_splits)

lemma lookup_spec_None: "lookup_spec eng rs host = None \<longleftrightarrow> (\<forall>r \<in> set rs. \<not> record_match eng host r)"
  by (auto simp: lookup_spec_def record_match_def find_None_iff best_wildcard_None
      dest!: find_SomeD split: option.splits)

lemma lookup_spec_Some:
  assumes "lookup_spec eng rs host = Some r"
  shows "r \<in> set rs \<and> record_match eng host r"
proof -
  consider "find (\<lambda>r. rec_domain r = host) (rev rs) = Some r"
    | "find (expression_match eng host) rs = Some r" | "best_wildcard host rs = Some r"
    using assms by (auto simp: lookup_spec_def split: option.splits)
  then show ?thesis
    by cases (auto simp: record_match_def dest!: find_SomeD best_wildcard_Some)
qed

lemma lookup_spec_exact:
  assumes "distinct (map rec_domain rs)" "r \<in> set rs" "rec_domain r = host"
  shows "lookup_spec eng rs host = Some r"
  using assms find_distinct [of "rev rs" r] by (simp add: lookup_spec_def rev_map [symmetric])

text \<open>Below the exact records the expressions come before the wildcards, whatever their lengths.\<close>

lemma lookup_spec_priority:
  assumes "lookup_spec eng rs host = Some r"
  shows "(rec_domain r = host) \<or>
     (\<forall>x \<in> set rs. rec_domain x \<noteq> host) \<and>
     (expression_match eng host r \<or>
      (\<forall>x \<in> set rs. \<not> expression_match eng host x) \<and>
      (\<forall>x \<in> set rs. wildcard_match host x \<longrightarrow> length (rec_domain x) \<le> length (rec_domain r)))"
proof (cases "find (\<lambda>r. rec_domain r = host) (rev rs)")
  case None
  then have *: "\<forall>x \<in> set rs. rec_domain x \<noteq> host" by (auto simp: find_None_iff)
  show ?thesis
  proof (cases "find (expression_match eng host) rs")
    case None
    then have "best_wildcard host rs = Some r"
      using assms \<open>find (\<lambda>r. rec_domain r = host) (rev rs) = None\<close> by (simp add: lookup_spec_def)
    with * None show ?thesis by (auto simp: find_None_iff dest: best_wildcard_Some)
  next
    case (Some x)
    with assms None have "x = r" by (simp add: lookup_spec_def)
    with Some * show ?thesis by (auto dest: find_SomeD)
  qed
next
  case (Some x)
  with assms have "x = r" by (simp add: lookup_spec_def)
  with Some show ?thesis by (auto dest: find_SomeD)
qed

section \<open>Lemmas: the handler\<close>

text \<open>What one query writes and which counters it moves.\<close>

definition query_outcome :: "'x regexp \<Rightarrow> ('r, 'x) server \<Rightarrow> conn \<Rightarrow> string \<times> metric list" where
  "query_outcome eng s c =
     (case conn_read c of
        Inl err \<Rightarrow> ([], [])
      | Inr bytes \<Rightarrow>
          let raw = trim_space (take max_query_size bytes); fails = conn_write_fails c
          in if raw = [] then ([], [])
             else case lookup_record eng s (fst (parse_query raw)) of
               None \<Rightarrow> (if fails then [] else ''404'' @ [CHR 0x0A], [RecordQuery ''miss''])
             | Some r \<Rightarrow>
                 if rec_targets r = [] then ([], [RecordQuery ''hit''])
                 else if fails then ([], [RecordQuery ''error''])
                 else (join '' '' (map (target_text (snd (parse_query raw))) (rec_targets r)),
                       [RecordQuery ''hit'']))"

lemma handle_query_outcome:
  "handle_query eng s c =
     (let (written, metrics) = query_outcome eng s c
      in (s\<lparr>srv_metrics := srv_metrics s @ metrics\<rparr>,
          c\<lparr>conn_written := conn_written c @ written, conn_closed := True\<rparr>))"
proof (cases "conn_read c")
  case (Inr bytes)
  let ?raw = "trim_space (take max_query_size bytes)"
  have dead: "build_response r q = [] \<longleftrightarrow> rec_targets r = []" for r q by simp
  show ?thesis
  proof (cases "?raw = []")
    case False
    then show ?thesis
      using Inr
      by (cases "lookup_record eng s (fst (parse_query ?raw))"; cases "conn_write_fails c")
         (simp_all add: handle_query_def query_outcome_def handle_not_found_def handle_hit_def conn_write_def
           log_metric_def dead build_response_join [symmetric] case_prod_unfold Let_def)
  qed (simp add: Inr handle_query_def query_outcome_def)
qed (simp add: handle_query_def query_outcome_def)

lemma handle_query_snapshot:
  "snapshot eng rs s \<Longrightarrow> snapshot eng rs (fst (handle_query eng s c))"
  by (simp add: handle_query_outcome snapshot_def case_prod_unfold Let_def)

end
