(* ===== verification/Server.thy ===== *)
theory Server
  imports Handler
begin

text \<open>
  \<open>core/record.go\<close> and \<open>core/server.go\<close>: the builder, the life cycle of a server and the
  record operations, each a call of the repository followed by a reload of the tables.
  The lemmas that hold for every repository keeping the contract are proved in the
  context of the locale \<open>record_repository\<close>.
\<close>

section \<open>The builder\<close>

text \<open>\<open>net.ParseIP\<close> accepts what \<open>netip.ParseAddr\<close> does, zones excepted.\<close>

definition parse_ip_ok :: "string \<Rightarrow> bool" where
  "parse_ip_ok ip = (case parse_addr ip of None \<Rightarrow> False | Some a \<Rightarrow> zoneless a)"

definition join_host_port :: "string \<Rightarrow> string \<Rightarrow> string" where
  "join_host_port host port =
     (if CHR '':'' \<in> set host then ''['' @ host @ '']:'' @ port else host @ '':'' @ port)"

text \<open>The server under construction has a nil repository until one is set.\<close>

record ('r, 'x) builder =
  bld_server :: "('r option, 'x) server option"
  bld_err :: "error option"

definition new_server_value :: "string \<Rightarrow> ('r option, 'x) server" where
  "new_server_value listen_addr =
     \<lparr>srv_repository = None, srv_metrics = [], srv_listening = False, srv_cancelled = False,
      srv_addr = listen_addr, srv_cache = Map.empty, srv_wildcard_records = [],
      srv_regex_records = [], srv_cache_refresh_interval = 30 * 10 ^ 9,
      srv_logger = new_default_logger\<rparr>"

text \<open>\<open>resolve\<close> is \<open>net.ResolveTCPAddr\<close>, which may ask a name server.\<close>

definition new_server_addr :: "(string \<Rightarrow> error + 'a) \<Rightarrow> string \<Rightarrow> ('r, 'x) builder" where
  "new_server_addr resolve listen_addr =
     \<lparr>bld_server = Some (new_server_value listen_addr),
      bld_err = (case resolve listen_addr of Inl err \<Rightarrow> Some ErrInvalidListen | Inr a \<Rightarrow> None)\<rparr>"

definition new_server :: "(string \<Rightarrow> error + 'a) \<Rightarrow> string \<Rightarrow> ('r, 'x) builder" where
  "new_server resolve ip =
     (if ip \<noteq> ''0.0.0.0'' \<and> \<not> parse_ip_ok ip then \<lparr>bld_server = None, bld_err = Some ErrInvalidIP\<rparr>
      else new_server_addr resolve (join_host_port ip ''41144''))"

definition with_repository :: "'r option \<Rightarrow> ('r, 'x) builder \<Rightarrow> ('r, 'x) builder" where
  "with_repository repo b =
     (if bld_err b \<noteq> None then b
      else b\<lparr>bld_server := map_option (\<lambda>s. s\<lparr>srv_repository := repo\<rparr>) (bld_server b)\<rparr>)"

definition with_cache_refresh_interval :: "int \<Rightarrow> ('r, 'x) builder \<Rightarrow> ('r, 'x) builder" where
  "with_cache_refresh_interval d b =
     (if bld_err b \<noteq> None then b
      else b\<lparr>bld_server := map_option (\<lambda>s. s\<lparr>srv_cache_refresh_interval := d\<rparr>) (bld_server b)\<rparr>)"

definition with_logger :: "logger \<Rightarrow> ('r, 'x) builder \<Rightarrow> ('r, 'x) builder" where
  "with_logger l b =
     (if bld_err b \<noteq> None then b
      else b\<lparr>bld_server := map_option (\<lambda>s. s\<lparr>srv_logger := l\<rparr>) (bld_server b)\<rparr>)"

definition with_metrics :: "metric list \<Rightarrow> ('r, 'x) builder \<Rightarrow> ('r, 'x) builder" where
  "with_metrics m b =
     (if bld_err b \<noteq> None then b
      else b\<lparr>bld_server := map_option (\<lambda>s. s\<lparr>srv_metrics := m\<rparr>) (bld_server b)\<rparr>)"

definition set_repository :: "'r \<Rightarrow> ('q, 'x) server \<Rightarrow> ('r, 'x) server" where
  "set_repository r s =
     \<lparr>srv_repository = r, srv_metrics = srv_metrics s, srv_listening = srv_listening s,
      srv_cancelled = srv_cancelled s, srv_addr = srv_addr s, srv_cache = srv_cache s,
      srv_wildcard_records = srv_wildcard_records s, srv_regex_records = srv_regex_records s,
      srv_cache_refresh_interval = srv_cache_refresh_interval s, srv_logger = srv_logger s\<rparr>"

text \<open>A builder without an error has a server; \<open>None\<close> of the result is a nil dereference.\<close>

definition build :: "('r, 'x) builder \<Rightarrow> (error + ('r, 'x) server) option" where
  "build b =
     (case bld_err b of
        Some err \<Rightarrow> Some (Inl err)
      | None \<Rightarrow>
          (case bld_server b of
             None \<Rightarrow> None
           | Some s \<Rightarrow>
               (case srv_repository s of
                  None \<Rightarrow> Some (Inl ErrRepoRequired)
                | Some r \<Rightarrow> Some (Inr (set_repository r s)))))"

section \<open>The record operations\<close>

text \<open>The record a successful call returns is the caller's, as the repository left it.\<close>

definition upsert_record ::
  "'r repo_ops \<Rightarrow> 'x regexp \<Rightarrow> time \<Rightarrow> tsrecord option \<Rightarrow> ('r, 'x) server \<Rightarrow>
   (error + tsrecord) \<times> ('r, 'x) server" where
  "upsert_record ops eng now ro s =
     (case ro of
        None \<Rightarrow> (Inl ErrRecordNil, s)
      | Some r \<Rightarrow>
          (case repo_create ops now (Some r) (srv_repository s) of
             (Inl err, repo) \<Rightarrow>
               (Inl err, log_metric (RecordRepositoryOp ''create'' ''error'') (s\<lparr>srv_repository := repo\<rparr>))
           | (Inr r', repo) \<Rightarrow>
               let s = log_metric (RecordRepositoryOp ''create'' ''success'') (s\<lparr>srv_repository := repo\<rparr>)
               in case load_cache ops eng s of
                    (Inl err, s) \<Rightarrow> (Inl err, s)
                  | (Inr u, s) \<Rightarrow> (Inr r', s)))"

definition add_record_with_instance_id ::
  "'r repo_ops \<Rightarrow> 'x regexp \<Rightarrow> time \<Rightarrow> int64 \<Rightarrow> string \<Rightarrow> addr_port list \<Rightarrow> ('r, 'x) server \<Rightarrow>
   (error + tsrecord) \<times> ('r, 'x) server" where
  "add_record_with_instance_id ops eng now instance_id domain targets =
     upsert_record ops eng now (Some (new_record instance_id domain targets))"

definition add_record ::
  "'r repo_ops \<Rightarrow> 'x regexp \<Rightarrow> time \<Rightarrow> string \<Rightarrow> addr_port list \<Rightarrow> ('r, 'x) server \<Rightarrow>
   (error + tsrecord) \<times> ('r, 'x) server" where
  "add_record ops eng now domain targets = add_record_with_instance_id ops eng now 0 domain targets"

definition list_records ::
  "'r repo_ops \<Rightarrow> ('r, 'x) server \<Rightarrow> (error + tsrecord list) \<times> ('r, 'x) server" where
  "list_records ops s =
     (case repo_find ops (srv_repository s) of
        Inl err \<Rightarrow> (Inl err, log_metric (RecordRepositoryOp ''find'' ''error'') s)
      | Inr recs \<Rightarrow> (Inr recs, log_metric (RecordRepositoryOp ''find'' ''success'') s))"

definition get_record ::
  "'r repo_ops \<Rightarrow> string \<Rightarrow> ('r, 'x) server \<Rightarrow> (error + tsrecord) \<times> ('r, 'x) server" where
  "get_record ops domain s =
     (case repo_find_by_domain ops domain (srv_repository s) of
        Inl err \<Rightarrow> (Inl err, log_metric (RecordRepositoryOp ''find_by_domain'' ''error'') s)
      | Inr r \<Rightarrow> (Inr r, log_metric (RecordRepositoryOp ''find_by_domain'' ''success'') s))"

definition delete_record ::
  "'r repo_ops \<Rightarrow> 'x regexp \<Rightarrow> string \<Rightarrow> ('r, 'x) server \<Rightarrow> (error + unit) \<times> ('r, 'x) server" where
  "delete_record ops eng domain s =
     (case repo_delete ops domain (srv_repository s) of
        (Inl err, repo) \<Rightarrow>
          (Inl err, log_metric (RecordRepositoryOp ''delete'' ''error'') (s\<lparr>srv_repository := repo\<rparr>))
      | (Inr u, repo) \<Rightarrow>
          load_cache ops eng
            (log_metric (RecordRepositoryOp ''delete'' ''success'') (s\<lparr>srv_repository := repo\<rparr>)))"

definition delete_instance_records ::
  "'r repo_ops \<Rightarrow> 'x regexp \<Rightarrow> int64 \<Rightarrow> ('r, 'x) server \<Rightarrow> (error + unit) \<times> ('r, 'x) server" where
  "delete_instance_records ops eng instance_id s =
     (case repo_delete_by_instance_id ops instance_id (srv_repository s) of
        (Inl err, repo) \<Rightarrow>
          (Inl err, log_metric (RecordRepositoryOp ''delete_by_instance'' ''error'') (s\<lparr>srv_repository := repo\<rparr>))
      | (Inr u, repo) \<Rightarrow>
          load_cache ops eng
            (log_metric (RecordRepositoryOp ''delete_by_instance'' ''success'') (s\<lparr>srv_repository := repo\<rparr>)))"

definition remove_record ::
  "'r repo_ops \<Rightarrow> 'x regexp \<Rightarrow> string \<Rightarrow> ('r, 'x) server \<Rightarrow> (error + unit) \<times> ('r, 'x) server" where
  "remove_record ops eng domain s = delete_record ops eng domain s"

definition remove_instance_records ::
  "'r repo_ops \<Rightarrow> 'x regexp \<Rightarrow> int64 \<Rightarrow> ('r, 'x) server \<Rightarrow> (error + unit) \<times> ('r, 'x) server" where
  "remove_instance_records ops eng instance_id s = delete_instance_records ops eng instance_id s"

section \<open>The life cycle\<close>

text \<open>
  \<open>Start\<close> up to its accept loop: \<open>Inr ()\<close> is the point where the loop begins. The flag of
  the result says whether the cache updater was started.
\<close>

definition start ::
  "'r repo_ops \<Rightarrow> 'x regexp \<Rightarrow> (string \<Rightarrow> error + 'a) \<Rightarrow> ('a \<Rightarrow> error + unit) \<Rightarrow> ('r, 'x) server \<Rightarrow>
   (error + bool) \<times> ('r, 'x) server" where
  "start ops eng resolve listen s =
     (case resolve (srv_addr s) of
        Inl err \<Rightarrow> (Inl err, s)
      | Inr a \<Rightarrow>
          (case listen a of
             Inl err \<Rightarrow> (Inl err, s)
           | Inr u \<Rightarrow>
               (case load_cache ops eng (s\<lparr>srv_listening := True\<rparr>) of
                  (Inl err, s) \<Rightarrow> (Inl err, s)
                | (Inr u, s) \<Rightarrow> (Inr (0 < srv_cache_refresh_interval s), s))))"

text \<open>
  The accept loop over the events the listener delivers: a connection, for which a handler
  is started, or an error, with the context cancelled at that moment or not. The result
  holds the handlers' connections and whether the loop has returned.
\<close>

datatype accept_event = Accepted conn | AcceptFailed (ctx_done: bool)

fun accept_loop :: "accept_event list \<Rightarrow> conn list \<times> bool" where
  "accept_loop [] = ([], False)"
| "accept_loop (Accepted c # es) = (let (cs, returned) = accept_loop es in (c # cs, returned))"
| "accept_loop (AcceptFailed dn # es) = (if dn then ([], True) else accept_loop es)"

definition close_server :: "'r repo_ops \<Rightarrow> ('r, 'x) server \<Rightarrow> (error + unit) \<times> ('r, 'x) server" where
  "close_server ops s =
     (let s = s\<lparr>srv_cancelled := True\<rparr>;
          s = (if srv_listening s then s\<lparr>srv_listening := False\<rparr> else s);
          (res, repo) = repo_close ops (srv_repository s)
      in (res, s\<lparr>srv_repository := repo\<rparr>))"

text \<open>The loop of \<open>cacheUpdater\<close>: a tick reloads, whatever the reload returns; cancellation ends it.\<close>

datatype updater_event = Tick | Done

definition updater_interval :: "int \<Rightarrow> int" where
  "updater_interval interval = (if interval \<le> 0 then 30 * 10 ^ 9 else interval)"

fun cache_updater ::
  "'r repo_ops \<Rightarrow> 'x regexp \<Rightarrow> updater_event list \<Rightarrow> ('r, 'x) server \<Rightarrow> ('r, 'x) server" where
  "cache_updater ops eng [] s = s"
| "cache_updater ops eng (Tick # es) s = cache_updater ops eng es (snd (load_cache ops eng s))"
| "cache_updater ops eng (Done # es) s = s"

section \<open>Lemmas: the builder\<close>

lemma string6_colon:
  assumes "length gs = 8"
  shows "CHR '':'' \<in> set (string6 gs z m)"
proof -
  have "CHR '':'' \<in> set (hexes gs)"
    using assms by (cases gs; cases "tl gs") (auto simp: join_Cons)
  then have "CHR '':'' \<in> set (append6 gs z)"
    by (rule_tac print6_shape [OF assms]) (simp_all add: append6_def)
  then show ?thesis by (simp add: string6_def)
qed

text \<open>A server built for an address listens on that address and the TSDNS port.\<close>

lemma new_server_listen_addr:
  assumes "is_valid a" "zoneless a"
  shows "parse_ip_ok (addr_string a)"
    and "join_host_port (addr_string a) ''41144'' = addr_port_string (a, 41144)"
proof -
  show "parse_ip_ok (addr_string a)" using assms by (simp add: parse_ip_ok_def roundtrip)
  have port: "dec (unat (41144 :: uint16)) = ''41144''" by (simp add: dec.simps) code_simp
  then show "join_host_port (addr_string a) ''41144'' = addr_port_string (a, 41144)"
    using assms string6_colon port
    by (cases a) (simp_all add: join_host_port_def is_valid_def del: dec.simps)
qed

section \<open>Lemmas: what the tables hold\<close>

text \<open>
  The tables of a server are current when they were built from a listing of exactly the
  contents of the repository.
\<close>

definition current :: "('r \<Rightarrow> string \<Rightarrow> entry option) \<Rightarrow> 'x regexp \<Rightarrow> ('r, 'x) server \<Rightarrow> bool" where
  "current content eng s \<longleftrightarrow>
     (\<exists>rs. snapshot eng rs s \<and> distinct (map rec_domain rs) \<and> entries_of rs = content (srv_repository s))"

text \<open>The three ways of matching depend on the domain of the record only.\<close>

definition domain_match :: "'x regexp \<Rightarrow> string \<Rightarrow> string \<Rightarrow> bool" where
  "domain_match eng host d \<longleftrightarrow> record_match eng host (new_record 0 d [])"

lemma record_match_domain: "record_match eng host r \<longleftrightarrow> domain_match eng host (rec_domain r)"
  by (simp add: domain_match_def record_match_def expression_match_def wildcard_match_def simple_wildcard_def)

lemma current_exact:
  assumes "current content eng s" "content (srv_repository s) host = Some e"
  shows "\<exists>r. lookup_record eng s host = Some r \<and> rec_domain r = host \<and> rec_entry r = e"
proof -
  obtain rs where rs: "snapshot eng rs s" "distinct (map rec_domain rs)" "entries_of rs = content (srv_repository s)"
    using assms(1) by (auto simp: current_def)
  then obtain r where "r \<in> set rs" "rec_domain r = host" "rec_entry r = e"
    using assms(2) by (metis entries_of_iff)
  with rs show ?thesis by (auto simp: lookup_snapshot lookup_spec_exact)
qed

lemma current_miss:
  assumes "current content eng s"
  shows "lookup_record eng s host = None \<longleftrightarrow>
    (\<forall>d. content (srv_repository s) d \<noteq> None \<longrightarrow> \<not> domain_match eng host d)"
proof -
  obtain rs where rs: "snapshot eng rs s" "distinct (map rec_domain rs)" "entries_of rs = content (srv_repository s)"
    using assms by (auto simp: current_def)
  have "content (srv_repository s) d \<noteq> None \<longleftrightarrow> d \<in> rec_domain ` set rs" for d
    unfolding rs(3) [symmetric] entries_of_def domIff [symmetric] dom_map_of_conv_image_fst by (simp add: image_image)
  with rs(1) show ?thesis by (auto simp: lookup_snapshot lookup_spec_None record_match_domain)
qed

lemma current_hit:
  assumes "current content eng s" "lookup_record eng s host = Some r"
  shows "content (srv_repository s) (rec_domain r) = Some (rec_entry r) \<and> domain_match eng host (rec_domain r)"
proof -
  obtain rs where rs: "snapshot eng rs s" "distinct (map rec_domain rs)" "entries_of rs = content (srv_repository s)"
    using assms by (auto simp: current_def)
  with assms(2) have "r \<in> set rs" "record_match eng host r"
    by (auto simp: lookup_snapshot dest: lookup_spec_Some)
  with rs show ?thesis by (auto simp: record_match_domain entries_of_iff rs(3) [symmetric])
qed

lemma current_log [simp]: "current content eng (log_metric m s) \<longleftrightarrow> current content eng s"
  by (simp add: current_def snapshot_def)

lemma current_handle_query [simp]: "current content eng (fst (handle_query eng s c)) \<longleftrightarrow> current content eng s"
  by (simp add: current_def snapshot_def handle_query_outcome case_prod_unfold Let_def)

section \<open>Lemmas: operations over any repository\<close>

text \<open>A successful operation is a successful repository call and a successful reload.\<close>

lemma upsert_okE:
  assumes "upsert_record ops eng now (Some x) s = (Inr x', s')"
  obtains repo where "repo_create ops now (Some x) (srv_repository s) = (Inr x', repo)"
    "load_cache ops eng (log_metric (RecordRepositoryOp ''create'' ''success'') (s\<lparr>srv_repository := repo\<rparr>))
       = (Inr (), s')"
proof -
  obtain res repo where c: "repo_create ops now (Some x) (srv_repository s) = (res, repo)" by fastforce
  have "is_ok res" using assms c by (cases res) (simp_all add: upsert_record_def)
  then obtain y where y: "res = Inr y" by blast
  obtain lres s2 where l: "load_cache ops eng
      (log_metric (RecordRepositoryOp ''create'' ''success'') (s\<lparr>srv_repository := repo\<rparr>)) = (lres, s2)" by fastforce
  have "lres = Inr () \<and> s2 = s' \<and> y = x'"
    using assms c y l by (cases lres) (simp_all add: upsert_record_def)
  with c y l show thesis using that by blast
qed

lemma delete_okE:
  assumes "delete_record ops eng d s = (Inr u, s')"
  obtains repo where "repo_delete ops d (srv_repository s) = (Inr (), repo)"
    "load_cache ops eng (log_metric (RecordRepositoryOp ''delete'' ''success'') (s\<lparr>srv_repository := repo\<rparr>))
       = (Inr u, s')"
proof -
  obtain res repo where c: "repo_delete ops d (srv_repository s) = (res, repo)" by fastforce
  moreover have "res = Inr ()" using assms c by (cases res) (simp_all add: delete_record_def)
  moreover from this have "load_cache ops eng (log_metric (RecordRepositoryOp ''delete'' ''success'') (s\<lparr>srv_repository := repo\<rparr>))
       = (Inr u, s')"
    using assms c by (simp add: delete_record_def)
  ultimately show thesis using that by blast
qed

lemma delete_instance_okE:
  assumes "delete_instance_records ops eng i s = (Inr u, s')"
  obtains repo where "repo_delete_by_instance_id ops i (srv_repository s) = (Inr (), repo)"
    "load_cache ops eng (log_metric (RecordRepositoryOp ''delete_by_instance'' ''success'')
       (s\<lparr>srv_repository := repo\<rparr>)) = (Inr u, s')"
proof -
  obtain res repo where c: "repo_delete_by_instance_id ops i (srv_repository s) = (res, repo)" by fastforce
  moreover have "res = Inr ()" using assms c by (cases res) (simp_all add: delete_instance_records_def)
  moreover from this have "load_cache ops eng (log_metric (RecordRepositoryOp ''delete_by_instance'' ''success'')
       (s\<lparr>srv_repository := repo\<rparr>)) = (Inr u, s')"
    using assms c by (simp add: delete_instance_records_def)
  ultimately show thesis using that by blast
qed

context record_repository
begin

lemma load_current:
  assumes "invar (srv_repository s)" "load_cache ops eng s = (Inr u, s')"
  shows "current content eng s' \<and> srv_repository s' = srv_repository s"
proof -
  have repo: "srv_repository s' = srv_repository s"
    using load_cache_repository [of ops eng s] assms(2) by simp
  show ?thesis
  proof (cases "repo_find ops (srv_repository s)")
    case (Inl e)
    with assms(2) show ?thesis by (simp add: load_cache_Inl)
  next
    case (Inr rs)
    with load_cache_Inr(2) [OF Inr, of eng] find_content [OF assms(1) Inr] repo assms(2)
    show ?thesis by (auto simp: current_def)
  qed
qed

lemma upsert_effect:
  assumes "invar (srv_repository s)" "list_all storable (rec_targets x)"
    "upsert_record ops eng now (Some x) s = (Inr x', s')"
  shows "content (srv_repository s') = (content (srv_repository s))(rec_domain x \<mapsto> rec_entry x)"
    and "current content eng s'" and "invar (srv_repository s')"
    and "rec_domain x' = rec_domain x \<and> rec_entry x' = rec_entry x"
proof -
  obtain repo where c: "repo_create ops now (Some x) (srv_repository s) = (Inr x', repo)"
    and l: "load_cache ops eng (log_metric (RecordRepositoryOp ''create'' ''success'') (s\<lparr>srv_repository := repo\<rparr>))
            = (Inr (), s')"
    using assms(3) by (rule upsert_okE)
  have inv: "invar repo" using create_invar [OF assms(1), of now "Some x"] c by simp
  with load_current [OF _ l] have s': "current content eng s'" "srv_repository s' = repo" by simp_all
  then show "content (srv_repository s') = (content (srv_repository s))(rec_domain x \<mapsto> rec_entry x)"
    "current content eng s'" "invar (srv_repository s')"
    "rec_domain x' = rec_domain x \<and> rec_entry x' = rec_entry x"
    using create_content [OF assms(1,2) c] inv by simp_all
qed

lemma delete_effect:
  assumes "invar (srv_repository s)" "delete_record ops eng d s = (Inr u, s')"
  shows "content (srv_repository s') = (content (srv_repository s))(d := None)"
    and "content (srv_repository s) d \<noteq> None"
    and "current content eng s'" and "invar (srv_repository s')"
proof -
  obtain repo where c: "repo_delete ops d (srv_repository s) = (Inr (), repo)"
    and l: "load_cache ops eng (log_metric (RecordRepositoryOp ''delete'' ''success'') (s\<lparr>srv_repository := repo\<rparr>))
            = (Inr u, s')"
    using assms(2) by (rule delete_okE)
  have inv: "invar repo" using delete_invar [OF assms(1), of d] c by simp
  with load_current [OF _ l] have s': "current content eng s'" "srv_repository s' = repo" by simp_all
  then show "content (srv_repository s') = (content (srv_repository s))(d := None)"
    "content (srv_repository s) d \<noteq> None" "current content eng s'" "invar (srv_repository s')"
    using delete_content [OF assms(1) c] inv by simp_all
qed

lemma delete_instance_effect:
  assumes "invar (srv_repository s)" "delete_instance_records ops eng i s = (Inr u, s')"
  shows "content (srv_repository s') d =
           (case content (srv_repository s) d of None \<Rightarrow> None | Some e \<Rightarrow> if fst e = i then None else Some e)"
    and "current content eng s'" and "invar (srv_repository s')"
proof -
  obtain repo where c: "repo_delete_by_instance_id ops i (srv_repository s) = (Inr (), repo)"
    and l: "load_cache ops eng (log_metric (RecordRepositoryOp ''delete_by_instance'' ''success'')
              (s\<lparr>srv_repository := repo\<rparr>)) = (Inr u, s')"
    using assms(2) by (rule delete_instance_okE)
  have inv: "invar repo" using delete_by_instance_invar [OF assms(1), of i] c by simp
  with load_current [OF _ l] have s': "current content eng s'" "srv_repository s' = repo" by simp_all
  then show "content (srv_repository s') d =
      (case content (srv_repository s) d of None \<Rightarrow> None | Some e \<Rightarrow> if fst e = i then None else Some e)"
    "current content eng s'" "invar (srv_repository s')"
    using delete_by_instance_content [OF assms(1) c] inv by simp_all
qed

text \<open>After a successful upsert, a query for the domain itself finds what was stored.\<close>

lemma upsert_lookup:
  assumes "invar (srv_repository s)" "list_all storable (rec_targets x)"
    "upsert_record ops eng now (Some x) s = (Inr x', s')"
  shows "\<exists>r. lookup_record eng s' (rec_domain x) = Some r \<and> rec_domain r = rec_domain x \<and> rec_entry r = rec_entry x"
  using current_exact [OF upsert_effect(2) [OF assms]] upsert_effect(1) [OF assms] by simp

lemma delete_lookup:
  assumes "invar (srv_repository s)" "delete_record ops eng d s = (Inr u, s')"
    "lookup_record eng s' host = Some r"
  shows "rec_domain r \<noteq> d"
  using current_hit [OF delete_effect(3) [OF assms(1,2)] assms(3)] delete_effect(1) [OF assms(1,2)] by auto

lemma delete_instance_lookup:
  assumes "invar (srv_repository s)" "delete_instance_records ops eng i s = (Inr u, s')"
    "lookup_record eng s' host = Some r"
  shows "rec_instance_id r \<noteq> i"
  using current_hit [OF delete_instance_effect(2) [OF assms(1,2)] assms(3)]
    delete_instance_effect(1) [OF assms(1,2), of "rec_domain r"]
  by (auto simp: rec_entry_def split: option.splits if_splits)

lemma get_missing:
  assumes "invar (srv_repository s)" "content (srv_repository s) d = None"
  shows "\<exists>e. fst (get_record ops d s) = Inl e"
  using find_by_domain_missing [OF assms] by (auto simp: get_record_def)

end

end
