(* ===== verification/Go_Path.thy ===== *)
theory Go_Path
  imports Go_Strings
begin

text \<open>
  \<open>path/filepath\<close> on Unix: \<open>Clean\<close> and \<open>Dir\<close>. The names between the slashes are read from
  the left onto a stack, from which two dots take one away.
\<close>

definition path_step :: "bool \<Rightarrow> string \<Rightarrow> string list \<Rightarrow> string list" where
  "path_step rooted name stack =
     (if name = [] \<or> name = ''.'' then stack
      else if name = ''..'' then
        (case stack of
           [] \<Rightarrow> if rooted then [] else [name]
         | prev # rest \<Rightarrow> if prev = ''..'' then name # stack else rest)
      else name # stack)"

definition path_clean :: "string \<Rightarrow> string" where
  "path_clean p =
     (let rooted = has_prefix p ''/'';
          out = (if rooted then ''/'' else []) @ join ''/'' (rev (fold (path_step rooted) (split_on (CHR ''/'') p) []))
      in if out = [] then ''.'' else out)"

definition path_dir :: "string \<Rightarrow> string" where
  "path_dir p =
     (case last_index_byte (CHR ''/'') p of
        None \<Rightarrow> ''.''
      | Some i \<Rightarrow> path_clean (take (i + 1) p))"

lemma path_dir_samples:
  "path_dir ''/var/lib/tsdns/tsdns.sqlite'' = ''/var/lib/tsdns''" "path_dir ''./tsdns.sqlite'' = ''.''"
  "path_dir ''../a/./b/../t.db'' = ''../a''" "path_dir ''/t.db'' = ''/''" "path_clean ''/../a//b/'' = ''/a/b''"
  by code_simp+

lemma path_clean_nonempty [simp]: "path_clean p \<noteq> []" "path_dir p \<noteq> []"
  by (simp_all add: path_clean_def path_dir_def Let_def split: option.split)

end
