(* ===== verification/Sql_Repo.thy ===== *)
theory Sql_Repo
  imports Server Go_Path "HOL-Library.Multiset"
begin

text \<open>
  \<open>repository/sql/sql.go\<close>: records as the rows of one table, a row for each target and
  one row with an empty address for a record without targets. The database is the
  parameter \<open>db\<close> of type \<open>db_ops\<close>, its laws the predicate \<open>sql_laws\<close>; \<open>table_db\<close> is a
  table in memory that satisfies them, with a switch for failing statements.
\<close>

section \<open>Rows and the database\<close>

record row =
  row_created_at :: time
  row_updated_at :: time
  row_domain :: string
  row_ip :: string
  row_id :: int64
  row_instance_id :: int64
  row_priority :: int
  row_port :: uint16

text \<open>
  The statements the repository issues. \<open>db_select_first\<close> is the query limited to one row,
  with the error for no rows among its errors; the inner sum of the deletions is what
  \<open>RowsAffected\<close> returns. \<open>db_begin\<close> and \<open>db_commit\<close> bound a transaction.
\<close>

record 'd db_ops =
  db_select_all :: "'d \<Rightarrow> error + row list"
  db_select_domain :: "string \<Rightarrow> 'd \<Rightarrow> error + row list"
  db_select_first :: "string \<Rightarrow> 'd \<Rightarrow> error + row"
  db_insert :: "row \<Rightarrow> 'd \<Rightarrow> (error + unit) \<times> 'd"
  db_delete_domain :: "string \<Rightarrow> 'd \<Rightarrow> (error + (error + nat)) \<times> 'd"
  db_delete_instance :: "int64 \<Rightarrow> 'd \<Rightarrow> (error + (error + nat)) \<times> 'd"
  db_begin :: "'d \<Rightarrow> error + unit"
  db_commit :: "'d \<Rightarrow> error + unit"
  db_close :: "'d \<Rightarrow> (error + unit) \<times> 'd"

text \<open>\<open>RunInTx\<close>: the body's changes are undone when the body or the commit fails.\<close>

definition run_in_tx :: "'d db_ops \<Rightarrow> ('d \<Rightarrow> (error + 'a) \<times> 'd) \<Rightarrow> 'd \<Rightarrow> (error + 'a) \<times> 'd" where
  "run_in_tx db body d =
     (case db_begin db d of
        Inl err \<Rightarrow> (Inl err, d)
      | Inr u \<Rightarrow>
          (case body d of
             (Inl err, d') \<Rightarrow> (Inl err, d)
           | (Inr x, d') \<Rightarrow>
               (case db_commit db d' of Inl err \<Rightarrow> (Inl err, d) | Inr u \<Rightarrow> (Inr x, d'))))"

section \<open>Reading\<close>

definition row_target :: "row \<Rightarrow> addr_port option" where
  "row_target m =
     (if row_ip m \<noteq> [] then
        (case parse_addr (row_ip m) of
           Some a \<Rightarrow> Some (a, row_port m)
         | None \<Rightarrow> None)
      else None)"

definition group_record :: "row \<Rightarrow> tsrecord" where
  "group_record m =
     \<lparr>rec_created_at = row_created_at m, rec_updated_at = row_updated_at m, rec_deleted_at = None,
      rec_domain = row_domain m, rec_targets = [], rec_id = row_id m,
      rec_instance_id = row_instance_id m\<rparr>"

text \<open>One iteration of the loop of \<open>groupModels\<close>; the state is its map \<open>groups\<close> and its list \<open>order\<close>.\<close>

definition group_step ::
  "row \<Rightarrow> (string \<Rightarrow> tsrecord option) \<times> string list \<Rightarrow> (string \<Rightarrow> tsrecord option) \<times> string list" where
  "group_step m = (\<lambda>(groups, order).
     let (groups, order) =
           (if groups (row_domain m) = None
            then (groups(row_domain m \<mapsto> group_record m), order @ [row_domain m])
            else (groups, order))
     in (case row_target m of
           None \<Rightarrow> (groups, order)
         | Some tp \<Rightarrow>
             (groups(row_domain m :=
                map_option (\<lambda>r. r\<lparr>rec_targets := rec_targets r @ [tp]\<rparr>) (groups (row_domain m))), order)))"

definition group_models :: "row list \<Rightarrow> tsrecord list" where
  "group_models models =
     (if models = [] then []
      else let (groups, order) = fold group_step models (Map.empty, [])
        in map (\<lambda>d. the (groups d)) order)"

definition sql_find :: "'d db_ops \<Rightarrow> 'd \<Rightarrow> error + tsrecord list" where
  "sql_find db d =
     (case db_select_all db d of
        Inl err \<Rightarrow> Inl err
      | Inr models \<Rightarrow> Inr (group_models models))"

definition sql_find_by_domain :: "'d db_ops \<Rightarrow> string \<Rightarrow> 'd \<Rightarrow> error + tsrecord" where
  "sql_find_by_domain db domain d =
     (case db_select_domain db domain d of
        Inl err \<Rightarrow> Inl err
      | Inr models \<Rightarrow>
          if models = [] then Inl ErrRecordNotFound else Inr (hd (group_models models)))"

section \<open>Writing\<close>

definition new_row :: "tsrecord \<Rightarrow> time \<Rightarrow> time \<Rightarrow> string \<Rightarrow> uint16 \<Rightarrow> int \<Rightarrow> row" where
  "new_row r created_at now ip port priority =
     \<lparr>row_created_at = created_at, row_updated_at = now, row_domain = rec_domain r, row_ip = ip,
      row_id = 0, row_instance_id = rec_instance_id r, row_priority = priority, row_port = port\<rparr>"

fun insert_targets ::
  "'d db_ops \<Rightarrow> tsrecord \<Rightarrow> time \<Rightarrow> time \<Rightarrow> int \<Rightarrow> addr_port list \<Rightarrow> 'd \<Rightarrow> (error + unit) \<times> 'd" where
  "insert_targets db r created_at now i [] d = (Inr (), d)"
| "insert_targets db r created_at now i (tp # tps) d =
     (case db_insert db (new_row r created_at now (addr_string (fst tp)) (snd tp) i) d of
        (Inl err, d) \<Rightarrow> (Inl err, d)
      | (Inr u, d) \<Rightarrow> insert_targets db r created_at now (i + 1) tps d)"

text \<open>The body of the transaction of \<open>Create\<close>.\<close>

definition create_tx :: "'d db_ops \<Rightarrow> time \<Rightarrow> tsrecord \<Rightarrow> 'd \<Rightarrow> (error + unit) \<times> 'd" where
  "create_tx db now r d =
     (let created_at =
            (case db_select_first db (rec_domain r) d of
               Inl err \<Rightarrow> now
             | Inr existing \<Rightarrow> row_created_at existing)
      in case db_delete_domain db (rec_domain r) d of
           (Inl err, d) \<Rightarrow> (Inl err, d)
         | (Inr n, d) \<Rightarrow>
             if rec_targets r = [] then db_insert db (new_row r created_at now [] 0 0) d
             else insert_targets db r created_at now 0 (rec_targets r) d)"

definition sql_create :: "'d db_ops \<Rightarrow> time \<Rightarrow> tsrecord option \<Rightarrow> 'd \<Rightarrow> (error + tsrecord) \<times> 'd" where
  "sql_create db now ro d =
     (case ro of
        None \<Rightarrow> (Inl ErrRecordNil, d)
      | Some r \<Rightarrow>
          if trim_space (rec_domain r) = [] then (Inl ErrDomainRequired, d)
          else (case run_in_tx db (create_tx db now r) d of
                  (Inl err, d) \<Rightarrow> (Inl err, d)
                | (Inr u, d) \<Rightarrow> (Inr r, d)))"

definition sql_delete :: "'d db_ops \<Rightarrow> string \<Rightarrow> 'd \<Rightarrow> (error + unit) \<times> 'd" where
  "sql_delete db domain d =
     (case db_delete_domain db domain d of
        (Inl err, d) \<Rightarrow> (Inl err, d)
      | (Inr (Inl err), d) \<Rightarrow> (Inl err, d)
      | (Inr (Inr n), d) \<Rightarrow> if n = 0 then (Inl ErrRecordNotFound, d) else (Inr (), d))"

definition sql_delete_by_instance_id :: "'d db_ops \<Rightarrow> int64 \<Rightarrow> 'd \<Rightarrow> (error + unit) \<times> 'd" where
  "sql_delete_by_instance_id db instance_id d =
     (case db_delete_instance db instance_id d of
        (Inl err, d) \<Rightarrow> (Inl err, d)
      | (Inr n, d) \<Rightarrow> (Inr (), d))"

definition sql_repo :: "'d db_ops \<Rightarrow> 'd repo_ops" where
  "sql_repo db =
     \<lparr>repo_find = sql_find db, repo_find_by_domain = sql_find_by_domain db,
      repo_create = sql_create db, repo_delete = sql_delete db,
      repo_delete_by_instance_id = sql_delete_by_instance_id db, repo_close = db_close db\<rparr>"

lemma sql_repo_ops:
  "repo_find (sql_repo db) = sql_find db"
  "repo_find_by_domain (sql_repo db) = sql_find_by_domain db"
  "repo_create (sql_repo db) = sql_create db"
  "repo_delete (sql_repo db) = sql_delete db"
  "repo_delete_by_instance_id (sql_repo db) = sql_delete_by_instance_id db"
  "repo_close (sql_repo db) = db_close db"
  by (simp_all add: sql_repo_def)

section \<open>Opening\<close>

definition apply_sqlite_pragmas :: "string \<Rightarrow> string" where
  "apply_sqlite_pragmas dsn =
     dsn @ (if CHR ''?'' \<in> set dsn then ''&'' else ''?'')
     @ join ''&''
         [''_pragma=journal_mode(WAL)'', ''_pragma=synchronous(NORMAL)'', ''_pragma=busy_timeout(5000)'',
          ''_pragma=cache_size(-64000)'', ''_pragma=foreign_keys(ON)'']"

text \<open>
  The drivers and the file system: \<open>drv_mkdir_all\<close> creates a
  directory with its parents, \<open>drv_open\<close> opens a database, \<open>drv_migrate\<close> creates the table, \<open>drv_indexes\<close> and
  \<open>drv_inet\<close> are the statements whose errors are ignored.
\<close>

record 'd drivers =
  drv_mkdir_all :: "string \<Rightarrow> error + unit"
  drv_open :: "string \<Rightarrow> string \<Rightarrow> error + 'd"
  drv_migrate :: "'d \<Rightarrow> error + 'd"
  drv_indexes :: "'d \<Rightarrow> 'd"
  drv_inet :: "'d \<Rightarrow> 'd"

definition open_sqlite :: "'d drivers \<Rightarrow> string \<Rightarrow> error + 'd" where
  "open_sqlite drv dsn =
     (case (if dsn \<noteq> '':memory:'' then
              let dir = path_dir dsn in if dir \<noteq> ''.'' \<and> dir \<noteq> [] then drv_mkdir_all drv dir else Inr ()
            else Inr ()) of
        Inl err \<Rightarrow> Inl err
      | Inr u \<Rightarrow> drv_open drv ''sqlite'' (apply_sqlite_pragmas dsn))"

definition open_db :: "'d drivers \<Rightarrow> string \<Rightarrow> string \<Rightarrow> error + 'd" where
  "open_db drv dialect dsn =
     (if dialect = ''sqlite'' then open_sqlite drv dsn
      else if dialect = ''postgres'' then drv_open drv ''postgres'' dsn
      else if dialect = ''mysql'' then drv_open drv ''mysql'' dsn
      else Inl (ErrUnsupportedDialect dialect))"

definition sql_new_repository :: "'d drivers \<Rightarrow> string \<Rightarrow> string \<Rightarrow> error + 'd" where
  "sql_new_repository drv dialect dsn =
     (if trim_space dialect = [] then Inl ErrDialectRequired
      else if trim_space dsn = [] then Inl ErrSQLDSNRequired
      else case open_db drv dialect dsn of
             Inl err \<Rightarrow> Inl err
           | Inr d \<Rightarrow>
               (case drv_migrate drv d of
                  Inl err \<Rightarrow> Inl err
                | Inr d \<Rightarrow>
                    let d = drv_indexes drv d
                    in Inr (if dialect = ''postgres'' then drv_inet drv d else d)))"

section \<open>The laws of the database\<close>

text \<open>
  What the repository relies on, as the SQL databases document it: \<open>rows d\<close> are the rows
  of the table. A query returns the rows its condition selects, each once, in an order
  its \<open>ORDER BY\<close> allows; a successful deletion or insertion changes just the rows it
  names and a failed statement none. An inserted row may get any key.
\<close>

definition domain_rows :: "string \<Rightarrow> row list \<Rightarrow> row list" where
  "domain_rows domain ms = filter (\<lambda>m. row_domain m = domain) ms"

definition ordered_rows :: "row list \<Rightarrow> bool" where
  "ordered_rows ms \<longleftrightarrow>
     sorted_wrt (\<lambda>m m'. row_domain m = row_domain m' \<longrightarrow> row_priority m \<le> row_priority m') ms"

definition sql_laws :: "'d db_ops \<Rightarrow> ('d \<Rightarrow> row list) \<Rightarrow> bool" where
  "sql_laws db rows \<longleftrightarrow>
     (\<forall>d ms. db_select_all db d = Inr ms \<longrightarrow> mset ms = mset (rows d) \<and> ordered_rows ms) \<and>
     (\<forall>domain d ms. db_select_domain db domain d = Inr ms \<longrightarrow>
        mset ms = mset (domain_rows domain (rows d)) \<and> ordered_rows ms) \<and>
     (\<forall>domain d m. db_select_first db domain d = Inr m \<longrightarrow> m \<in> set (domain_rows domain (rows d))) \<and>
     (\<forall>m d u d'. db_insert db m d = (Inr u, d') \<longrightarrow> (\<exists>i. rows d' = rows d @ [m\<lparr>row_id := i\<rparr>])) \<and>
     (\<forall>m d e d'. db_insert db m d = (Inl e, d') \<longrightarrow> rows d' = rows d) \<and>
     (\<forall>domain d n d'. db_delete_domain db domain d = (Inr n, d') \<longrightarrow>
        rows d' = filter (\<lambda>m. row_domain m \<noteq> domain) (rows d) \<and>
        (\<forall>k. n = Inr k \<longrightarrow> k = length (domain_rows domain (rows d)))) \<and>
     (\<forall>domain d e d'. db_delete_domain db domain d = (Inl e, d') \<longrightarrow> rows d' = rows d) \<and>
     (\<forall>i d n d'. db_delete_instance db i d = (Inr n, d') \<longrightarrow>
        rows d' = filter (\<lambda>m. row_instance_id m \<noteq> i) (rows d)) \<and>
     (\<forall>i d e d'. db_delete_instance db i d = (Inl e, d') \<longrightarrow> rows d' = rows d)"

text \<open>The laws one by one.\<close>

lemma sql_lawsD:
  assumes "sql_laws db rows"
  shows sql_select_all: "db_select_all db d = Inr ms \<Longrightarrow> mset ms = mset (rows d) \<and> ordered_rows ms"
    and sql_select_domain: "db_select_domain db dn d = Inr ms \<Longrightarrow>
      mset ms = mset (domain_rows dn (rows d)) \<and> ordered_rows ms"
    and sql_select_first: "db_select_first db dn d = Inr m \<Longrightarrow> m \<in> set (domain_rows dn (rows d))"
    and sql_insert: "db_insert db m d = (Inr u, d') \<Longrightarrow> \<exists>i. rows d' = rows d @ [m\<lparr>row_id := i\<rparr>]"
    and sql_insert_err: "db_insert db m d = (Inl e, d') \<Longrightarrow> rows d' = rows d"
    and sql_delete_rows: "db_delete_domain db dn d = (Inr n, d') \<Longrightarrow>
      rows d' = filter (\<lambda>m. row_domain m \<noteq> dn) (rows d) \<and>
      (\<forall>k. n = Inr k \<longrightarrow> k = length (domain_rows dn (rows d)))"
    and sql_delete_err: "db_delete_domain db dn d = (Inl e, d') \<Longrightarrow> rows d' = rows d"
    and sql_delete_instance: "db_delete_instance db i d = (Inr n, d') \<Longrightarrow>
      rows d' = filter (\<lambda>m. row_instance_id m \<noteq> i) (rows d)"
    and sql_delete_instance_err: "db_delete_instance db i d = (Inl e, d') \<Longrightarrow> rows d' = rows d"
  using assms unfolding sql_laws_def by - (blast | simp)+

section \<open>Grouping\<close>

text \<open>The record of one domain: the first row's fields and the targets of all its rows, in order.\<close>

definition group_of :: "string \<Rightarrow> row list \<Rightarrow> tsrecord" where
  "group_of dn ms =
     (group_record (hd (domain_rows dn ms)))\<lparr>rec_targets := List.map_filter row_target (domain_rows dn ms)\<rparr>"

lemma domain_rows_simps [simp]:
  "domain_rows dn ([] :: row list) = []"
  "domain_rows dn (ms @ ms') = domain_rows dn ms @ domain_rows dn ms'"
  "domain_rows dn (m # ms) = (if row_domain m = dn then m # domain_rows dn ms else domain_rows dn ms)"
  by (simp_all add: domain_rows_def)

lemma domain_rows_Nil: "domain_rows dn ms = [] \<longleftrightarrow> dn \<notin> row_domain ` set ms"
  by (auto simp: domain_rows_def filter_empty_conv)

lemma group_record_simps [simp]:
  "rec_domain (group_record m) = row_domain m" "rec_targets (group_record m) = []"
  "rec_instance_id (group_record m) = row_instance_id m"
  "rec_created_at (group_record m) = row_created_at m"
  by (simp_all add: group_record_def)

lemma map_filter_snoc: "List.map_filter f (xs @ [x]) = List.map_filter f xs @ (case f x of None \<Rightarrow> [] | Some y \<Rightarrow> [y])"
  by (simp add: List.map_filter_def split: option.splits)

lemma group_of_snoc:
  "group_of dn (ms @ [m]) =
     (if row_domain m \<noteq> dn then group_of dn ms
      else (if domain_rows dn ms = [] then group_record m else group_of dn ms)
             \<lparr>rec_targets := List.map_filter row_target (domain_rows dn ms @ [m])\<rparr>)"
  by (cases "domain_rows dn ms") (simp_all add: group_of_def split: option.splits)

lemma group_fold:
  "fold group_step ms (Map.empty, []) =
     ((\<lambda>d. if domain_rows d ms = [] then None else Some (group_of d ms)),
      rev (remdups (rev (map row_domain ms))))"
proof (induction ms rule: rev_induct)
  case (snoc m ms)
  have new: "group_of (row_domain m) (ms @ [m]) =
      (case row_target m of None \<Rightarrow> group_record m | Some tp \<Rightarrow> (group_record m)\<lparr>rec_targets := [tp]\<rparr>)"
    if "domain_rows (row_domain m) ms = []"
    using that by (simp add: group_of_snoc group_record_def List.map_filter_simps split: option.splits)
  have old: "group_of (row_domain m) (ms @ [m]) =
      (case row_target m of None \<Rightarrow> group_of (row_domain m) ms
       | Some tp \<Rightarrow> (group_of (row_domain m) ms)\<lparr>rec_targets := rec_targets (group_of (row_domain m) ms) @ [tp]\<rparr>)"
    if "domain_rows (row_domain m) ms \<noteq> []"
    using that by (simp add: group_of_snoc map_filter_snoc) (simp add: group_of_def split: option.splits)
  show ?case
  proof (cases "domain_rows (row_domain m) ms = []")
    case True
    then show ?thesis using snoc new
      by (cases "row_target m")
         (auto simp: group_step_def Let_def fun_eq_iff group_of_snoc domain_rows_Nil)
  next
    case False
    then show ?thesis using snoc old
      by (cases "row_target m")
         (auto simp: group_step_def Let_def fun_eq_iff group_of_snoc domain_rows_Nil)
  qed
qed simp

lemma group_models_eq: "group_models ms = map (\<lambda>d. group_of d ms) (rev (remdups (rev (map row_domain ms))))"
  by (auto simp: group_models_def group_fold domain_rows_Nil)

lemma group_of_domain [simp]: "d \<in> row_domain ` set ms \<Longrightarrow> rec_domain (group_of d ms) = d"
proof -
  assume "d \<in> row_domain ` set ms"
  then have "domain_rows d ms \<noteq> []" by (simp add: domain_rows_Nil)
  then have "hd (domain_rows d ms) \<in> set (domain_rows d ms)" by (rule hd_in_set)
  then show ?thesis by (simp add: group_of_def domain_rows_def)
qed

lemma group_models_domains: "map rec_domain (group_models ms) = rev (remdups (rev (map row_domain ms)))"
  unfolding group_models_eq map_map by (rule map_idI) auto

lemma group_models_entries:
  "entries_of (group_models ms) d =
     (if domain_rows d ms = [] then None else Some (rec_entry (group_of d ms)))"
proof -
  have dist: "distinct (map rec_domain (group_models ms))" by (simp add: group_models_domains)
  have mem: "x \<in> set (group_models ms) \<longleftrightarrow> (\<exists>d \<in> row_domain ` set ms. x = group_of d ms)" for x
    by (auto simp: group_models_eq)
  show ?thesis
  proof (cases "domain_rows d ms = []")
    case True
    then have "d \<notin> set (map rec_domain (group_models ms))"
      unfolding group_models_domains by (auto simp: domain_rows_Nil)
    with True show ?thesis by (simp add: entries_of_def map_of_eq_None_iff image_image)
  next
    case False
    then have "d \<in> row_domain ` set ms" by (simp add: domain_rows_Nil)
    then have "group_of d ms \<in> set (group_models ms) \<and> rec_domain (group_of d ms) = d"
      using mem by auto
    with False show ?thesis using entries_of_iff [OF dist] by auto
  qed
qed

section \<open>The contents of the table\<close>

text \<open>Rows of one domain have one instance and distinct priorities, which order the targets.\<close>

definition sql_invar :: "row list \<Rightarrow> bool" where
  "sql_invar ms \<longleftrightarrow>
     (\<forall>d. distinct (map row_priority (domain_rows d ms))) \<and>
     (\<forall>m \<in> set ms. \<forall>m' \<in> set ms. row_domain m = row_domain m' \<longrightarrow> row_instance_id m = row_instance_id m')"

definition sql_content :: "row list \<Rightarrow> string \<Rightarrow> entry option" where
  "sql_content ms d =
     (let rs = sort_key row_priority (domain_rows d ms)
      in if rs = [] then None else Some (row_instance_id (hd rs), List.map_filter row_target rs))"

lemma ordered_unique:
  assumes "ordered_rows ms" "mset (domain_rows d ms) = mset (domain_rows d ms0)" "sql_invar ms0"
  shows "domain_rows d ms = sort_key row_priority (domain_rows d ms0)"
proof -
  let ?a = "domain_rows d ms" and ?b = "sort_key row_priority (domain_rows d ms0)"
  have same: "mset ?a = mset ?b" using assms(2) by simp
  have dist0: "distinct (map row_priority (domain_rows d ms0))" using assms(3) by (simp add: sql_invar_def)
  have dist: "distinct (map row_priority xs)" if "mset xs = mset (domain_rows d ms0)" for xs
    using dist0 mset_eq_imp_distinct_iff [of "map row_priority xs" "map row_priority (domain_rows d ms0)"] that
    by simp
  have "sorted_wrt (\<lambda>m m'. row_priority m \<le> row_priority m') ?a"
    using assms(1) unfolding ordered_rows_def domain_rows_def
    by (induction ms) auto
  then have "sorted (map row_priority ?a)" by (simp add: sorted_map)
  then have "map row_priority ?a = map row_priority ?b"
    using dist [of ?a] dist [of ?b] assms(2) mset_eq_setD [OF same]
    by (intro sorted_distinct_set_unique) simp_all
  moreover have "inj_on row_priority (set ?a \<union> set ?b)"
    using dist [of ?b] mset_eq_setD [OF same] by (simp add: distinct_map)
  ultimately show ?thesis by (rule map_inj_on)
qed

lemma sql_content_None: "sql_content ms d = None \<longleftrightarrow> domain_rows d ms = []"
  by (simp add: sql_content_def Let_def flip: set_empty)

lemma sql_content_grouped:
  assumes "ordered_rows ms" "mset (domain_rows d ms) = mset (domain_rows d ms0)" "sql_invar ms0"
  shows "sql_content ms0 d =
    (if domain_rows d ms = [] then None else Some (rec_entry (group_of d ms)))"
  using ordered_unique [OF assms]
  by (simp add: sql_content_def Let_def group_of_def rec_entry_def)

lemma mset_domain_rows: "mset ms = mset ms0 \<Longrightarrow> mset (domain_rows d ms) = mset (domain_rows d ms0)"
  by (simp add: domain_rows_def mset_filter)

lemma domain_rows_idem: "domain_rows d (domain_rows d ms) = domain_rows d ms"
  by (simp add: domain_rows_def)

lemma domain_rows_other: "d \<noteq> d' \<Longrightarrow> domain_rows d (filter (\<lambda>m. row_domain m \<noteq> d') ms) = domain_rows d ms"
  by (simp add: domain_rows_def conj_commute) (metis (mono_tags, lifting) filter_cong)

lemma domain_rows_removed [simp]: "domain_rows d (filter (\<lambda>m. row_domain m \<noteq> d) ms) = []"
  by (simp add: domain_rows_def filter_empty_conv)

lemma sql_invar_filter:
  assumes "sql_invar ms"
  shows "sql_invar (filter P ms)"
proof -
  have "distinct (map row_priority (domain_rows d (filter P ms)))" for d
    using assms distinct_map_filter [of row_priority "domain_rows d ms" P]
    by (simp add: sql_invar_def domain_rows_def conj_commute)
  then show ?thesis using assms by (auto simp: sql_invar_def)
qed

text \<open>The rows \<open>Create\<close> inserts for a record, up to their keys.\<close>

definition rows_for :: "tsrecord \<Rightarrow> time \<Rightarrow> row list \<Rightarrow> bool" where
  "rows_for r created_at ms \<longleftrightarrow>
     ms \<noteq> [] \<and> sorted (map row_priority ms) \<and> distinct (map row_priority ms) \<and>
     (\<forall>m \<in> set ms. row_domain m = rec_domain r \<and> row_instance_id m = rec_instance_id r \<and>
        row_created_at m = created_at) \<and>
     (list_all (\<lambda>tp. is_valid (fst tp)) (rec_targets r) \<longrightarrow> List.map_filter row_target ms = rec_targets r)"

lemma row_target_new:
  "is_valid a \<Longrightarrow> row_target ((new_row r c now (addr_string a) p i)\<lparr>row_id := k\<rparr>) = Some (a, p)"
  by (simp add: row_target_def new_row_def roundtrip)

lemma insert_targets_rows:
  assumes "sql_laws db rows" "insert_targets db r c now i tps d = (Inr u, d')"
  shows "\<exists>ms. rows d' = rows d @ ms \<and> map row_priority ms = [i..i + int (length tps) - 1] \<and>
    (\<forall>m \<in> set ms. row_domain m = rec_domain r \<and> row_instance_id m = rec_instance_id r \<and> row_created_at m = c) \<and>
    (list_all (\<lambda>tp. is_valid (fst tp)) tps \<longrightarrow> List.map_filter row_target ms = tps)"
  using assms(2)
proof (induction tps arbitrary: i d)
  case (Cons tp tps)
  let ?m = "new_row r c now (addr_string (fst tp)) (snd tp) i"
  obtain v d1 where ins: "db_insert db ?m d = (Inr v, d1)"
    and rest: "insert_targets db r c now (i + 1) tps d1 = (Inr u, d')"
    using Cons.prems by (cases "db_insert db ?m d"; cases "fst (db_insert db ?m d)") auto
  obtain k where k: "rows d1 = rows d @ [?m\<lparr>row_id := k\<rparr>]" using sql_insert [OF assms(1) ins] by blast
  obtain ms where ms: "rows d' = rows d1 @ ms" "map row_priority ms = [i + 1..i + 1 + int (length tps) - 1]"
    "\<forall>m \<in> set ms. row_domain m = rec_domain r \<and> row_instance_id m = rec_instance_id r \<and> row_created_at m = c"
    "list_all (\<lambda>tp. is_valid (fst tp)) tps \<longrightarrow> List.map_filter row_target ms = tps"
    using Cons.IH [OF rest] by blast
  have "[i..i + int (length (tp # tps)) - 1] = i # [i + 1..i + 1 + int (length tps) - 1]"
    by (subst upto_rec1) (simp_all add: algebra_simps)
  then show ?case
    using k ms by (intro exI [of _ "?m\<lparr>row_id := k\<rparr> # ms"])
      (simp add: row_target_new List.map_filter_simps, simp add: new_row_def)
qed simp

lemma create_tx_rows:
  assumes "sql_laws db rows" "create_tx db now r d = (Inr u, d')"
  shows "\<exists>ms. rows d' = filter (\<lambda>m. row_domain m \<noteq> rec_domain r) (rows d) @ ms \<and>
    rows_for r (case db_select_first db (rec_domain r) d of Inl e \<Rightarrow> now | Inr m \<Rightarrow> row_created_at m) ms"
proof -
  let ?c = "case db_select_first db (rec_domain r) d of Inl e \<Rightarrow> now | Inr m \<Rightarrow> row_created_at m"
  obtain res d1 where del: "db_delete_domain db (rec_domain r) d = (res, d1)" by fastforce
  then obtain n where n: "res = Inr n" using assms(2) by (cases res) (auto simp: create_tx_def)
  have d1: "rows d1 = filter (\<lambda>m. row_domain m \<noteq> rec_domain r) (rows d)"
    using sql_delete_rows [OF assms(1)] del n by blast
  show ?thesis
  proof (cases "rec_targets r = []")
    case True
    then have "db_insert db (new_row r ?c now [] 0 0) d1 = (Inr u, d')"
      using assms(2) del n by (simp add: create_tx_def)
    from sql_insert [OF assms(1) this] obtain k
      where "rows d' = rows d1 @ [(new_row r ?c now [] 0 0)\<lparr>row_id := k\<rparr>]" by blast
    with d1 True show ?thesis
      by (auto simp: rows_for_def new_row_def row_target_def List.map_filter_simps)
  next
    case False
    then have "insert_targets db r ?c now 0 (rec_targets r) d1 = (Inr u, d')"
      using assms(2) del n by (simp add: create_tx_def)
    from insert_targets_rows [OF assms(1) this] obtain ms where
      ms: "rows d' = rows d1 @ ms" "map row_priority ms = [0..0 + int (length (rec_targets r)) - 1]"
      "\<forall>m \<in> set ms. row_domain m = rec_domain r \<and> row_instance_id m = rec_instance_id r \<and> row_created_at m = ?c"
      "list_all (\<lambda>tp. is_valid (fst tp)) (rec_targets r) \<longrightarrow> List.map_filter row_target ms = rec_targets r"
      by blast
    have "ms \<noteq> []"
    proof
      assume "ms = []"
      with ms(2) have "[0..int (length (rec_targets r)) - 1] = []" by simp
      with False show False by simp
    qed
    with d1 ms show ?thesis by (auto simp: rows_for_def)
  qed
qed

section \<open>The contract\<close>

definition storable_target :: "addr_port \<Rightarrow> bool" where
  "storable_target tp \<longleftrightarrow> is_valid (fst tp)"

lemma rows_for_content:
  assumes "rows_for r c ms" "list_all storable_target (rec_targets r)"
  shows "sql_content (filter (\<lambda>m. row_domain m \<noteq> rec_domain r) ms0 @ ms) =
         (sql_content ms0)(rec_domain r \<mapsto> rec_entry r)"
proof (rule ext)
  fix d
  have all: "domain_rows (rec_domain r) ms = ms" "d \<noteq> rec_domain r \<Longrightarrow> domain_rows d ms = []"
    using assms(1) by (auto simp: rows_for_def domain_rows_def filter_empty_conv)
  have "sort_key row_priority ms = ms" using assms(1) by (simp add: rows_for_def sort_key_id_if_sorted)
  moreover have "List.map_filter row_target ms = rec_targets r" "row_instance_id (hd ms) = rec_instance_id r" "ms \<noteq> []"
    using assms hd_in_set [of ms] by (auto simp: rows_for_def storable_target_def list_all_iff)
  ultimately show "sql_content (filter (\<lambda>m. row_domain m \<noteq> rec_domain r) ms0 @ ms) d =
      ((sql_content ms0)(rec_domain r \<mapsto> rec_entry r)) d"
    using all by (cases "d = rec_domain r") (simp_all add: sql_content_def domain_rows_other rec_entry_def)
qed

lemma rows_for_invar:
  assumes "rows_for r c ms" "sql_invar ms0"
  shows "sql_invar (filter (\<lambda>m. row_domain m \<noteq> rec_domain r) ms0 @ ms)"
proof -
  let ?f = "filter (\<lambda>m. row_domain m \<noteq> rec_domain r) ms0"
  have "distinct (map row_priority (domain_rows d (?f @ ms)))" for d
  proof (cases "d = rec_domain r")
    case True
    then have "domain_rows d ms = ms" using assms(1) by (auto simp: rows_for_def domain_rows_def)
    with True assms(1) show ?thesis by (simp add: rows_for_def)
  next
    case False
    then have "domain_rows d ms = []" using assms(1) by (auto simp: rows_for_def domain_rows_def filter_empty_conv)
    with False assms(2) show ?thesis by (simp add: domain_rows_other sql_invar_def)
  qed
  moreover have "row_instance_id m = row_instance_id m'"
    if m: "m \<in> set (?f @ ms)" "m' \<in> set (?f @ ms)" "row_domain m = row_domain m'" for m m'
  proof (cases "row_domain m = rec_domain r")
    case True
    with m have "m \<in> set ms" "m' \<in> set ms" by auto
    with assms(1) show ?thesis by (simp add: rows_for_def)
  next
    case False
    then have "row_domain m \<noteq> rec_domain r" "row_domain m' \<noteq> rec_domain r" using m(3) by simp_all
    moreover have "\<forall>m \<in> set ms. row_domain m = rec_domain r" using assms(1) by (simp add: rows_for_def)
    ultimately have "m \<notin> set ms" "m' \<notin> set ms" by blast+
    then have "m \<in> set ms0" "m' \<in> set ms0" using m(1,2) by simp_all
    then show ?thesis using m(3) assms(2) unfolding sql_invar_def by blast
  qed
  ultimately show ?thesis unfolding sql_invar_def by blast
qed

lemma run_in_tx_cases:
  assumes "run_in_tx db body d = (res, d')"
  obtains e where "res = Inl e" "d' = d" | x where "res = Inr x" "body d = (Inr x, d')"
proof (cases "db_begin db d")
  case (Inr u)
  obtain bres d1 where b: "body d = (bres, d1)" by fastforce
  show thesis
  proof (cases bres)
    case (Inr x)
    then show thesis using that assms b \<open>db_begin db d = Inr u\<close>
      by (cases "db_commit db d1") (auto simp: run_in_tx_def)
  qed (use that assms b Inr in \<open>auto simp: run_in_tx_def\<close>)
qed (use that assms in \<open>auto simp: run_in_tx_def\<close>)

text \<open>A \<open>Create\<close> either changes nothing or replaces the rows of its domain by those of the record.\<close>

lemma sql_create_cases:
  assumes "sql_laws db rows" "sql_create db now ro d = (res, d')"
  obtains e where "res = Inl e" "d' = d"
  | r ms where "ro = Some r" "res = Inr r"
      "rows d' = filter (\<lambda>m. row_domain m \<noteq> rec_domain r) (rows d) @ ms"
      "rows_for r (case db_select_first db (rec_domain r) d of Inl e \<Rightarrow> now | Inr m \<Rightarrow> row_created_at m) ms"
proof (cases ro)
  case (Some r)
  show thesis
  proof (cases "trim_space (rec_domain r) = []")
    case False
    obtain tres d1 where tx: "run_in_tx db (create_tx db now r) d = (tres, d1)" by fastforce
    then show thesis
    proof (cases rule: run_in_tx_cases)
      case (2 x)
      then show thesis
        using that(2) create_tx_rows [OF assms(1) 2(2)] assms(2) Some False tx by (auto simp: sql_create_def)
    qed (use that(1) assms(2) Some False tx in \<open>auto simp: sql_create_def\<close>)
  qed (use that(1) assms(2) Some in \<open>auto simp: sql_create_def\<close>)
qed (use that(1) assms(2) in \<open>auto simp: sql_create_def\<close>)

lemma sql_delete_cases:
  assumes "sql_laws db rows" "sql_delete db dn d = (res, d')"
  obtains e where "res = Inl e" "rows d' = rows d \<or> rows d' = filter (\<lambda>m. row_domain m \<noteq> dn) (rows d)"
  | "res = Inr ()" "domain_rows dn (rows d) \<noteq> []" "rows d' = filter (\<lambda>m. row_domain m \<noteq> dn) (rows d)"
proof -
  obtain r d1 where del: "db_delete_domain db dn d = (r, d1)" by fastforce
  show thesis
  proof (cases r)
    case (Inl e)
    then show thesis using that(1) del assms(2) sql_delete_err [OF assms(1)] by (auto simp: sql_delete_def)
  next
    case (Inr n)
    note rows = sql_delete_rows [OF assms(1) del [unfolded Inr]]
    show thesis
    proof (cases n)
      case (Inl e)
      then show thesis using that(1) del Inr rows assms(2) \<open>r = Inr n\<close> by (auto simp: sql_delete_def)
    next
      case (Inr k)
      then show thesis using that del rows assms(2) \<open>r = Inr n\<close>
        by (cases "k = 0") (auto simp: sql_delete_def)
    qed
  qed
qed

lemma sql_content_instance:
  assumes "sql_invar ms"
  shows "sql_content (filter (\<lambda>m. row_instance_id m \<noteq> i) ms) d =
    (case sql_content ms d of None \<Rightarrow> None | Some e \<Rightarrow> if fst e = i then None else Some e)"
proof (cases "domain_rows d ms = []")
  case True
  then show ?thesis by (auto simp: sql_content_def domain_rows_def filter_empty_conv)
next
  case False
  let ?ms = "domain_rows d ms"
  let ?s = "sort_key row_priority ?ms"
  have "?s \<noteq> []" using False by (metis set_empty set_sort)
  then have h: "hd ?s \<in> set ?ms" by (metis hd_in_set set_sort)
  have same: "row_instance_id m = row_instance_id (hd ?s)" if "m \<in> set ?ms" for m
    using assms h that by (auto simp: sql_invar_def domain_rows_def)
  have swap: "domain_rows d (filter (\<lambda>m. row_instance_id m \<noteq> i) ms) = filter (\<lambda>m. row_instance_id m \<noteq> i) ?ms"
    by (simp add: domain_rows_def conj_commute)
  show ?thesis
  proof (cases "row_instance_id (hd ?s) = i")
    case True
    then have "filter (\<lambda>m. row_instance_id m \<noteq> i) ?ms = []" using same by (simp add: filter_empty_conv)
    then show ?thesis using True \<open>?s \<noteq> []\<close> by (simp add: sql_content_def swap)
  next
    case False
    then have "filter (\<lambda>m. row_instance_id m \<noteq> i) ?ms = ?ms" using same by (simp add: filter_id_conv)
    then show ?thesis using False \<open>?s \<noteq> []\<close> by (simp add: sql_content_def swap Let_def)
  qed
qed

theorem sql_record_repository:
  assumes "sql_laws db rows"
  shows "record_repository (sql_repo db) (\<lambda>d. sql_content (rows d)) (\<lambda>d. sql_invar (rows d)) storable_target"
proof
  fix d rs
  assume inv: "sql_invar (rows d)" and f: "repo_find (sql_repo db) d = Inr rs"
  then obtain ms where sel: "db_select_all db d = Inr ms" and rs: "rs = group_models ms"
    by (auto simp: sql_repo_def sql_find_def split: sum.splits)
  note ms = sql_select_all [OF assms sel]
  have "entries_of (group_models ms) dn = sql_content (rows d) dn" for dn
    using sql_content_grouped [OF conjunct2 [OF ms] mset_domain_rows [OF conjunct1 [OF ms]] inv]
    by (simp add: group_models_entries)
  then show "distinct (map rec_domain rs) \<and> entries_of rs = sql_content (rows d)"
    by (simp add: rs group_models_domains fun_eq_iff)
next
  fix d dn x
  assume inv: "sql_invar (rows d)" and f: "repo_find_by_domain (sql_repo db) dn d = Inr x"
  then obtain ms where sel: "db_select_domain db dn d = Inr ms" "ms \<noteq> []" and x: "x = hd (group_models ms)"
    by (auto simp: sql_repo_def sql_find_by_domain_def split: sum.splits if_splits)
  note ms = sql_select_domain [OF assms sel(1)]
  have dn: "row_domain m = dn" if "m \<in> set ms" for m
    using mset_eq_setD [OF conjunct1 [OF ms]] that by (simp add: domain_rows_def)
  then have dms: "domain_rows dn ms = ms" by (simp add: domain_rows_def)
  have "group_models ms \<noteq> []" using sel(2) by (simp add: group_models_eq)
  then have "x \<in> set (group_models ms)" unfolding x by (rule hd_in_set)
  then obtain m where m: "m \<in> set ms" "x = group_of (row_domain m) ms" unfolding group_models_eq by auto
  then have mem: "rec_domain x = dn" "x = group_of dn ms" using dn by auto
  have "mset (domain_rows dn ms) = mset (domain_rows dn (rows d))" using ms dms by simp
  with mem show "rec_domain x = dn \<and> sql_content (rows d) dn = Some (rec_entry x)"
    using sql_content_grouped [OF conjunct2 [OF ms] _ inv] dms sel(2) mem by simp
next
  fix now d
  show "repo_create (sql_repo db) now None d = (Inl ErrRecordNil, d)"
    by (simp add: sql_repo_def sql_create_def)
next
  fix x now d
  show "trim_space (rec_domain x) = [] \<Longrightarrow> repo_create (sql_repo db) now (Some x) d = (Inl ErrDomainRequired, d)"
    by (simp add: sql_repo_def sql_create_def)
next
  fix d x now x' d'
  assume inv: "sql_invar (rows d)" and st: "list_all storable_target (rec_targets x)"
    and "repo_create (sql_repo db) now (Some x) d = (Inr x', d')"
  then have "sql_create db now (Some x) d = (Inr x', d')" by (simp add: sql_repo_def)
  then show "sql_content (rows d') = (sql_content (rows d))(rec_domain x \<mapsto> rec_entry x) \<and>
      rec_domain x' = rec_domain x \<and> rec_entry x' = rec_entry x"
    by (cases rule: sql_create_cases [OF assms]) (use st in \<open>auto simp: rows_for_content\<close>)
next
  fix d dn d'
  assume "sql_invar (rows d)" "repo_delete (sql_repo db) dn d = (Inr (), d')"
  then have "sql_delete db dn d = (Inr (), d')" by (simp add: sql_repo_def)
  then show "sql_content (rows d) dn \<noteq> None \<and> sql_content (rows d') = (sql_content (rows d))(dn := None)"
    by (cases rule: sql_delete_cases [OF assms])
       (auto simp: fun_eq_iff sql_content_None, auto simp: sql_content_def domain_rows_other)
next
  fix d i d'
  assume inv: "sql_invar (rows d)" and "repo_delete_by_instance_id (sql_repo db) i d = (Inr (), d')"
  then obtain n where "db_delete_instance db i d = (Inr n, d')"
    by (auto simp: sql_repo_def sql_delete_by_instance_id_def split: sum.splits prod.splits)
  note rows = sql_delete_instance [OF assms this]
  show "sql_content (rows d') = (\<lambda>dn. case sql_content (rows d) dn of
      None \<Rightarrow> None | Some e \<Rightarrow> if fst e = i then None else Some e)"
    unfolding rows by (rule ext) (rule sql_content_instance [OF inv])
next
  fix d now xo
  assume inv: "sql_invar (rows d)"
  obtain res d' where "sql_create db now xo d = (res, d')" by fastforce
  then show "sql_invar (rows (snd (repo_create (sql_repo db) now xo d)))"
    by (cases rule: sql_create_cases [OF assms]) (use inv in \<open>auto simp: sql_repo_def rows_for_invar\<close>)
next
  fix d dn
  assume inv: "sql_invar (rows d)"
  obtain res d' where "sql_delete db dn d = (res, d')" by fastforce
  then show "sql_invar (rows (snd (repo_delete (sql_repo db) dn d)))"
    by (cases rule: sql_delete_cases [OF assms]) (use inv in \<open>auto simp: sql_repo_def sql_invar_filter\<close>)
next
  fix d i
  assume inv: "sql_invar (rows d)"
  obtain res d' where del: "db_delete_instance db i d = (res, d')" by fastforce
  then show "sql_invar (rows (snd (repo_delete_by_instance_id (sql_repo db) i d)))"
    using inv sql_delete_instance [OF assms] sql_delete_instance_err [OF assms]
    by (cases res) (auto simp: sql_repo_def sql_delete_by_instance_id_def sql_invar_filter)
qed

section \<open>A table in memory\<close>

text \<open>A counter of the statements that may still write; at 0 every further one fails.\<close>

record table =
  tbl_rows :: "row list"
  tbl_next :: int64
  tbl_writes :: nat

definition tbl_write :: "(table \<Rightarrow> 'a \<times> table) \<Rightarrow> table \<Rightarrow> (error + 'a) \<times> table" where
  "tbl_write f t =
     (if tbl_writes t = 0 then (Inl (ErrExternal ''database is read-only''), t)
      else let (x, t) = f (t\<lparr>tbl_writes := tbl_writes t - 1\<rparr>) in (Inr x, t))"

definition table_db :: "table db_ops" where
  "table_db =
     \<lparr>db_select_all = (\<lambda>t. Inr (sort_key row_priority (tbl_rows t))),
      db_select_domain = (\<lambda>d t. Inr (sort_key row_priority (domain_rows d (tbl_rows t)))),
      db_select_first = (\<lambda>d t. case find (\<lambda>m. row_domain m = d) (tbl_rows t) of
         None \<Rightarrow> Inl (ErrExternal ''sql: no rows in result set'') | Some m \<Rightarrow> Inr m),
      db_insert = (\<lambda>m. tbl_write (\<lambda>t. ((),
         t\<lparr>tbl_rows := tbl_rows t @ [m\<lparr>row_id := tbl_next t\<rparr>], tbl_next := tbl_next t + 1\<rparr>))),
      db_delete_domain = (\<lambda>d. tbl_write (\<lambda>t.
         (Inr (length (domain_rows d (tbl_rows t))),
          t\<lparr>tbl_rows := filter (\<lambda>m. row_domain m \<noteq> d) (tbl_rows t)\<rparr>))),
      db_delete_instance = (\<lambda>i. tbl_write (\<lambda>t.
         (Inr (length (filter (\<lambda>m. row_instance_id m = i) (tbl_rows t))),
          t\<lparr>tbl_rows := filter (\<lambda>m. row_instance_id m \<noteq> i) (tbl_rows t)\<rparr>))),
      db_begin = (\<lambda>t. Inr ()), db_commit = (\<lambda>t. Inr ()), db_close = (\<lambda>t. (Inr (), t))\<rparr>"

definition empty_table :: table where
  "empty_table = \<lparr>tbl_rows = [], tbl_next = 1, tbl_writes = 1000\<rparr>"

lemma ordered_sorted: "sorted (map row_priority ms) \<Longrightarrow> ordered_rows ms"
  unfolding ordered_rows_def sorted_map by (rule sorted_wrt_mono_rel) auto

lemma table_laws: "sql_laws table_db tbl_rows"
  unfolding sql_laws_def
  by (auto simp: table_db_def tbl_write_def ordered_sorted Let_def domain_rows_def
      split: option.splits if_splits dest!: find_SomeD)

interpretation sql_table: record_repository "sql_repo table_db" "\<lambda>t. sql_content (tbl_rows t)"
    "\<lambda>t. sql_invar (tbl_rows t)" storable_target
  by (rule sql_record_repository [OF table_laws])

section \<open>The time of creation\<close>

text \<open>All the rows of a domain carry one time of creation, which an update keeps.\<close>

definition created_once :: "row list \<Rightarrow> bool" where
  "created_once ms \<longleftrightarrow>
     (\<forall>m \<in> set ms. \<forall>m' \<in> set ms. row_domain m = row_domain m' \<longrightarrow> row_created_at m = row_created_at m')"

lemma sql_create_created_at:
  assumes "sql_laws db rows" "created_once (rows d)" "sql_create db now (Some r) d = (Inr r', d')"
    "db_select_first db (rec_domain r) d = Inr m0" "m \<in> set (domain_rows (rec_domain r) (rows d))"
    "m' \<in> set (domain_rows (rec_domain r) (rows d'))"
  shows "row_created_at m' = row_created_at m"
proof (rule sql_create_cases [OF assms(1,3)])
  fix x ms
  assume x: "Some r = Some x" "Inr r' = Inr x" "rows d' = filter (\<lambda>m. row_domain m \<noteq> rec_domain x) (rows d) @ ms"
    "rows_for x (case db_select_first db (rec_domain x) d of Inl e \<Rightarrow> now | Inr m \<Rightarrow> row_created_at m) ms"
  then have "m' \<in> set ms" using assms(6) by (auto simp: domain_rows_def)
  then have "row_created_at m' = row_created_at m0" using x assms(4) by (simp add: rows_for_def)
  moreover have "m0 \<in> set (domain_rows (rec_domain r) (rows d))" by (rule sql_select_first [OF assms(1,4)])
  ultimately show ?thesis using assms(2,5) by (simp add: created_once_def domain_rows_def)
qed (use assms in auto)

end
