(* ===== verification/Go_Json.thy ===== *)
theory Go_Json
  imports Go_Strconv Utf8
begin

text \<open>
  What the code uses of \<open>encoding/json\<close>: values as a datatype, their compact text, the
  parser with its limit on nesting, and \<open>json.Unmarshal\<close> into a \<open>[]string\<close>. Decoding
  returns \<open>None\<close> where the library returns an error.
\<close>

section \<open>Encoding\<close>

definition hex_digit :: "nat \<Rightarrow> char" where
  "hex_digit n = (if n < 10 then char_of (48 + n) else char_of (87 + n))"

definition escape_ascii :: "char \<Rightarrow> string" where
  "escape_ascii c =
     (let n = (of_char c :: nat) in
      if c = CHR 0x22 \<or> c = CHR 0x5C then [CHR 0x5C, c]
      else if n = 8 then [CHR 0x5C, CHR ''b'']
      else if n = 12 then [CHR 0x5C, CHR ''f'']
      else if n = 10 then [CHR 0x5C, CHR ''n'']
      else if n = 13 then [CHR 0x5C, CHR ''r'']
      else if n = 9 then [CHR 0x5C, CHR ''t'']
      else if n < 0x20 \<or> c = CHR ''<'' \<or> c = CHR ''>'' \<or> c = CHR ''&''
        then CHR 0x5C # ''u00'' @ [hex_digit (n div 16), hex_digit (n mod 16)]
      else [c])"

text \<open>One chunk of a string: a byte of ASCII, a valid sequence, or a byte that is neither.\<close>

definition escape_chunk :: "string \<Rightarrow> string" where
  "escape_chunk w =
     (if length w = 1 \<and> (of_char (hd w) :: nat) < 0x80 then escape_ascii (hd w)
      else if \<not> valid_chunk w then CHR 0x5C # ''ufffd''
      else if rune_of w = 0x2028 then CHR 0x5C # ''u2028''
      else if rune_of w = 0x2029 then CHR 0x5C # ''u2029''
      else w)"

definition encode_string :: "string \<Rightarrow> string" where
  "encode_string s = [CHR 0x22] @ concat (map escape_chunk (chunks s)) @ [CHR 0x22]"

text \<open>
  A value; a number is its text, and a string is kept as its text between the quotes beside
  the bytes it stands for, because some decoders read the text.
\<close>

datatype json =
    JNull
  | JBool bool
  | JNum string
  | JStr string string
  | JArr "json list"
  | JObj "(string \<times> json) list"

definition escape_text :: "string \<Rightarrow> string" where
  "escape_text s = concat (map escape_chunk (chunks s))"

abbreviation json_str :: "string \<Rightarrow> json" where
  "json_str s \<equiv> JStr (escape_text s) s"

text \<open>\<open>json.Marshal\<close>.\<close>

fun encode_json :: "json \<Rightarrow> string" where
  "encode_json JNull = ''null''"
| "encode_json (JBool b) = (if b then ''true'' else ''false'')"
| "encode_json (JNum n) = n"
| "encode_json (JStr raw s) = [CHR 0x22] @ raw @ [CHR 0x22]"
| "encode_json (JArr vs) = ''['' @ join '','' (map encode_json vs) @ '']''"
| "encode_json (JObj ms) =
     ''{'' @ join '','' (map (\<lambda>(k, v). encode_string k @ '':'' @ encode_json v) ms) @ ''}''"

definition encode_strings :: "string list \<Rightarrow> string" where
  "encode_strings xs = encode_json (JArr (map json_str xs))"

section \<open>Decoding\<close>

definition is_json_space :: "char \<Rightarrow> bool" where
  "is_json_space c \<longleftrightarrow> c = CHR 0x20 \<or> c = CHR 0x09 \<or> c = CHR 0x0A \<or> c = CHR 0x0D"

definition skip_space :: "string \<Rightarrow> string" where
  "skip_space s = dropWhile is_json_space s"

definition json_hex :: "char \<Rightarrow> nat option" where
  "json_hex c =
     (let n = (of_char c :: nat) in
      if 48 \<le> n \<and> n \<le> 57 then Some (n - 48)
      else if 97 \<le> n \<and> n \<le> 102 then Some (n - 87)
      else if 65 \<le> n \<and> n \<le> 70 then Some (n - 55)
      else None)"

text \<open>Four hexadecimal digits at the front.\<close>

definition hex4 :: "string \<Rightarrow> (nat \<times> string) option" where
  "hex4 s =
     (case s of
        a # b # c # d # t \<Rightarrow>
          (case (json_hex a, json_hex b, json_hex c, json_hex d) of
             (Some w, Some x, Some y, Some z) \<Rightarrow> Some (((w * 16 + x) * 16 + y) * 16 + z, t)
           | _ \<Rightarrow> None)
      | _ \<Rightarrow> None)"

definition is_surrogate :: "nat \<Rightarrow> bool" where
  "is_surrogate n \<longleftrightarrow> 0xD800 \<le> n \<and> n \<le> 0xDFFF"

text \<open>\<open>utf8.AppendRune\<close>.\<close>

definition encode_rune :: "nat \<Rightarrow> string" where
  "encode_rune r =
     (if r < 0x80 then [char_of r]
      else if r < 0x800 then [char_of (0xC0 + r div 64), char_of (0x80 + r mod 64)]
      else if r > 0x10FFFF \<or> is_surrogate r then [CHR 0xEF, CHR 0xBF, CHR 0xBD]
      else if r < 0x10000 then
        [char_of (0xE0 + r div 4096), char_of (0x80 + r div 64 mod 64), char_of (0x80 + r mod 64)]
      else
        [char_of (0xF0 + r div 262144), char_of (0x80 + r div 4096 mod 64),
         char_of (0x80 + r div 64 mod 64), char_of (0x80 + r mod 64)])"

text \<open>The escape after a backslash: the bytes it stands for and the text after it.\<close>

definition unescape :: "string \<Rightarrow> (string \<times> string) option" where
  "unescape s =
     (case s of
        [] \<Rightarrow> None
      | c # t \<Rightarrow>
          if c = CHR 0x22 \<or> c = CHR 0x5C \<or> c = CHR ''/'' then Some ([c], t)
          else if c = CHR ''b'' then Some ([CHR 0x08], t)
          else if c = CHR ''f'' then Some ([CHR 0x0C], t)
          else if c = CHR ''n'' then Some ([CHR 0x0A], t)
          else if c = CHR ''r'' then Some ([CHR 0x0D], t)
          else if c = CHR ''t'' then Some ([CHR 0x09], t)
          else if c = CHR ''u'' then
            (case hex4 t of
               None \<Rightarrow> None
             | Some (r, t) \<Rightarrow>
                 if \<not> is_surrogate r then Some (encode_rune r, t)
                 else (case (if has_prefix t [CHR 0x5C, CHR ''u''] then hex4 (drop 2 t) else None) of
                         Some (r2, t2) \<Rightarrow>
                           if r < 0xDC00 \<and> 0xDC00 \<le> r2 \<and> r2 \<le> 0xDFFF
                           then Some (encode_rune (0x10000 + (r - 0xD800) * 1024 + (r2 - 0xDC00)), t2)
                           else Some (encode_rune 0xFFFD, t)
                       | None \<Rightarrow> Some (encode_rune 0xFFFD, t)))
          else None)"

lemma hex4_shorter: "hex4 s = Some (r, t) \<Longrightarrow> length t < length s"
  by (auto simp: hex4_def split: list.splits option.splits)

lemma unescape_shorter:
  assumes "unescape s = Some (u, t)"
  shows "length t < length s"
proof (cases s)
  case (Cons c v)
  show ?thesis
  proof (cases "hex4 v")
    case None
    with assms Cons show ?thesis by (auto simp: unescape_def split: if_splits)
  next
    case (Some rt)
    obtain r v1 where rt: "rt = (r, v1)" by (cases rt)
    have v1: "length v1 < length v" using Some rt hex4_shorter by simp
    have v2: "hex4 (drop 2 v1) = Some (r2, t2) \<Longrightarrow> length t2 < length v" for r2 t2
      using hex4_shorter [of "drop 2 v1" r2 t2] v1 by simp
    show ?thesis
      using assms Cons Some rt v1 v2
      by (auto simp: unescape_def simp del: has_prefix_Cons split: if_splits option.splits)
  qed
qed (use assms in \<open>simp add: unescape_def\<close>)

text \<open>The text after the opening quote: the string and the text after the closing one.\<close>

function string_body :: "string \<Rightarrow> (string \<times> string) option" where
  "string_body s =
     (case s of
        [] \<Rightarrow> None
      | c # t \<Rightarrow>
          if c = CHR 0x22 then Some ([], t)
          else if c = CHR 0x5C then
            (case unescape t of
               None \<Rightarrow> None
             | Some (u, t') \<Rightarrow> map_option (apfst ((@) u)) (string_body t'))
          else if (of_char c :: nat) < 0x20 then None
          else if (of_char c :: nat) < 0x80 then map_option (apfst ((#) c)) (string_body t)
          else
            (let n = rune_width s; w = take n s
             in map_option (apfst ((@) (if valid_chunk w then w else encode_rune 0xFFFD)))
                  (string_body (drop n s))))"
  by pat_completeness auto
termination
proof (relation "measure length", goal_cases)
  case (2 s c t u)
  then show ?case using unescape_shorter by fastforce
next
  case (4 s c t n w)
  then show ?case by (simp add: rune_width_def)
qed simp_all

declare string_body.simps [simp del]

lemma string_body_shorter: "string_body s = Some (u, t) \<Longrightarrow> length t < length s"
proof (induction s arbitrary: u t rule: string_body.induct)
  case (1 s)
  show ?case
  proof (cases s)
    case (Cons c v)
    consider "c = CHR 0x22" | "c = CHR 0x5C" | "c \<noteq> CHR 0x22" "c \<noteq> CHR 0x5C" "\<not> (of_char c :: nat) < 0x20"
        "(of_char c :: nat) < 0x80"
      | "c \<noteq> CHR 0x22" "c \<noteq> CHR 0x5C" "\<not> (of_char c :: nat) < 0x20" "\<not> (of_char c :: nat) < 0x80"
      using 1(4) Cons string_body.simps [of "c # v"] by (auto split: if_splits)
    then show ?thesis
    proof cases
      case 2
      then obtain w t' u' where w: "unescape v = Some (w, t')" "string_body t' = Some (u', t)"
        using 1(4) Cons string_body.simps [of "CHR 0x5C # v"] by (auto split: option.splits)
      with 1(1) [OF Cons _ 2 w(1) refl] 2 unescape_shorter [OF w(1)] Cons show ?thesis by fastforce
    next
      case 3
      with 1(2) [OF Cons] 1(4) Cons show ?thesis by (fastforce simp: string_body.simps [of "c # v"])
    next
      case 4
      then obtain u' where "string_body (drop (rune_width s) s) = Some (u', t)"
        using 1(4) Cons by (auto simp: string_body.simps [of "c # v"] Let_def)
      with 1(3) [OF Cons _ _ _ _ refl refl] 4 have "length t < length (drop (rune_width s) s)" by blast
      then show ?thesis by simp
    qed (use 1(4) Cons string_body.simps [of "CHR 0x22 # v"] in simp)
  qed (use 1(4) in \<open>simp add: string_body.simps [of "[]"]\<close>)
qed

lemma skip_space_le: "length (skip_space s) \<le> length s"
  by (simp add: skip_space_def length_dropWhile_le)

text \<open>The text of a number at the front: a sign, an integer, a fraction, an exponent.\<close>

definition json_digits :: "string \<Rightarrow> string" where
  "json_digits s = takeWhile is_digit s"

definition json_int_part :: "string \<Rightarrow> string option" where
  "json_int_part s =
     (if has_prefix s ''0'' then Some ''0''
      else if json_digits s = [] then None else Some (json_digits s))"

definition json_fraction :: "string \<Rightarrow> string option" where
  "json_fraction s =
     (if has_prefix s ''.'' then
        (let ds = json_digits (drop 1 s) in if ds = [] then None else Some (CHR ''.'' # ds))
      else Some [])"

definition json_exponent :: "string \<Rightarrow> string option" where
  "json_exponent s =
     (if has_prefix s ''e'' \<or> has_prefix s ''E'' then
        (let t = drop 1 s;
             sgn = (if has_prefix t ''+'' \<or> has_prefix t ''-'' then take 1 t else []);
             ds = json_digits (drop (length sgn) t)
         in if ds = [] then None else Some (take 1 s @ sgn @ ds))
      else Some [])"

definition json_number :: "string \<Rightarrow> (string \<times> string) option" where
  "json_number s =
     (let sgn = (if has_prefix s ''-'' then ''-'' else []); t = drop (length sgn) s
      in case json_int_part t of
           None \<Rightarrow> None
         | Some n \<Rightarrow>
             (let t = drop (length n) t
              in case json_fraction t of
                   None \<Rightarrow> None
                 | Some f \<Rightarrow>
                     (let t = drop (length f) t
                      in case json_exponent t of
                           None \<Rightarrow> None
                         | Some e \<Rightarrow> Some (sgn @ n @ f @ e, drop (length e) t))))"

text \<open>
  Elements that \<open>p\<close> reads, separated by commas, up to the closing character. An element is
  never empty, so the comparison of the lengths only serves the termination.
\<close>

function json_list :: "char \<Rightarrow> (string \<Rightarrow> ('a \<times> string) option) \<Rightarrow> string \<Rightarrow> ('a list \<times> string) option" where
  "json_list close p s =
     (case p (skip_space s) of
        None \<Rightarrow> None
      | Some (x, t) \<Rightarrow>
          if length s < length t then None
          else
            (case skip_space t of
               [] \<Rightarrow> None
             | c # t \<Rightarrow>
                 if c = close then Some ([x], t)
                 else if c = CHR '','' then map_option (apfst ((#) x)) (json_list close p t)
                 else None))"
  by pat_completeness auto
termination
proof (relation "measure (\<lambda>(close, p, s). length s)", goal_cases)
  case (2 close p s y x t c t')
  then have "length t' < length (skip_space t)" "length t \<le> length s" by simp_all
  then show ?case using skip_space_le [of t] by simp
qed simp

declare json_list.simps [simp del]

definition json_list_or_empty ::
  "char \<Rightarrow> (string \<Rightarrow> ('a \<times> string) option) \<Rightarrow> string \<Rightarrow> ('a list \<times> string) option" where
  "json_list_or_empty close p s =
     (let t = skip_space s in if has_prefix t [close] then Some ([], drop 1 t) else json_list close p t)"

definition json_member :: "(string \<Rightarrow> (json \<times> string) option) \<Rightarrow> string \<Rightarrow> ((string \<times> json) \<times> string) option" where
  "json_member p s =
     (if has_prefix s [CHR 0x22] then
        (case string_body (drop 1 s) of
           None \<Rightarrow> None
         | Some (key, t) \<Rightarrow>
             (let t = skip_space t
              in if has_prefix t '':'' then map_option (apfst (Pair key)) (p (skip_space (drop 1 t))) else None))
      else None)"

text \<open>
  The value at the front, with the text after it; \<open>depth\<close> is how deep arrays and objects
  may still nest.
\<close>

fun json_value :: "nat \<Rightarrow> string \<Rightarrow> (json \<times> string) option" where
  "json_value depth s =
     (case s of
        [] \<Rightarrow> None
      | c # t \<Rightarrow>
          if c = CHR 0x22 then
            (case string_body t of
               None \<Rightarrow> None
             | Some (x, u) \<Rightarrow> Some (JStr (take (length t - length u - 1) t) x, u))
          else if c = CHR ''['' then
            (case depth of
               0 \<Rightarrow> None
             | Suc d \<Rightarrow> map_option (apfst JArr) (json_list_or_empty (CHR '']'') (json_value d) t))
          else if c = CHR ''{'' then
            (case depth of
               0 \<Rightarrow> None
             | Suc d \<Rightarrow> map_option (apfst JObj) (json_list_or_empty (CHR ''}'') (json_member (json_value d)) t))
          else if has_prefix s ''null'' then Some (JNull, drop 4 s)
          else if has_prefix s ''true'' then Some (JBool True, drop 4 s)
          else if has_prefix s ''false'' then Some (JBool False, drop 5 s)
          else map_option (apfst JNum) (json_number s))"

declare json_value.simps [simp del]

definition max_nesting_depth :: nat where
  "max_nesting_depth = 10000"

text \<open>A whole text, as \<open>Unmarshal\<close> reads it.\<close>

definition parse_json :: "string \<Rightarrow> json option" where
  "parse_json s =
     (case json_value max_nesting_depth (skip_space s) of
        None \<Rightarrow> None
      | Some (v, t) \<Rightarrow> if skip_space t = [] then Some v else None)"

text \<open>A value decoded into a string, whose old contents a null leaves.\<close>

definition json_string :: "string \<Rightarrow> json \<Rightarrow> string option" where
  "json_string old v =
     (case v of JStr raw s \<Rightarrow> Some s | JNull \<Rightarrow> Some old | _ \<Rightarrow> None)"

fun map_result :: "('a \<Rightarrow> 'b option) \<Rightarrow> 'a list \<Rightarrow> 'b list option" where
  "map_result f [] = Some []"
| "map_result f (x # xs) =
     (case f x of
        None \<Rightarrow> None
      | Some y \<Rightarrow> (case map_result f xs of None \<Rightarrow> None | Some ys \<Rightarrow> Some (y # ys)))"

definition decode_strings :: "string \<Rightarrow> string list option" where
  "decode_strings s =
     (case parse_json s of
        Some JNull \<Rightarrow> Some []
      | Some (JArr vs) \<Rightarrow> map_result (json_string []) vs
      | _ \<Rightarrow> None)"

section \<open>Round trip\<close>

text \<open>An escaped character of ASCII is read back as that character.\<close>

lemma json_hex_digit: "d < 16 \<Longrightarrow> json_hex (hex_digit d) = Some d"
  by (auto simp: json_hex_def hex_digit_def Let_def)

lemma hex4_digits:
  assumes "n < 256"
  shows "hex4 (CHR ''0'' # CHR ''0'' # hex_digit (n div 16) # hex_digit (n mod 16) # t) = Some (n, t)"
proof -
  have "json_hex (CHR ''0'') = Some 0" by (simp add: json_hex_def)
  then show ?thesis
    using assms json_hex_digit [of "n div 16"] json_hex_digit [of "n mod 16"] by (simp add: hex4_def)
qed

lemma string_body_ascii:
  assumes "(of_char c :: nat) < 0x80"
  shows "string_body (escape_ascii c @ t) = map_option (apfst ((#) c)) (string_body t)"
proof -
  let ?n = "of_char c :: nat"
  have esc: "string_body (CHR 0x5C # u @ t) = map_option (apfst ((#) c)) (string_body t)"
    if "unescape (u @ t) = Some ([c], t)" for u
    using that by (subst string_body.simps) (simp add: apfst_def map_prod_def)
  consider "c = CHR 0x22 \<or> c = CHR 0x5C" | "?n \<in> {8, 9, 10, 12, 13}"
    | "c \<noteq> CHR 0x22" "c \<noteq> CHR 0x5C" "?n \<notin> {8, 9, 10, 12, 13}" "?n < 0x20 \<or> c \<in> {CHR ''<'', CHR ''>'', CHR ''&''}"
    | "c \<noteq> CHR 0x22" "c \<noteq> CHR 0x5C" "\<not> ?n < 0x20" "c \<notin> {CHR ''<'', CHR ''>'', CHR ''&''}"
    by blast
  then show ?thesis
  proof cases
    case 1
    then have "unescape ([c] @ t) = Some ([c], t)" by (auto simp: unescape_def)
    with esc [of "[c]"] 1 show ?thesis by (auto simp: escape_ascii_def Let_def)
  next
    case 2
    have tab: "char_of (8 :: nat) = CHR 0x08" "char_of (9 :: nat) = CHR 0x09" "char_of (10 :: nat) = CHR 0x0A"
      "char_of (12 :: nat) = CHR 0x0C" "char_of (13 :: nat) = CHR 0x0D" by code_simp+
    have "char_of ?n \<in> char_of ` {8 :: nat, 9, 10, 12, 13}" using 2 by (rule imageI)
    then have "c \<in> {CHR 0x08, CHR 0x09, CHR 0x0A, CHR 0x0C, CHR 0x0D}"
      by (simp only: image_insert image_empty tab char_of_char)
    then consider "c = CHR 0x08" | "c = CHR 0x09" | "c = CHR 0x0A" | "c = CHR 0x0C" | "c = CHR 0x0D"
      by blast
    then show ?thesis
      by cases (use esc [of "''b''"] esc [of "''t''"] esc [of "''n''"] esc [of "''f''"] esc [of "''r''"] in
          \<open>simp_all add: escape_ascii_def unescape_def\<close>)
  next
    case 3
    have "hex4 (CHR ''0'' # CHR ''0'' # hex_digit (?n div 16) # hex_digit (?n mod 16) # t) = Some (?n, t)"
      by (rule hex4_digits) (use assms in simp)
    then have "unescape ((''u00'' @ [hex_digit (?n div 16), hex_digit (?n mod 16)]) @ t) = Some ([c], t)"
      using assms by (simp add: unescape_def is_surrogate_def encode_rune_def)
    note read = esc [OF this]
    have "escape_ascii c = CHR 0x5C # ''u00'' @ [hex_digit (?n div 16), hex_digit (?n mod 16)]"
      using 3 by (auto simp: escape_ascii_def Let_def)
    with read show ?thesis by simp
  next
    case 4
    then have "escape_ascii c = [c]" by (auto simp: escape_ascii_def Let_def)
    with 4 assms show ?thesis by (subst string_body.simps) simp
  qed
qed

text \<open>The text that survives: valid UTF-8 without the two separators that are escaped as runes.\<close>

definition json_chunk :: "string \<Rightarrow> bool" where
  "json_chunk w \<longleftrightarrow> valid_chunk w \<and> rune_of w \<notin> {0x2028, 0x2029}"

definition json_text :: "string \<Rightarrow> bool" where
  "json_text s \<longleftrightarrow> list_all json_chunk (chunks s)"

lemma json_text_ascii: "list_all (\<lambda>c. (of_char c :: nat) < 0x80) s \<Longrightarrow> json_text s"
  by (simp add: json_text_def utf8_valid_ascii)
     (auto simp: list_all_iff json_chunk_def valid_chunk_ascii rune_of_def)

lemma string_body_chunk:
  assumes j: "json_chunk w"
  shows "string_body (escape_chunk w @ t) = map_option (apfst ((@) w)) (string_body t)"
proof -
  have w: "valid_chunk w" and sep: "rune_of w \<noteq> 0x2028" "rune_of w \<noteq> 0x2029" using j by (auto simp: json_chunk_def)
  show ?thesis
  proof (cases "length w = 1")
    case True
    then obtain c where c: "w = [c]" by (cases w) auto
    with w have "(of_char c :: nat) < 0x80" by (auto simp: valid_chunk_def split: if_splits)
    with c string_body_ascii [of c t] show ?thesis by (simp add: escape_chunk_def apfst_def map_prod_def)
  next
    case long: False
    then obtain c v where cv: "w = c # v" using w by (cases w) (auto simp: valid_chunk_def)
    have c: "0x80 \<le> (of_char c :: nat)" using valid_chunk_long [OF w long] cv by simp
    have esc: "escape_chunk w = w" using w long sep by (simp add: escape_chunk_def)
    have "c \<noteq> CHR 0x22" "c \<noteq> CHR 0x5C" using c by auto
    then have "string_body (w @ t) = (let n = rune_width (w @ t); w' = take n (w @ t)
             in map_option (apfst ((@) (if valid_chunk w' then w' else encode_rune 0xFFFD)))
                  (string_body (drop n (w @ t))))"
      using c unfolding cv by (subst string_body.simps) simp
    then show ?thesis using w by (simp add: esc Let_def rune_width_append)
  qed
qed

lemma string_body_encoded:
  "list_all json_chunk ws \<Longrightarrow> string_body (concat (map escape_chunk ws) @ CHR 0x22 # t) = Some (concat ws, t)"
proof (induction ws)
  case Nil
  show ?case by (subst string_body.simps) simp
qed (simp add: string_body_chunk)

text \<open>What follows a value inside a text: its end, a space, or the punctuation of a list.\<close>

definition json_stop :: "string \<Rightarrow> bool" where
  "json_stop t \<longleftrightarrow> t = [] \<or> hd t \<in> {CHR '','', CHR '']'', CHR ''}''} \<or> is_json_space (hd t)"

lemma json_stop_simps [simp]: "json_stop []" "json_stop (CHR '','' # t)" "json_stop (CHR '']'' # t)"
  "json_stop (CHR ''}'' # t)"
  by (simp_all add: json_stop_def)

lemma json_stop_digit: "json_stop t \<Longrightarrow> t = [] \<or> \<not> is_digit (hd t) \<and> hd t \<notin> set ''.eE''"
  by (auto simp: json_stop_def is_digit_def is_json_space_def)

lemma takeWhile_digits: "\<lbrakk>list_all is_digit ds; t = [] \<or> \<not> is_digit (hd t)\<rbrakk> \<Longrightarrow> json_digits (ds @ t) = ds"
  unfolding json_digits_def by (cases t) (auto simp: list_all_iff takeWhile_append2)

lemma dec_hd: "hd (dec n) = CHR ''0'' \<Longrightarrow> n = 0"
proof (induction n rule: dec.induct)
  case (1 n)
  show ?case
  proof (cases "n < 10")
    case True
    with 1(2) have "digit_char n = CHR ''0''" by (simp add: dec_small)
    then have "(of_char (digit_char n) :: nat) = 48" by simp
    with True show ?thesis by simp
  next
    case False
    then have "dec n = dec (n div 10) @ [digit_char (n mod 10)]" by (intro dec_big) simp
    with 1(2) have "hd (dec (n div 10)) = CHR ''0''" by (metis dec_nonempty hd_append2)
    with 1(1) False have "n div 10 = 0" by blast
    with False show ?thesis by simp
  qed
qed

lemma json_int_dec: "t = [] \<or> \<not> is_digit (hd t) \<Longrightarrow> json_int_part (dec n @ t) = Some (dec n)"
proof (cases "n = 0")
  case True
  have "digit_char 0 = CHR ''0''" by code_simp
  with True show ?thesis by (simp add: json_int_part_def dec_small)
next
  case False
  assume "t = [] \<or> \<not> is_digit (hd t)"
  then have "json_digits (dec n @ t) = dec n" by (rule takeWhile_digits [OF dec_digits])
  moreover have "hd (dec n @ t) \<noteq> CHR ''0''" using False dec_hd by auto
  ultimately show ?thesis by (simp add: json_int_part_def)
qed

lemma json_number_itoa: "json_stop t \<Longrightarrow> json_number (itoa i @ t) = Some (itoa i, t)"
proof -
  assume "json_stop t"
  then have t: "t = [] \<or> \<not> is_digit (hd t)" "t = [] \<or> hd t \<notin> set ''.eE''" using json_stop_digit by blast+
  then have rest: "json_fraction t = Some []" "json_exponent t = Some []"
    by (auto simp: json_fraction_def json_exponent_def)
  have "hd (dec n) \<noteq> CHR ''-''" for n using dec_set [OF hd_in_set [OF dec_nonempty]] is_digit_neq by blast
  then have "has_prefix (dec n @ t) ''-'' \<longleftrightarrow> False" for n by simp
  then show ?thesis
    unfolding json_number_def itoa_def
    by (cases "i < 0") (simp_all add: json_int_dec [OF t(1)] rest del: has_prefix_Cons, simp add: has_prefix_def)
qed

text \<open>The values whose text is read back; numbers are integers here.\<close>

fun json_ok :: "nat \<Rightarrow> json \<Rightarrow> bool" where
  "json_ok d JNull = True"
| "json_ok d (JBool b) = True"
| "json_ok d (JNum n) = (\<exists>i. n = itoa i)"
| "json_ok d (JStr raw s) = (raw = escape_text s \<and> json_text s)"
| "json_ok d (JArr vs) = (0 < d \<and> (\<forall>v \<in> set vs. json_ok (d - 1) v))"
| "json_ok d (JObj ms) = (0 < d \<and> (\<forall>m \<in> set ms. json_text (fst m) \<and> json_ok (d - 1) (snd m)))"

definition value_start :: "char \<Rightarrow> bool" where
  "value_start c \<longleftrightarrow> \<not> is_json_space c \<and> c \<notin> {CHR '']'', CHR ''}'', CHR '',''}"

lemma skip_space_start: "s \<noteq> [] \<Longrightarrow> \<not> is_json_space (hd s) \<Longrightarrow> skip_space s = s"
  by (cases s) (simp_all add: skip_space_def)

lemma json_list_printed:
  assumes "xs \<noteq> []" "close \<in> {CHR '']'', CHR ''}''}"
    and "\<And>x t. \<lbrakk>x \<in> set xs; json_stop t\<rbrakk> \<Longrightarrow> p (enc x @ t) = Some (x, t)"
    and "\<And>x. x \<in> set xs \<Longrightarrow> enc x \<noteq> [] \<and> value_start (hd (enc x))"
  shows "json_list close p (join '','' (map enc xs) @ close # t) = Some (xs, t)"
  using assms(1,3,4)
proof (induction xs)
  case (Cons x xs)
  have punct: "skip_space (CHR '','' # u) = CHR '','' # u" "skip_space (close # u) = close # u" "json_stop (close # u)"
    "close \<noteq> CHR '',''" for u
    using assms(2) by (auto simp: skip_space_def is_json_space_def)
  have start: "skip_space (enc x @ u) = enc x @ u" for u
    using Cons.prems(3) [of x] by (intro skip_space_start) (auto simp: value_start_def)
  show ?case
  proof (cases xs)
    case Nil
    with Cons.prems(2) [of x "close # t"] start punct show ?thesis by (subst json_list.simps) simp
  next
    case (Cons y ys)
    with Cons.IH Cons.prems Cons.prems(2) [of x "CHR '','' # u" for u] start punct show ?thesis
      by (subst json_list.simps) (simp add: join_Cons)
  qed
qed simp

lemma json_list_or_empty_printed:
  assumes "close \<in> {CHR '']'', CHR ''}''}"
    and "\<And>x t. \<lbrakk>x \<in> set xs; json_stop t\<rbrakk> \<Longrightarrow> p (enc x @ t) = Some (x, t)"
    and "\<And>x. x \<in> set xs \<Longrightarrow> enc x \<noteq> [] \<and> value_start (hd (enc x))"
  shows "json_list_or_empty close p (join '','' (map enc xs) @ close # t) = Some (xs, t)"
proof (cases xs)
  case Nil
  then show ?thesis using assms(1) by (auto simp: json_list_or_empty_def skip_space_def is_json_space_def)
next
  case (Cons x ys)
  then obtain c u where c: "join '','' (map enc xs) = c # u" "value_start c"
    using assms(3) [of x] by (cases ys; cases "enc x") auto
  then have "skip_space (c # u @ close # t) = c # u @ close # t" "c \<noteq> close"
    using assms(1) by (auto simp: skip_space_def value_start_def)
  with json_list_printed [of xs close p enc t, OF _ assms] Cons c show ?thesis
    by (simp add: json_list_or_empty_def)
qed

lemma encode_json_start: "json_ok d v \<Longrightarrow> encode_json v \<noteq> [] \<and> value_start (hd (encode_json v))"
proof (cases v)
  case (JNum n)
  moreover assume "json_ok d v"
  ultimately obtain i where "n = itoa i" by auto
  moreover have "hd (itoa i) = CHR ''-'' \<or> is_digit (hd (itoa i))"
    using dec_set [OF hd_in_set [OF dec_nonempty]] by (auto simp: itoa_def)
  ultimately show ?thesis using JNum by (auto simp: value_start_def is_json_space_def is_digit_def itoa_def)
qed (auto simp: value_start_def is_json_space_def)

lemma json_member_printed:
  assumes "json_text k" "\<And>t. json_stop t \<Longrightarrow> p (encode_json v @ t) = Some (v, t)" "json_ok d v" "json_stop t"
  shows "json_member p ((encode_string k @ '':'' @ encode_json v) @ t) = Some ((k, v), t)"
proof -
  have "string_body (concat (map escape_chunk (chunks k)) @ CHR 0x22 # u) = Some (k, u)" for u
    using string_body_encoded [of "chunks k"] assms(1) by (simp add: json_text_def)
  moreover have "skip_space (CHR '':'' # u) = CHR '':'' # u" for u by (simp add: skip_space_def is_json_space_def)
  moreover have "skip_space (encode_json v @ t) = encode_json v @ t"
    using encode_json_start [OF assms(3)] by (intro skip_space_start) (auto simp: value_start_def)
  ultimately show ?thesis using assms(2) [OF assms(4)] by (simp add: json_member_def encode_string_def)
qed

lemma json_value_encoded: "\<lbrakk>json_ok d v; json_stop t\<rbrakk> \<Longrightarrow> json_value d (encode_json v @ t) = Some (v, t)"
proof (induction v arbitrary: d t rule: encode_json.induct)
  case (3 n)
  then obtain i where i: "n = itoa i" by auto
  have "itoa i \<noteq> []" by (simp add: itoa_def)
  then obtain c u where cu: "itoa i = c # u" by (cases "itoa i") auto
  have "c = CHR ''-'' \<or> is_digit c" using cu dec_set [OF hd_in_set [OF dec_nonempty]]
    by (metis itoa_def list.sel(1) append_Cons append_Nil)
  then have "c \<noteq> CHR 0x22" "c \<notin> set ''[{ntf''" by (auto simp: is_digit_def)
  with json_number_itoa [OF 3(2), of i] show ?case by (simp add: i cu json_value.simps)
next
  case (4 raw s)
  then have raw: "raw = escape_text s" "json_text s" by simp_all
  then have "string_body (raw @ CHR 0x22 # t) = Some (s, t)"
    using string_body_encoded [of "chunks s" t] by (simp add: escape_text_def json_text_def)
  then show ?case by (simp add: json_value.simps)
next
  case (5 vs)
  then obtain d' where d: "d = Suc d'" by (cases d) auto
  have "json_list_or_empty (CHR '']'') (json_value d') (join '','' (map encode_json vs) @ CHR '']'' # t) = Some (vs, t)"
  proof (rule json_list_or_empty_printed)
    fix x u
    assume "x \<in> set vs" "json_stop u"
    then show "json_value d' (encode_json x @ u) = Some (x, u)" using 5 d by simp
  next
    fix x
    assume "x \<in> set vs"
    then show "encode_json x \<noteq> [] \<and> value_start (hd (encode_json x))" using 5(2) encode_json_start by fastforce
  qed simp
  then show ?case by (simp add: json_value.simps d)
next
  case (6 ms)
  then obtain d' where d: "d = Suc d'" by (cases d) auto
  have "json_list_or_empty (CHR ''}'') (json_member (json_value d'))
      (join '','' (map (\<lambda>(k, v). encode_string k @ '':'' @ encode_json v) ms) @ CHR ''}'' # t) = Some (ms, t)"
  proof (rule json_list_or_empty_printed)
    fix x u
    assume x: "x \<in> set ms" "json_stop u"
    obtain k v where kv: "x = (k, v)" by fastforce
    have "json_text k" "json_ok d' v" using 6(2) d x kv by auto
    moreover have "json_stop t \<Longrightarrow> json_value d' (encode_json v @ t) = Some (v, t)" for t
      using 6(1) [OF x(1) kv [symmetric]] \<open>json_ok d' v\<close> by blast
    ultimately show "json_member (json_value d') ((case x of (k, v) \<Rightarrow> encode_string k @ '':'' @ encode_json v) @ u) = Some (x, u)"
      using json_member_printed [of k "json_value d'" v d' u] x(2) by (simp add: kv)
  next
    fix x :: "string \<times> json"
    show "(case x of (k, v) \<Rightarrow> encode_string k @ '':'' @ encode_json v) \<noteq> [] \<and>
        value_start (hd (case x of (k, v) \<Rightarrow> encode_string k @ '':'' @ encode_json v))"
      by (cases x) (simp add: encode_string_def value_start_def is_json_space_def)
  qed simp
  then show ?case by (simp add: json_value.simps d)
qed (simp_all add: json_value.simps)

lemma parse_encode_json [roundtrip]:
  assumes "json_ok max_nesting_depth v"
  shows "parse_json (encode_json v) = Some v"
proof -
  have "skip_space (encode_json v) = encode_json v"
    using encode_json_start [OF assms] by (intro skip_space_start) (auto simp: value_start_def)
  with json_value_encoded [OF assms, of "[]"] show ?thesis by (simp add: parse_json_def skip_space_def)
qed

lemma map_result_map: "(\<And>x. x \<in> set xs \<Longrightarrow> f (g x) = Some (h x)) \<Longrightarrow> map_result f (map g xs) = Some (map h xs)"
  by (induction xs) auto

lemma json_ok_strings: "list_all json_text xs \<Longrightarrow> json_ok max_nesting_depth (JArr (map json_str xs))"
  by (auto simp: max_nesting_depth_def list_all_iff)

lemma decode_encode_strings [roundtrip]:
  assumes "list_all json_text xs"
  shows "decode_strings (encode_strings xs) = Some xs"
  using map_result_map [of xs "json_string []" json_str "\<lambda>x. x"] parse_encode_json [OF json_ok_strings [OF assms]]
  by (simp add: decode_strings_def encode_strings_def json_string_def)

end
