(* ===== verification/Redis_Repo.thy ===== *)
theory Redis_Repo
  imports Server Go_Json
begin

text \<open>
  \<open>repository/redis/redis.go\<close>: a record is a hash, the domains and the domains of each
  instance are sets. The client is the parameter \<open>rds\<close>; the texts of times are the
  parameter \<open>tc\<close>, \<open>Format\<close> and \<open>Parse\<close> of the layout RFC3339Nano.
\<close>

section \<open>The client\<close>

text \<open>A hash is the list of its fields; \<open>HNil\<close> is the reply for a missing field or key.\<close>

type_synonym hash = "(string \<times> string) list"

datatype hget_reply = HNil | HFailed error | HVal string

datatype redis_cmd =
    HSet string hash
  | SAdd string string
  | SRem string string
  | Del string

text \<open>
  \<open>rds_pipeline\<close> sends one \<open>HGETALL\<close> for each key, \<open>Inl\<close> being an error of \<open>Exec\<close>;
  \<open>rds_tx\<close> is \<open>MULTI\<close> and \<open>EXEC\<close> around the commands.
\<close>

record 'd redis_ops =
  rds_ping :: "'d \<Rightarrow> error + unit"
  rds_smembers :: "string \<Rightarrow> 'd \<Rightarrow> error + string list"
  rds_hgetall :: "string \<Rightarrow> 'd \<Rightarrow> error + hash"
  rds_pipeline :: "string list \<Rightarrow> 'd \<Rightarrow> error + (error + hash) list"
  rds_hget :: "string \<Rightarrow> string \<Rightarrow> 'd \<Rightarrow> hget_reply"
  rds_del :: "string \<Rightarrow> 'd \<Rightarrow> (error + unit) \<times> 'd"
  rds_tx :: "redis_cmd list \<Rightarrow> 'd \<Rightarrow> (error + unit) \<times> 'd"
  rds_close :: "'d \<Rightarrow> (error + unit) \<times> 'd"

section \<open>Opening\<close>

record redis_options =
  opt_addr :: string
  opt_password :: string
  opt_prefix :: string
  opt_db :: int

text \<open>\<open>connect\<close> makes the client of an address, a password and a database number.\<close>

definition redis_new_repository ::
  "'d redis_ops \<Rightarrow> (string \<Rightarrow> string \<Rightarrow> int \<Rightarrow> 'd) \<Rightarrow> redis_options \<Rightarrow> error + (string \<times> 'd)" where
  "redis_new_repository rds connect opt =
     (if trim_space (opt_addr opt) = [] then Inl ErrRedisAddrRequired
      else let prefix = (if trim_space (opt_prefix opt) = [] then ''tsdns'' else opt_prefix opt);
               c = connect (opt_addr opt) (opt_password opt) (opt_db opt)
        in case rds_ping rds c of Inl err \<Rightarrow> Inl err | Inr u \<Rightarrow> Inr (prefix, c))"

section \<open>The hooks of the client\<close>

text \<open>
  The hooks take the client's own function \<open>next\<close>, on its state, and log beside it; of a line
  the level, the message and the command or the number of commands are kept. \<open>is_nil\<close> tells the
  error for a missing key.
\<close>

datatype log_attr = LogCommand string | LogCommands nat

record log_line =
  log_level :: log_level
  log_message :: string
  log_attr :: log_attr

definition dial_hook :: "('n \<Rightarrow> 'd \<Rightarrow> (error + 'c) \<times> 'd) \<Rightarrow> 'n \<Rightarrow> 'd \<Rightarrow> (error + 'c) \<times> 'd" where
  "dial_hook next = (\<lambda>addr d. next addr d)"

definition process_hook ::
  "(error \<Rightarrow> bool) \<Rightarrow> ('c \<Rightarrow> string) \<Rightarrow> ('c \<Rightarrow> 'd \<Rightarrow> error option \<times> 'd) \<Rightarrow> 'c \<Rightarrow> 'd \<Rightarrow>
   (error option \<times> 'd) \<times> log_line" where
  "process_hook is_nil full_name next cmd d =
     (let (err, d) = next cmd d
      in ((err, d),
          if (case err of None \<Rightarrow> False | Some e \<Rightarrow> \<not> is_nil e)
          then \<lparr>log_level = LevelError, log_message = ''redis command error'', log_attr = LogCommand (full_name cmd)\<rparr>
          else \<lparr>log_level = LevelDebug, log_message = ''redis command'', log_attr = LogCommand (full_name cmd)\<rparr>))"

definition process_pipeline_hook ::
  "('c list \<Rightarrow> 'd \<Rightarrow> error option \<times> 'd) \<Rightarrow> 'c list \<Rightarrow> 'd \<Rightarrow> (error option \<times> 'd) \<times> log_line" where
  "process_pipeline_hook next cmds d =
     (let (err, d) = next cmds d
      in ((err, d), \<lparr>log_level = LevelDebug, log_message = ''redis pipeline'', log_attr = LogCommands (length cmds)\<rparr>))"

text \<open>The hooks do not change what the client does.\<close>

lemma hooks_transparent:
  "dial_hook next = next" "fst (process_hook is_nil full_name next' cmd d) = next' cmd d"
  "fst (process_pipeline_hook next'' cmds d) = next'' cmds d"
  by (simp_all add: dial_hook_def process_hook_def process_pipeline_hook_def case_prod_unfold Let_def)

section \<open>Keys\<close>

definition key_domains :: "string \<Rightarrow> string" where
  "key_domains prefix = prefix @ '':domains''"

definition key_record :: "string \<Rightarrow> string \<Rightarrow> string" where
  "key_record prefix domain = prefix @ '':record:'' @ domain"

definition key_instance_domains :: "string \<Rightarrow> int64 \<Rightarrow> string" where
  "key_instance_domains prefix instance_id = prefix @ '':instance:'' @ itoa (sint instance_id) @ '':domains''"

section \<open>Encoding\<close>

definition encode_record_map :: "time_codec \<Rightarrow> tsrecord \<Rightarrow> hash" where
  "encode_record_map tc r =
     [(''instance_id'', itoa (sint (rec_instance_id r))),
      (''targets'', encode_strings (map addr_port_string (rec_targets r))),
      (''created_at'', tc_format tc (rec_created_at r)),
      (''updated_at'', tc_format tc (rec_updated_at r))]"

definition parse_target_string :: "string \<Rightarrow> addr_port option" where
  "parse_target_string s =
     (case parse_addr_port s of
        Some tp \<Rightarrow> Some tp
      | None \<Rightarrow> (case parse_addr s of Some a \<Rightarrow> Some (a, 0) | None \<Rightarrow> None))"

definition parse_target_strings :: "string list \<Rightarrow> addr_port list" where
  "parse_target_strings ss = List.map_filter parse_target_string ss"

text \<open>A missing field of the map reads as the empty string.\<close>

definition field :: "string \<Rightarrow> hash \<Rightarrow> string" where
  "field k m = (case map_of m k of None \<Rightarrow> [] | Some v \<Rightarrow> v)"

definition decode_time :: "time_codec \<Rightarrow> string \<Rightarrow> time" where
  "decode_time tc s =
     (let v = trim_space s
      in if v \<noteq> [] then (case tc_parse tc v of Some t \<Rightarrow> t | None \<Rightarrow> 0) else 0)"

definition decode_record_map :: "time_codec \<Rightarrow> string \<Rightarrow> hash \<Rightarrow> tsrecord" where
  "decode_record_map tc domain m =
     (let v = trim_space (field ''instance_id'' m);
          instance_id = (if v \<noteq> [] then (case parse_int64 v of Some n \<Rightarrow> n | None \<Rightarrow> 0) else 0);
          created_at = decode_time tc (field ''created_at'' m);
          updated_at = decode_time tc (field ''updated_at'' m);
          v = field ''targets'' m;
          targets = (if v \<noteq> [] then
                       (case decode_strings v of Some ss \<Rightarrow> parse_target_strings ss | None \<Rightarrow> [])
                     else [])
      in \<lparr>rec_created_at = created_at, rec_updated_at = updated_at, rec_deleted_at = None,
          rec_domain = domain, rec_targets = targets, rec_id = 0, rec_instance_id = instance_id\<rparr>)"

section \<open>Operations\<close>

text \<open>The loop of \<open>Find\<close> over the replies; the decoding itself never fails.\<close>

fun collect_records :: "time_codec \<Rightarrow> string list \<Rightarrow> (error + hash) list \<Rightarrow> error + tsrecord list" where
  "collect_records tc (d # ds) (Inl err # cmds) = Inl (ErrDecodeRecord d)"
| "collect_records tc (d # ds) (Inr m # cmds) =
     (case collect_records tc ds cmds of
        Inl err \<Rightarrow> Inl err
      | Inr out \<Rightarrow> Inr (if m = [] then out else decode_record_map tc d m # out))"
| "collect_records tc _ _ = Inr []"

definition redis_find :: "'d redis_ops \<Rightarrow> time_codec \<Rightarrow> string \<Rightarrow> 'd \<Rightarrow> error + tsrecord list" where
  "redis_find rds tc prefix d =
     (case rds_smembers rds (key_domains prefix) d of
        Inl err \<Rightarrow> Inl err
      | Inr domains \<Rightarrow>
          if domains = [] then Inr []
          else (case rds_pipeline rds (map (key_record prefix) domains) d of
                  Inl err \<Rightarrow> Inl err
                | Inr cmds \<Rightarrow> collect_records tc domains cmds))"

definition redis_find_by_domain ::
  "'d redis_ops \<Rightarrow> time_codec \<Rightarrow> string \<Rightarrow> string \<Rightarrow> 'd \<Rightarrow> error + tsrecord" where
  "redis_find_by_domain rds tc prefix domain d =
     (case rds_hgetall rds (key_record prefix domain) d of
        Inl err \<Rightarrow> Inl err
      | Inr m \<Rightarrow> if m = [] then Inl ErrRecordNotFound else Inr (decode_record_map tc domain m))"

definition old_instance_id :: "'d redis_ops \<Rightarrow> string \<Rightarrow> string \<Rightarrow> 'd \<Rightarrow> int64" where
  "old_instance_id rds prefix domain d =
     (case rds_hget rds (key_record prefix domain) ''instance_id'' d of
        HVal v \<Rightarrow> (case parse_int64 (trim_space v) of Some n \<Rightarrow> n | None \<Rightarrow> 0)
      | _ \<Rightarrow> 0)"

definition redis_create ::
  "'d redis_ops \<Rightarrow> time_codec \<Rightarrow> string \<Rightarrow> time \<Rightarrow> tsrecord option \<Rightarrow> 'd \<Rightarrow> (error + tsrecord) \<times> 'd" where
  "redis_create rds tc prefix now ro d =
     (case ro of
        None \<Rightarrow> (Inl ErrRecordNil, d)
      | Some r \<Rightarrow>
          if trim_space (rec_domain r) = [] then (Inl ErrDomainRequired, d)
          else
            let old_id = old_instance_id rds prefix (rec_domain r) d;
                r = (case rds_hget rds (key_record prefix (rec_domain r)) ''created_at'' d of
                       HVal v \<Rightarrow>
                         if time_is_zero (rec_created_at r) then
                           (case tc_parse tc (trim_space v) of
                              Some tm \<Rightarrow> r\<lparr>rec_created_at := tm\<rparr>
                            | None \<Rightarrow> r)
                         else r
                     | _ \<Rightarrow> r);
                r = (if time_is_zero (rec_created_at r) then r\<lparr>rec_created_at := now\<rparr> else r);
                r = r\<lparr>rec_updated_at := now\<rparr>;
                cmds =
                  [HSet (key_record prefix (rec_domain r)) (encode_record_map tc r),
                   SAdd (key_domains prefix) (rec_domain r),
                   SAdd (key_instance_domains prefix (rec_instance_id r)) (rec_domain r)]
                  @ (if old_id \<noteq> rec_instance_id r
                     then [SRem (key_instance_domains prefix old_id) (rec_domain r)] else [])
            in (case rds_tx rds cmds d of
                  (Inl err, d) \<Rightarrow> (Inl err, d)
                | (Inr u, d) \<Rightarrow> (Inr r, d)))"

text \<open>
  The value \<open>ParseInt\<close> returns beside its error, which the deletion ignores: 0 for a text
  that is not a number, the nearest bound for a number out of range.
\<close>

fun uint64_loop :: "nat \<Rightarrow> string \<Rightarrow> nat option" where
  "uint64_loop acc [] = Some acc"
| "uint64_loop acc (c # s) =
     (if \<not> is_digit c then None
      else if 2 ^ 64 - 1 < 10 * acc + digit_val c then Some (2 ^ 64 - 1)
      else uint64_loop (10 * acc + digit_val c) s)"

definition parse_int64_value :: "string \<Rightarrow> int64" where
  "parse_int64_value s =
     (let neg = has_prefix s ''-'';
          digits = (if neg \<or> has_prefix s ''+'' then drop 1 s else s)
      in if digits = [] then 0
         else case uint64_loop 0 digits of
           None \<Rightarrow> 0
         | Some un \<Rightarrow>
             if \<not> neg \<and> 2 ^ 63 \<le> un then 2 ^ 63 - 1
             else if neg \<and> 2 ^ 63 < un then - (2 ^ 63)
             else if neg then - of_nat un else of_nat un)"

definition redis_delete :: "'d redis_ops \<Rightarrow> string \<Rightarrow> string \<Rightarrow> 'd \<Rightarrow> (error + unit) \<times> 'd" where
  "redis_delete rds prefix domain d =
     (case rds_hget rds (key_record prefix domain) ''instance_id'' d of
        HNil \<Rightarrow> (Inl ErrRecordNotFound, d)
      | HFailed err \<Rightarrow> (Inl err, d)
      | HVal v \<Rightarrow>
          let instance_id = parse_int64_value (trim_space v)
          in rds_tx rds
               [Del (key_record prefix domain), SRem (key_domains prefix) domain,
                SRem (key_instance_domains prefix instance_id) domain] d)"

definition redis_delete_by_instance_id ::
  "'d redis_ops \<Rightarrow> string \<Rightarrow> int64 \<Rightarrow> 'd \<Rightarrow> (error + unit) \<times> 'd" where
  "redis_delete_by_instance_id rds prefix instance_id d =
     (case rds_smembers rds (key_instance_domains prefix instance_id) d of
        Inl err \<Rightarrow> (Inl err, d)
      | Inr domains \<Rightarrow>
          if domains = [] then rds_del rds (key_instance_domains prefix instance_id) d
          else rds_tx rds
                 (concat (map (\<lambda>dn. [Del (key_record prefix dn), SRem (key_domains prefix) dn]) domains)
                  @ [Del (key_instance_domains prefix instance_id)]) d)"

definition redis_repo :: "'d redis_ops \<Rightarrow> time_codec \<Rightarrow> string \<Rightarrow> 'd repo_ops" where
  "redis_repo rds tc prefix =
     \<lparr>repo_find = redis_find rds tc prefix, repo_find_by_domain = redis_find_by_domain rds tc prefix,
      repo_create = redis_create rds tc prefix, repo_delete = redis_delete rds prefix,
      repo_delete_by_instance_id = redis_delete_by_instance_id rds prefix, repo_close = rds_close rds\<rparr>"

lemma redis_repo_ops:
  "repo_find (redis_repo rds tc p) = redis_find rds tc p"
  "repo_find_by_domain (redis_repo rds tc p) = redis_find_by_domain rds tc p"
  "repo_create (redis_repo rds tc p) = redis_create rds tc p"
  "repo_delete (redis_repo rds tc p) = redis_delete rds p"
  "repo_delete_by_instance_id (redis_repo rds tc p) = redis_delete_by_instance_id rds p"
  "repo_close (redis_repo rds tc p) = rds_close rds"
  by (simp_all add: redis_repo_def)

section \<open>Lemmas: texts\<close>

lemma dec_value_ge: "dec_value acc s = Some n \<Longrightarrow> acc \<le> n"
  by (induction s arbitrary: acc) (fastforce split: if_splits)+

lemma uint64_loop_dec: "\<lbrakk>dec_value acc s = Some n; n \<le> 2 ^ 64 - 1\<rbrakk> \<Longrightarrow> uint64_loop acc s = Some n"
proof (induction s arbitrary: acc)
  case (Cons c s)
  then have "is_digit c" "dec_value (10 * acc + digit_val c) s = Some n" by (auto split: if_splits)
  with Cons dec_value_ge [OF this(2)] show ?case by simp
qed simp

lemma parse_uint_loop: "\<lbrakk>parse_uint m s = Some n; m \<le> 2 ^ 64 - 1\<rbrakk> \<Longrightarrow> s \<noteq> [] \<and> uint64_loop 0 s = Some n \<and> n \<le> m"
  by (auto simp: parse_uint_def uint64_loop_dec split: if_splits option.splits)

lemma parse_int64_value_Some:
  assumes "parse_int64 s = Some x"
  shows "parse_int64_value s = x"
proof (cases s)
  case (Cons c t)
  consider "c = CHR ''-''" | "c = CHR ''+''" | "c \<noteq> CHR ''-''" "c \<noteq> CHR ''+''" by blast
  then show ?thesis
  proof cases
    case 1
    then obtain n where n: "parse_uint (2 ^ 63) t = Some n" "x = - of_nat n"
      using assms Cons by (auto simp: parse_int64_def)
    with parse_uint_loop [OF n(1)] 1 Cons show ?thesis by (simp add: parse_int64_value_def)
  next
    case 2
    then obtain n where n: "parse_uint (2 ^ 63 - 1) t = Some n" "x = of_nat n"
      using assms Cons by (auto simp: parse_int64_def)
    with parse_uint_loop [OF n(1)] 2 Cons show ?thesis by (simp add: parse_int64_value_def)
  next
    case 3
    then obtain n where n: "parse_uint (2 ^ 63 - 1) s = Some n" "x = of_nat n"
      using assms Cons by (auto simp: parse_int64_def)
    with parse_uint_loop [OF n(1)] 3 Cons show ?thesis by (simp add: parse_int64_value_def)
  qed
qed (use assms in simp)

lemma itoa_graphic [simp]: "graphic (itoa i)"
  by (simp add: itoa_def graph_char_def)

lemma itoa_nonempty [simp]: "itoa i \<noteq> []"
  by (simp add: itoa_def)

lemma itoa_inj: "itoa (sint (x :: int64)) = itoa (sint y) \<longleftrightarrow> x = y"
  by (metis option.inject parse_int64_itoa)

lemma keys_distinct [simp]:
  "key_record p d = key_record p d' \<longleftrightarrow> d = d'"
  "key_instance_domains p i = key_instance_domains p j \<longleftrightarrow> i = j"
  "key_record p d \<noteq> key_domains p" "key_domains p \<noteq> key_record p d"
  "key_record p d \<noteq> key_instance_domains p i" "key_instance_domains p i \<noteq> key_record p d"
  "key_domains p \<noteq> key_instance_domains p i" "key_instance_domains p i \<noteq> key_domains p"
  by (simp_all add: key_record_def key_domains_def key_instance_domains_def itoa_inj)

text \<open>A target whose text and text form survive: an address without a zone.\<close>

definition redis_storable :: "addr_port \<Rightarrow> bool" where
  "redis_storable tp \<longleftrightarrow> is_valid (fst tp) \<and> zoneless (fst tp)"

lemma addr_chars_json: "list_all addr_char s \<Longrightarrow> json_text s"
  by (rule json_text_ascii) (auto simp: addr_char_def Let_def list_all_iff)

lemma targets_roundtrip:
  assumes "list_all redis_storable tps"
  shows "decode_strings (encode_strings (map addr_port_string tps)) = Some (map addr_port_string tps)"
    and "parse_target_strings (map addr_port_string tps) = tps"
proof -
  have "json_text (addr_port_string tp)" if "redis_storable tp" for tp
    using that addr_text_chars by (cases tp) (auto simp: redis_storable_def list_all_iff intro!: addr_chars_json)
  then show "decode_strings (encode_strings (map addr_port_string tps)) = Some (map addr_port_string tps)"
    using assms by (intro decode_encode_strings) (auto simp: list_all_iff)
  have "parse_target_string (addr_port_string tp) = Some tp" if "redis_storable tp" for tp
    using that by (cases tp) (simp add: parse_target_string_def redis_storable_def roundtrip)
  then show "parse_target_strings (map addr_port_string tps) = tps"
    using assms unfolding parse_target_strings_def
    by (induction tps) (simp_all add: List.map_filter_simps)
qed

text \<open>The entry of a hash, as a function of its fields.\<close>

definition hash_entry :: "(string \<Rightarrow> string option) \<Rightarrow> entry" where
  "hash_entry h =
     ((let v = trim_space (case h ''instance_id'' of None \<Rightarrow> [] | Some v \<Rightarrow> v)
       in if v \<noteq> [] then (case parse_int64 v of Some n \<Rightarrow> n | None \<Rightarrow> 0) else 0),
      (let v = (case h ''targets'' of None \<Rightarrow> [] | Some v \<Rightarrow> v)
       in if v \<noteq> [] then (case decode_strings v of Some ss \<Rightarrow> parse_target_strings ss | None \<Rightarrow> [])
          else []))"

lemma decode_entry: "rec_entry (decode_record_map tc d m) = hash_entry (map_of m)"
  "rec_domain (decode_record_map tc d m) = d"
  by (simp_all add: decode_record_map_def rec_entry_def hash_entry_def field_def Let_def)

lemma hash_entry_encoded:
  assumes "h ''instance_id'' = Some (itoa (sint i))"
    "h ''targets'' = Some (encode_strings (map addr_port_string tps))" "list_all redis_storable tps"
  shows "hash_entry h = (i, tps)"
  using assms(1,2) targets_roundtrip [OF assms(3)]
  by (simp add: hash_entry_def trim_space_graphic roundtrip Let_def) (simp add: encode_strings_def)

section \<open>The laws of the server\<close>

text \<open>The values of keys; a set that becomes empty is removed.\<close>

datatype rvalue = RHash "string \<Rightarrow> string option" | RSet "string set"

type_synonym keyspace = "string \<Rightarrow> rvalue option"

definition hash_of :: "keyspace \<Rightarrow> string \<Rightarrow> string \<Rightarrow> string option" where
  "hash_of st k = (case st k of Some (RHash h) \<Rightarrow> h | _ \<Rightarrow> Map.empty)"

definition members :: "keyspace \<Rightarrow> string \<Rightarrow> string set" where
  "members st k = (case st k of Some (RSet s) \<Rightarrow> s | _ \<Rightarrow> {})"

fun exec_cmd :: "redis_cmd \<Rightarrow> keyspace \<Rightarrow> keyspace" where
  "exec_cmd (HSet k h) st = st(k \<mapsto> RHash (hash_of st k ++ map_of h))"
| "exec_cmd (SAdd k m) st = st(k \<mapsto> RSet (insert m (members st k)))"
| "exec_cmd (SRem k m) st =
     st(k := (if members st k - {m} = {} then None else Some (RSet (members st k - {m}))))"
| "exec_cmd (Del k) st = st(k := None)"

text \<open>
  What the repository relies on, as Redis documents it, for keys that hold values of the
  types the repository gives them: reads return what is stored, a transaction runs
  entirely or not at all, also when its reply is lost. \<open>HGET\<close> is assumed not to fail:
  \<open>Create\<close> takes a failed one for a missing record.
\<close>

definition redis_laws :: "'d redis_ops \<Rightarrow> ('d \<Rightarrow> keyspace) \<Rightarrow> bool" where
  "redis_laws rds store \<longleftrightarrow>
     (\<forall>k d ms. rds_smembers rds k d = Inr ms \<longrightarrow> distinct ms \<and> set ms = members (store d) k) \<and>
     (\<forall>k d m. rds_hgetall rds k d = Inr m \<longrightarrow> map_of m = hash_of (store d) k) \<and>
     (\<forall>ks d rs. rds_pipeline rds ks d = Inr rs \<longrightarrow>
        list_all2 (\<lambda>k r. \<forall>m. r = Inr m \<longrightarrow> map_of m = hash_of (store d) k) ks rs) \<and>
     (\<forall>k f d v. rds_hget rds k f d = HVal v \<longrightarrow> hash_of (store d) k f = Some v) \<and>
     (\<forall>k f d. rds_hget rds k f d = HNil \<longrightarrow> hash_of (store d) k f = None) \<and>
     (\<forall>k f d e. rds_hget rds k f d \<noteq> HFailed e) \<and>
     (\<forall>k d r d'. rds_del rds k d = (r, d') \<longrightarrow>
        store d' = exec_cmd (Del k) (store d) \<or> \<not> is_ok r \<and> store d' = store d) \<and>
     (\<forall>cs d r d'. rds_tx rds cs d = (r, d') \<longrightarrow>
        store d' = fold exec_cmd cs (store d) \<or> \<not> is_ok r \<and> store d' = store d)"

lemma redis_lawsD:
  assumes "redis_laws rds store"
  shows redis_smembers: "rds_smembers rds k d = Inr ms \<Longrightarrow> distinct ms \<and> set ms = members (store d) k"
    and redis_hgetall: "rds_hgetall rds k d = Inr m \<Longrightarrow> map_of m = hash_of (store d) k"
    and redis_pipeline: "rds_pipeline rds ks d = Inr rs \<Longrightarrow>
      list_all2 (\<lambda>k r. \<forall>m. r = Inr m \<longrightarrow> map_of m = hash_of (store d) k) ks rs"
    and redis_hget: "rds_hget rds k f d = (case hash_of (store d) k f of None \<Rightarrow> HNil | Some v \<Rightarrow> HVal v)"
    and redis_del: "rds_del rds k d = (r, d') \<Longrightarrow>
      store d' = exec_cmd (Del k) (store d) \<or> \<not> is_ok r \<and> store d' = store d"
    and redis_tx: "rds_tx rds cs d = (r, d') \<Longrightarrow>
      store d' = fold exec_cmd cs (store d) \<or> \<not> is_ok r \<and> store d' = store d"
proof -
  note laws = assms [unfolded redis_laws_def]
  show "rds_smembers rds k d = Inr ms \<Longrightarrow> distinct ms \<and> set ms = members (store d) k"
    "rds_hgetall rds k d = Inr m \<Longrightarrow> map_of m = hash_of (store d) k"
    "rds_pipeline rds ks d = Inr rs \<Longrightarrow>
      list_all2 (\<lambda>k r. \<forall>m. r = Inr m \<longrightarrow> map_of m = hash_of (store d) k) ks rs"
    "rds_del rds k d = (r, d') \<Longrightarrow>
      store d' = exec_cmd (Del k) (store d) \<or> \<not> is_ok r \<and> store d' = store d"
    "rds_tx rds cs d = (r, d') \<Longrightarrow>
      store d' = fold exec_cmd cs (store d) \<or> \<not> is_ok r \<and> store d' = store d"
    using laws by - (blast | simp)+
  have "rds_hget rds k f d = HVal v \<Longrightarrow> hash_of (store d) k f = Some v"
    "rds_hget rds k f d = HNil \<Longrightarrow> hash_of (store d) k f = None" "rds_hget rds k f d \<noteq> HFailed e" for v e
    using laws by blast+
  then show "rds_hget rds k f d = (case hash_of (store d) k f of None \<Rightarrow> HNil | Some v \<Rightarrow> HVal v)"
    by (cases "rds_hget rds k f d") auto
qed

lemma members_exec:
  "members (exec_cmd c st) k =
     (case c of
        HSet k' h \<Rightarrow> if k = k' then {} else members st k
      | SAdd k' m \<Rightarrow> if k = k' then insert m (members st k) else members st k
      | SRem k' m \<Rightarrow> if k = k' then members st k - {m} else members st k
      | Del k' \<Rightarrow> if k = k' then {} else members st k)"
  by (cases c) (auto simp: members_def exec_cmd.simps)

lemma hash_exec:
  "hash_of (exec_cmd c st) k =
     (case c of
        HSet k' h \<Rightarrow> if k = k' then hash_of st k ++ map_of h else hash_of st k
      | SAdd k' m \<Rightarrow> if k = k' then Map.empty else hash_of st k
      | SRem k' m \<Rightarrow> if k = k' then Map.empty else hash_of st k
      | Del k' \<Rightarrow> if k = k' then Map.empty else hash_of st k)"
  by (cases c) (auto simp: hash_of_def exec_cmd.simps)

declare exec_cmd.simps [simp del]

section \<open>The contract\<close>

definition redis_content :: "string \<Rightarrow> keyspace \<Rightarrow> string \<Rightarrow> entry option" where
  "redis_content p st d =
     (if hash_of st (key_record p d) = Map.empty then None
      else Some (hash_entry (hash_of st (key_record p d))))"

text \<open>The set of domains lists the hashes, and the sets of the instances their instance fields.\<close>

definition redis_invar :: "string \<Rightarrow> keyspace \<Rightarrow> bool" where
  "redis_invar p st \<longleftrightarrow>
     (\<forall>d. d \<in> members st (key_domains p) \<longleftrightarrow> hash_of st (key_record p d) \<noteq> Map.empty) \<and>
     (\<forall>d. hash_of st (key_record p d) \<noteq> Map.empty \<longrightarrow>
        (\<exists>i. hash_of st (key_record p d) ''instance_id'' = Some (itoa (sint (i :: int64))))) \<and>
     (\<forall>d i. d \<in> members st (key_instance_domains p i) \<longleftrightarrow>
        hash_of st (key_record p d) ''instance_id'' = Some (itoa (sint i)))"

definition redis_listed :: "string \<Rightarrow> keyspace \<Rightarrow> bool" where
  "redis_listed p st \<longleftrightarrow>
     (\<forall>d. d \<in> members st (key_domains p) \<longleftrightarrow> hash_of st (key_record p d) \<noteq> Map.empty)"

lemma redis_invar_listed: "redis_invar p st \<Longrightarrow> redis_listed p st"
  by (simp add: redis_invar_def redis_listed_def)

lemma redis_invar_members: "redis_invar p st \<Longrightarrow>
   d \<in> members st (key_instance_domains p i) \<longleftrightarrow> hash_of st (key_record p d) ''instance_id'' = Some (itoa (sint i))"
  by (simp add: redis_invar_def)

lemma redis_invar_field:
  assumes "redis_invar p st" "hash_of st (key_record p d) ''instance_id'' = Some v"
  obtains i where "v = itoa (sint (i :: int64))"
proof -
  have "hash_of st (key_record p d) \<noteq> Map.empty" using assms(2) by auto
  then have "\<exists>i. hash_of st (key_record p d) ''instance_id'' = Some (itoa (sint (i :: int64)))"
    using assms(1) unfolding redis_invar_def by blast
  then show thesis using assms(2) that by auto
qed

lemma redis_content_instance:
  assumes "redis_invar p st" "redis_content p st d = Some e"
  shows "hash_of st (key_record p d) ''instance_id'' = Some (itoa (sint (fst e)))"
proof -
  have ne: "hash_of st (key_record p d) \<noteq> Map.empty"
    and e: "e = hash_entry (hash_of st (key_record p d))"
    using assms(2) by (auto simp: redis_content_def split: if_splits)
  then obtain i :: int64 where "hash_of st (key_record p d) ''instance_id'' = Some (itoa (sint i))"
    using assms(1) unfolding redis_invar_def by blast
  then show ?thesis by (simp add: e hash_entry_def trim_space_graphic roundtrip)
qed

text \<open>The store after the commands of \<open>Create\<close>.\<close>

lemma create_store:
  fixes r :: tsrecord and tc :: time_codec
  assumes inv: "redis_invar p st" and r: "rec_domain r = d" "rec_instance_id r = i"
    and old: "\<And>v. hash_of st (key_record p d) ''instance_id'' = Some v \<Longrightarrow> v = itoa (sint (old_id :: int64))"
  defines "cmds \<equiv> [HSet (key_record p d) (encode_record_map tc r), SAdd (key_domains p) d,
      SAdd (key_instance_domains p i) d] @ (if old_id \<noteq> i then [SRem (key_instance_domains p old_id) d] else [])"
  defines "st' \<equiv> fold exec_cmd cmds st"
  shows "hash_of st' (key_record p d') = (if d' = d then hash_of st (key_record p d) ++ map_of (encode_record_map tc r)
      else hash_of st (key_record p d'))"
    and "redis_invar p st'"
proof -
  have h: "hash_of st' (key_record p d') = (if d' = d then hash_of st (key_record p d) ++ map_of (encode_record_map tc r)
      else hash_of st (key_record p d'))" for d'
    by (simp add: st'_def cmds_def hash_exec)
  then show "hash_of st' (key_record p d') = (if d' = d then hash_of st (key_record p d) ++ map_of (encode_record_map tc r)
      else hash_of st (key_record p d'))" .
  have ins: "hash_of st' (key_record p d) ''instance_id'' = Some (itoa (sint i))"
    by (simp add: h encode_record_map_def r map_add_Some_iff)
  then have ne: "hash_of st' (key_record p d) \<noteq> Map.empty" by auto
  have dom: "members st' (key_domains p) = insert d (members st (key_domains p))"
    by (simp add: st'_def cmds_def members_exec)
  have mem: "members st' (key_instance_domains p j) =
      (if j = i then insert d (members st (key_instance_domains p j)) else members st (key_instance_domains p j) - {d})" for j
  proof -
    have "d \<notin> members st (key_instance_domains p j)" if "j \<noteq> old_id"
      using old that by (auto simp: redis_invar_members [OF inv] itoa_inj)
    then show ?thesis by (auto simp: st'_def cmds_def members_exec)
  qed
  show "redis_invar p st'"
    unfolding redis_invar_def
  proof (intro conjI allI)
    fix d'
    show "d' \<in> members st' (key_domains p) \<longleftrightarrow> hash_of st' (key_record p d') \<noteq> Map.empty"
      using inv ne unfolding redis_invar_def dom by (cases "d' = d") (auto simp: h)
    show "hash_of st' (key_record p d') \<noteq> Map.empty \<longrightarrow>
        (\<exists>j. hash_of st' (key_record p d') ''instance_id'' = Some (itoa (sint (j :: int64))))"
      using inv ins unfolding redis_invar_def by (cases "d' = d") (auto simp: h)
    fix j
    show "d' \<in> members st' (key_instance_domains p j) \<longleftrightarrow>
        hash_of st' (key_record p d') ''instance_id'' = Some (itoa (sint j))"
    proof (cases "d' = d")
      case True
      then show ?thesis using ins by (auto simp: mem itoa_inj)
    next
      case False
      then show ?thesis using inv unfolding redis_invar_def by (auto simp: mem h)
    qed
  qed
qed

lemma delete_store:
  assumes inv: "redis_invar p st" and i: "hash_of st (key_record p d) ''instance_id'' = Some (itoa (sint (i :: int64)))"
  defines "st' \<equiv> fold exec_cmd [Del (key_record p d), SRem (key_domains p) d, SRem (key_instance_domains p i) d] st"
  shows "hash_of st' (key_record p d') = (if d' = d then Map.empty else hash_of st (key_record p d'))"
    and "redis_invar p st'"
proof -
  have h: "hash_of st' (key_record p d') = (if d' = d then Map.empty else hash_of st (key_record p d'))" for d'
    by (simp add: st'_def hash_exec)
  then show "hash_of st' (key_record p d') = (if d' = d then Map.empty else hash_of st (key_record p d'))" .
  have dom: "members st' (key_domains p) = members st (key_domains p) - {d}"
    by (simp add: st'_def members_exec)
  have mem: "members st' (key_instance_domains p j) = members st (key_instance_domains p j) - {d}" for j
  proof -
    have "d \<notin> members st (key_instance_domains p j)" if "j \<noteq> i"
      using i that by (auto simp: redis_invar_members [OF inv] itoa_inj)
    then show ?thesis by (auto simp: st'_def members_exec)
  qed
  show "redis_invar p st'"
    using inv unfolding redis_invar_def dom mem h by auto
qed

lemma delete_instance_fold:
  fixes ds :: "string list" and p :: string
  defines "f \<equiv> fold exec_cmd (concat (map (\<lambda>dn. [Del (key_record p dn), SRem (key_domains p) dn]) ds))"
  shows "hash_of (f st) (key_record p d) = (if d \<in> set ds then Map.empty else hash_of st (key_record p d))"
    and "members (f st) (key_domains p) = members st (key_domains p) - set ds"
    and "members (f st) (key_instance_domains p i) = members st (key_instance_domains p i)"
  unfolding f_def by (induction ds arbitrary: st) (auto simp: hash_exec members_exec)

lemma delete_instance_store:
  assumes inv: "redis_invar p st" and ds: "set ds = members st (key_instance_domains p i)"
  defines "st' \<equiv> fold exec_cmd (concat (map (\<lambda>dn. [Del (key_record p dn), SRem (key_domains p) dn]) ds)
      @ [Del (key_instance_domains p i)]) st"
  shows "hash_of st' (key_record p d) =
      (if hash_of st (key_record p d) ''instance_id'' = Some (itoa (sint i)) then Map.empty
       else hash_of st (key_record p d))"
    and "redis_invar p st'"
proof -
  have in_ds: "d \<in> set ds \<longleftrightarrow> hash_of st (key_record p d) ''instance_id'' = Some (itoa (sint i))" for d
    using inv ds unfolding redis_invar_def by simp
  have h: "hash_of st' (key_record p d) = (if d \<in> set ds then Map.empty else hash_of st (key_record p d))" for d
    by (simp add: st'_def hash_exec delete_instance_fold)
  then show "hash_of st' (key_record p d) =
      (if hash_of st (key_record p d) ''instance_id'' = Some (itoa (sint i)) then Map.empty
       else hash_of st (key_record p d))" by (simp add: in_ds)
  have dom: "members st' (key_domains p) = members st (key_domains p) - set ds"
    by (simp add: st'_def members_exec delete_instance_fold)
  have mem: "members st' (key_instance_domains p j) =
      (if j = i then {} else members st (key_instance_domains p j))" for j
    by (simp add: st'_def members_exec delete_instance_fold)
  have other: "d \<notin> set ds" if "d \<in> members st (key_instance_domains p j)" "j \<noteq> i" for d j
    using that by (auto simp: in_ds redis_invar_members [OF inv] itoa_inj)
  have "d \<in> members st' (key_instance_domains p j) \<longleftrightarrow>
      hash_of st' (key_record p d) ''instance_id'' = Some (itoa (sint j))" for d j
    using inv other [of d j] in_ds [of d] unfolding redis_invar_def by (auto simp: mem h)
  moreover have "d \<in> members st' (key_domains p) \<longleftrightarrow> hash_of st' (key_record p d) \<noteq> Map.empty" for d
    using inv unfolding redis_invar_def by (simp add: dom h)
  moreover have "\<exists>j. hash_of st' (key_record p d) ''instance_id'' = Some (itoa (sint (j :: int64)))"
    if "hash_of st' (key_record p d) \<noteq> Map.empty" for d
    using inv that unfolding redis_invar_def by (simp add: h split: if_splits)
  ultimately show "redis_invar p st'" unfolding redis_invar_def by blast
qed

lemma collect_records_spec:
  assumes "list_all2 (\<lambda>d r. \<forall>m. r = Inr m \<longrightarrow> map_of m = H d) ds cmds" "collect_records tc ds cmds = Inr rs"
  shows "map rec_domain rs = filter (\<lambda>d. H d \<noteq> Map.empty) ds"
    and "\<forall>x \<in> set rs. rec_entry x = hash_entry (H (rec_domain x))"
  using assms
proof (induction ds cmds arbitrary: rs rule: list_all2_induct)
  case (Cons d ds r cmds)
  {
    case 1
    then obtain m out where m: "r = Inr m" "collect_records tc ds cmds = Inr out"
        "rs = (if m = [] then out else decode_record_map tc d m # out)"
      by (cases r) (auto split: sum.splits)
    moreover have "map_of m = H d" using Cons(1) m by simp
    ultimately show ?case using Cons.IH(1) [OF m(2)] by (auto simp: decode_entry)
  next
    case 2
    then obtain m out where m: "r = Inr m" "collect_records tc ds cmds = Inr out"
        "rs = (if m = [] then out else decode_record_map tc d m # out)"
      by (cases r) (auto split: sum.splits)
    moreover have "map_of m = H d" using Cons(1) m by simp
    ultimately show ?case using Cons.IH(2) [OF m(2)] by (auto simp: decode_entry)
  }
qed simp_all

lemma redis_find_spec:
  assumes laws: "redis_laws rds store" and inv: "redis_listed p (store d)"
    and f: "redis_find rds tc p d = Inr rs"
  shows "distinct (map rec_domain rs) \<and> entries_of rs = redis_content p (store d)"
proof -
  let ?H = "\<lambda>dn. hash_of (store d) (key_record p dn)"
  obtain ds where ds: "rds_smembers rds (key_domains p) d = Inr ds"
    using f by (auto simp: redis_find_def split: sum.splits)
  note sm = redis_smembers [OF laws ds]
  have rs: "map rec_domain rs = filter (\<lambda>dn. ?H dn \<noteq> Map.empty) ds \<and>
      (\<forall>x \<in> set rs. rec_entry x = hash_entry (?H (rec_domain x)))"
  proof (cases "ds = []")
    case True
    with f ds show ?thesis by (simp add: redis_find_def)
  next
    case False
    then obtain cmds where c: "rds_pipeline rds (map (key_record p) ds) d = Inr cmds"
        "collect_records tc ds cmds = Inr rs"
      using f ds by (auto simp: redis_find_def split: sum.splits)
    have "list_all2 (\<lambda>dn r. \<forall>m. r = Inr m \<longrightarrow> map_of m = ?H dn) ds cmds"
      using redis_pipeline [OF laws c(1)] by (simp add: list_all2_map1)
    from collect_records_spec [OF this c(2)] show ?thesis by blast
  qed
  then have dist: "distinct (map rec_domain rs)" using sm by simp
  have doms: "dn \<in> rec_domain ` set rs \<longleftrightarrow> ?H dn \<noteq> Map.empty" for dn
  proof -
    have "rec_domain ` set rs = {dn \<in> set ds. ?H dn \<noteq> Map.empty}"
      using conjunct1 [OF rs] by (metis list.set_map set_filter)
    then show ?thesis using sm inv by (auto simp: redis_listed_def)
  qed
  have "entries_of rs dn = redis_content p (store d) dn" for dn
  proof (cases "?H dn = Map.empty")
    case True
    then have "dn \<notin> rec_domain ` set rs" using doms by simp
    then have "entries_of rs dn = None" by (simp add: entries_of_def map_of_eq_None_iff image_image)
    with True show ?thesis by (simp add: redis_content_def)
  next
    case False
    then have "dn \<in> rec_domain ` set rs" using doms by blast
    then obtain x where x: "x \<in> set rs" "rec_domain x = dn" by auto
    then have "rec_entry x = hash_entry (?H dn)" using rs by auto
    then have "entries_of rs dn = Some (hash_entry (?H dn))" using x by (auto simp: entries_of_iff [OF dist])
    with False show ?thesis by (simp add: redis_content_def)
  qed
  with dist show ?thesis by blast
qed

text \<open>\<open>Create\<close> sends the commands of \<open>create_store\<close> for the record it returns.\<close>

lemma redis_create_cases:
  assumes "redis_laws rds store" "redis_invar p (store d)" "redis_create rds tc p now ro d = (res, d')"
  obtains e where "res = Inl e" "d' = d"
  | x r old_id where "ro = Some x" "rec_domain r = rec_domain x" "rec_entry r = rec_entry x"
      "res = Inr r \<or> (\<exists>e. res = Inl e)"
      "\<And>v. hash_of (store d) (key_record p (rec_domain x)) ''instance_id'' = Some v \<Longrightarrow> v = itoa (sint (old_id :: int64))"
      "store d' = fold exec_cmd ([HSet (key_record p (rec_domain x)) (encode_record_map tc r),
           SAdd (key_domains p) (rec_domain x), SAdd (key_instance_domains p (rec_instance_id x)) (rec_domain x)]
           @ (if old_id \<noteq> rec_instance_id x then [SRem (key_instance_domains p old_id) (rec_domain x)] else [])) (store d)
       \<or> \<not> is_ok res \<and> store d' = store d"
proof (cases "\<exists>x. ro = Some x \<and> trim_space (rec_domain x) \<noteq> []")
  case False
  then show thesis using assms(3) that(1) by (auto simp: redis_create_def split: option.splits)
next
  case True
  then obtain x where x: "ro = Some x" "trim_space (rec_domain x) \<noteq> []" by blast
  let ?old = "old_instance_id rds p (rec_domain x) d"
  let ?r1 = "case rds_hget rds (key_record p (rec_domain x)) ''created_at'' d of
      HVal v \<Rightarrow> if time_is_zero (rec_created_at x) then
          (case tc_parse tc (trim_space v) of Some tm \<Rightarrow> x\<lparr>rec_created_at := tm\<rparr> | None \<Rightarrow> x) else x
    | _ \<Rightarrow> x"
  let ?r2 = "if time_is_zero (rec_created_at ?r1) then ?r1\<lparr>rec_created_at := now\<rparr> else ?r1"
  let ?r = "?r2\<lparr>rec_updated_at := now\<rparr>"
  let ?cmds = "[HSet (key_record p (rec_domain ?r)) (encode_record_map tc ?r),
      SAdd (key_domains p) (rec_domain ?r), SAdd (key_instance_domains p (rec_instance_id ?r)) (rec_domain ?r)]
      @ (if ?old \<noteq> rec_instance_id ?r then [SRem (key_instance_domains p ?old) (rec_domain ?r)] else [])"
  have same: "rec_domain ?r = rec_domain x" "rec_instance_id ?r = rec_instance_id x" "rec_targets ?r = rec_targets x"
    by (simp_all split: hget_reply.splits option.splits)
  obtain tres d1 where tx: "rds_tx rds ?cmds d = (tres, d1)" by fastforce
  have "redis_create rds tc p now ro d =
      (case rds_tx rds ?cmds d of (Inl err, d) \<Rightarrow> (Inl err, d) | (Inr u, d) \<Rightarrow> (Inr ?r, d))"
    using x unfolding redis_create_def by (simp only: option.case Let_def if_False)
  then have res: "d' = d1" "res = Inr ?r \<and> is_ok tres \<or> (\<exists>e. res = Inl e) \<and> \<not> is_ok tres"
    using assms(3) tx by (cases tres; simp)+
  have old: "v = itoa (sint ?old)"
    if v: "hash_of (store d) (key_record p (rec_domain x)) ''instance_id'' = Some v" for v
  proof -
    obtain i :: int64 where "v = itoa (sint i)" using assms(2) v by (rule redis_invar_field)
    then show ?thesis
      using v by (simp add: old_instance_id_def redis_hget [OF assms(1)] trim_space_graphic roundtrip)
  qed
  show thesis
  proof (rule that(2) [of x ?r ?old])
    show "rec_entry ?r = rec_entry x" using same by (simp only: rec_entry_def)
    show "res = Inr ?r \<or> (\<exists>e. res = Inl e)" using res by blast
    show "store d' = fold exec_cmd ([HSet (key_record p (rec_domain x)) (encode_record_map tc ?r),
           SAdd (key_domains p) (rec_domain x), SAdd (key_instance_domains p (rec_instance_id x)) (rec_domain x)]
           @ (if ?old \<noteq> rec_instance_id x then [SRem (key_instance_domains p ?old) (rec_domain x)] else [])) (store d)
       \<or> \<not> is_ok res \<and> store d' = store d"
      using redis_tx [OF assms(1) tx] res unfolding same by auto
  qed (use x same old in auto)
qed

text \<open>An encoded record of storable targets reads back as its entry, whatever fields were there.\<close>

lemma hash_entry_merged:
  assumes "list_all redis_storable (rec_targets r)"
  shows "hash_entry (h ++ map_of (encode_record_map tc r)) = rec_entry r"
  unfolding rec_entry_def
  by (rule hash_entry_encoded) (use assms in \<open>simp_all add: encode_record_map_def map_add_Some_iff\<close>)

lemma hash_merged_nonempty: "h ++ map_of (encode_record_map tc r) \<noteq> Map.empty"
  by (simp add: encode_record_map_def)

lemma redis_delete_cases:
  assumes "redis_laws rds store" "redis_invar p (store d)" "redis_delete rds p dn d = (res, d')"
  obtains e where "res = Inl e" "d' = d"
  | i where "hash_of (store d) (key_record p dn) ''instance_id'' = Some (itoa (sint (i :: int64)))"
      "store d' = fold exec_cmd [Del (key_record p dn), SRem (key_domains p) dn, SRem (key_instance_domains p i) dn] (store d)
       \<or> \<not> is_ok res \<and> store d' = store d"
proof (cases "hash_of (store d) (key_record p dn) ''instance_id''")
  case None
  with assms that(1) show thesis by (auto simp: redis_delete_def redis_hget [OF assms(1)])
next
  case (Some v)
  obtain i where i: "v = itoa (sint (i :: int64))" using assms(2) Some by (rule redis_invar_field)
  have "parse_int64_value (itoa (sint i)) = i" by (rule parse_int64_value_Some) (rule parse_int64_itoa)
  then have "rds_tx rds [Del (key_record p dn), SRem (key_domains p) dn, SRem (key_instance_domains p i) dn] d = (res, d')"
    using assms(3) Some i by (simp add: redis_delete_def redis_hget [OF assms(1)] trim_space_graphic)
  from redis_tx [OF assms(1) this] Some i that(2) show thesis by blast
qed

lemma redis_delete_instance_cases:
  assumes "redis_laws rds store" "redis_invar p (store d)" "redis_delete_by_instance_id rds p i d = (res, d')"
  obtains "\<not> is_ok res" "d' = d"
  | ds where "set ds = members (store d) (key_instance_domains p i)"
      "store d' = fold exec_cmd (concat (map (\<lambda>dn. [Del (key_record p dn), SRem (key_domains p) dn]) ds)
          @ [Del (key_instance_domains p i)]) (store d)
       \<or> \<not> is_ok res \<and> store d' = store d"
proof (cases "rds_smembers rds (key_instance_domains p i) d")
  case (Inl e)
  with that(1) assms(3) show thesis by (auto simp: redis_delete_by_instance_id_def)
next
  case (Inr ds)
  note sm = redis_smembers [OF assms(1) Inr]
  show thesis
  proof (cases "ds = []")
    case True
    then have "rds_del rds (key_instance_domains p i) d = (res, d')"
      using assms(3) Inr by (simp add: redis_delete_by_instance_id_def)
    from redis_del [OF assms(1) this] that(2) [of ds] sm True show thesis by simp
  next
    case False
    then have "rds_tx rds (concat (map (\<lambda>dn. [Del (key_record p dn), SRem (key_domains p) dn]) ds)
          @ [Del (key_instance_domains p i)]) d = (res, d')"
      using assms(3) Inr by (simp add: redis_delete_by_instance_id_def)
    from redis_tx [OF assms(1) this] that(2) [of ds] sm show thesis by blast
  qed
qed

theorem redis_record_repository:
  assumes laws: "redis_laws rds store"
  shows "record_repository (redis_repo rds tc p) (\<lambda>d. redis_content p (store d))
           (\<lambda>d. redis_invar p (store d)) redis_storable"
proof
  fix d rs
  assume "redis_invar p (store d)" "repo_find (redis_repo rds tc p) d = Inr rs"
  then show "distinct (map rec_domain rs) \<and> entries_of rs = redis_content p (store d)"
    using redis_find_spec [OF laws redis_invar_listed] by (simp add: redis_repo_def)
next
  fix d dn x
  assume "redis_invar p (store d)" "repo_find_by_domain (redis_repo rds tc p) dn d = Inr x"
  then obtain m where m: "rds_hgetall rds (key_record p dn) d = Inr m" "m \<noteq> []" "x = decode_record_map tc dn m"
    by (auto simp: redis_repo_def redis_find_by_domain_def split: sum.splits if_splits)
  moreover have "map_of m \<noteq> Map.empty" using m(2) by (cases m) auto
  ultimately show "rec_domain x = dn \<and> redis_content p (store d) dn = Some (rec_entry x)"
    using redis_hgetall [OF laws m(1)] by (simp add: redis_content_def decode_entry)
next
  fix now d
  show "repo_create (redis_repo rds tc p) now None d = (Inl ErrRecordNil, d)"
    by (simp add: redis_repo_def redis_create_def)
next
  fix x now d
  show "trim_space (rec_domain x) = [] \<Longrightarrow> repo_create (redis_repo rds tc p) now (Some x) d = (Inl ErrDomainRequired, d)"
    by (simp add: redis_repo_def redis_create_def)
next
  fix d x now x' d'
  assume inv: "redis_invar p (store d)" and st: "list_all redis_storable (rec_targets x)"
    and "repo_create (redis_repo rds tc p) now (Some x) d = (Inr x', d')"
  then have c: "redis_create rds tc p now (Some x) d = (Inr x', d')" by (simp add: redis_repo_def)
  from laws inv c show "redis_content p (store d') = (redis_content p (store d))(rec_domain x \<mapsto> rec_entry x) \<and>
      rec_domain x' = rec_domain x \<and> rec_entry x' = rec_entry x"
  proof (cases (no_simp) rule: redis_create_cases)
    case (2 y r old_id)
    have st': "store d' = fold exec_cmd ([HSet (key_record p (rec_domain x)) (encode_record_map tc r),
           SAdd (key_domains p) (rec_domain x), SAdd (key_instance_domains p (rec_instance_id x)) (rec_domain x)]
           @ (if old_id \<noteq> rec_instance_id x then [SRem (key_instance_domains p old_id) (rec_domain x)] else [])) (store d)"
      using 2 by simp
    have r: "rec_domain r = rec_domain x" "rec_instance_id r = rec_instance_id x" "rec_targets r = rec_targets x" "x' = r"
      using 2 by (auto simp: rec_entry_def)
    have old: "hash_of (store d) (key_record p (rec_domain x)) ''instance_id'' = Some v \<Longrightarrow> v = itoa (sint old_id)" for v
      using 2(1,5) by simp
    have "redis_content p (store d') dn = ((redis_content p (store d))(rec_domain x \<mapsto> rec_entry x)) dn" for dn
      using create_store(1) [OF inv r(1,2) old] hash_entry_merged [of r] hash_merged_nonempty st r(3) 2(1,3)
      by (simp add: redis_content_def st')
    with r 2(1,3) show ?thesis by auto
  qed simp
next
  fix d dn d'
  assume inv: "redis_invar p (store d)" and "repo_delete (redis_repo rds tc p) dn d = (Inr (), d')"
  then have c: "redis_delete rds p dn d = (Inr (), d')" by (simp add: redis_repo_def)
  from laws inv c show "redis_content p (store d) dn \<noteq> None \<and>
      redis_content p (store d') = (redis_content p (store d))(dn := None)"
  proof (cases (no_simp) rule: redis_delete_cases)
    case (2 i)
    then have "hash_of (store d) (key_record p dn) \<noteq> Map.empty" by auto
    moreover have st': "store d' = fold exec_cmd [Del (key_record p dn), SRem (key_domains p) dn,
        SRem (key_instance_domains p i) dn] (store d)" using 2 by simp
    have "redis_content p (store d') dn' = ((redis_content p (store d))(dn := None)) dn'" for dn'
      unfolding st' redis_content_def delete_store(1) [OF inv 2(1)] by simp
    ultimately show ?thesis by (auto simp: redis_content_def)
  qed simp
next
  fix d i d'
  assume inv: "redis_invar p (store d)" and "repo_delete_by_instance_id (redis_repo rds tc p) i d = (Inr (), d')"
  then have c: "redis_delete_by_instance_id rds p i d = (Inr (), d')" by (simp add: redis_repo_def)
  from laws inv c show "redis_content p (store d') = (\<lambda>dn. case redis_content p (store d) dn of
      None \<Rightarrow> None | Some e \<Rightarrow> if fst e = i then None else Some e)"
  proof (cases (no_simp) rule: redis_delete_instance_cases)
    case (2 ds)
    have st': "store d' = fold exec_cmd (concat (map (\<lambda>dn. [Del (key_record p dn), SRem (key_domains p) dn]) ds)
          @ [Del (key_instance_domains p i)]) (store d)" using 2(2) by simp
    show ?thesis
    proof (rule ext)
      fix dn
      have "fst e = i \<longleftrightarrow> hash_of (store d) (key_record p dn) ''instance_id'' = Some (itoa (sint i))"
        if "redis_content p (store d) dn = Some e" for e
        using redis_content_instance [OF inv that] by (simp add: itoa_inj)
      then show "redis_content p (store d') dn = (case redis_content p (store d) dn of
          None \<Rightarrow> None | Some e \<Rightarrow> if fst e = i then None else Some e)"
        using delete_instance_store(1) [OF inv 2(1), of dn]
        by (auto simp: st' redis_content_def)
    qed
  qed simp
next
  fix d now xo
  assume inv: "redis_invar p (store d)"
  obtain res d' where c: "redis_create rds tc p now xo d = (res, d')" by fastforce
  from laws inv c have "redis_invar p (store d')"
  proof (cases (no_simp) rule: redis_create_cases)
    case (2 y r old_id)
    have r: "rec_domain r = rec_domain y" "rec_instance_id r = rec_instance_id y"
      using 2 by (simp_all add: rec_entry_def)
    from 2(6) create_store(2) [OF inv r 2(5)] inv show ?thesis by fastforce
  qed (use inv in simp)
  with c show "redis_invar p (store (snd (repo_create (redis_repo rds tc p) now xo d)))"
    by (simp add: redis_repo_def)
next
  fix d dn
  assume inv: "redis_invar p (store d)"
  obtain res d' where c: "redis_delete rds p dn d = (res, d')" by fastforce
  from laws inv c have "redis_invar p (store d')"
  proof (cases (no_simp) rule: redis_delete_cases)
    case (2 i)
    with delete_store(2) [OF inv 2(1)] inv show ?thesis by fastforce
  qed (use inv in simp)
  with c show "redis_invar p (store (snd (repo_delete (redis_repo rds tc p) dn d)))"
    by (simp add: redis_repo_def)
next
  fix d i
  assume inv: "redis_invar p (store d)"
  obtain res d' where c: "redis_delete_by_instance_id rds p i d = (res, d')" by fastforce
  from laws inv c have "redis_invar p (store d')"
  proof (cases (no_simp) rule: redis_delete_instance_cases)
    case (2 ds)
    with delete_instance_store(2) [OF inv 2(1)] inv show ?thesis by fastforce
  qed (use inv in simp)
  with c show "redis_invar p (store (snd (repo_delete_by_instance_id (redis_repo rds tc p) i d)))"
    by (simp add: redis_repo_def)
qed

section \<open>A server in memory\<close>

text \<open>A server that holds its keys in a list and never fails; of two fields of one name the first counts.\<close>

datatype mvalue = MHash hash | MSet "string list"

type_synonym mem = "(string \<times> mvalue) list"

definition mem_put :: "string \<Rightarrow> mvalue option \<Rightarrow> mem \<Rightarrow> mem" where
  "mem_put k v ks = (case v of None \<Rightarrow> [] | Some x \<Rightarrow> [(k, x)]) @ filter (\<lambda>e. fst e \<noteq> k) ks"

definition mem_hash :: "string \<Rightarrow> mem \<Rightarrow> hash" where
  "mem_hash k ks = (case map_of ks k of Some (MHash h) \<Rightarrow> h | _ \<Rightarrow> [])"

definition mem_set :: "string \<Rightarrow> mem \<Rightarrow> string list" where
  "mem_set k ks = (case map_of ks k of Some (MSet s) \<Rightarrow> remdups s | _ \<Rightarrow> [])"

fun mem_exec :: "redis_cmd \<Rightarrow> mem \<Rightarrow> mem" where
  "mem_exec (HSet k h) ks = mem_put k (Some (MHash (h @ mem_hash k ks))) ks"
| "mem_exec (SAdd k m) ks = mem_put k (Some (MSet (List.insert m (mem_set k ks)))) ks"
| "mem_exec (SRem k m) ks =
     mem_put k (let s = removeAll m (mem_set k ks) in if s = [] then None else Some (MSet s)) ks"
| "mem_exec (Del k) ks = mem_put k None ks"

definition mem_redis :: "mem redis_ops" where
  "mem_redis =
     \<lparr>rds_ping = (\<lambda>ks. Inr ()), rds_smembers = (\<lambda>k ks. Inr (mem_set k ks)),
      rds_hgetall = (\<lambda>k ks. Inr (mem_hash k ks)),
      rds_pipeline = (\<lambda>kl ks. Inr (map (\<lambda>k. Inr (mem_hash k ks)) kl)),
      rds_hget = (\<lambda>k f ks. case map_of (mem_hash k ks) f of None \<Rightarrow> HNil | Some v \<Rightarrow> HVal v),
      rds_del = (\<lambda>k ks. (Inr (), mem_exec (Del k) ks)),
      rds_tx = (\<lambda>cs ks. (Inr (), fold mem_exec cs ks)), rds_close = (\<lambda>ks. (Inr (), ks))\<rparr>"

fun value_of :: "mvalue \<Rightarrow> rvalue" where
  "value_of (MHash h) = RHash (map_of h)"
| "value_of (MSet s) = RSet (set s)"

definition mem_store :: "mem \<Rightarrow> keyspace" where
  "mem_store ks k = map_option value_of (map_of ks k)"

lemma mem_store_reads [simp]:
  "hash_of (mem_store ks) k = map_of (mem_hash k ks)" "members (mem_store ks) k = set (mem_set k ks)"
  by (cases "map_of ks k"; cases "the (map_of ks k)";
      simp add: hash_of_def members_def mem_store_def mem_hash_def mem_set_def)+

lemma map_of_filter_key: "map_of (filter (\<lambda>e. fst e \<noteq> k) ks) k' = (if k' = k then None else map_of ks k')"
  by (induction ks) auto

lemma mem_store_put: "mem_store (mem_put k v ks) = (mem_store ks)(k := map_option value_of v)"
  by (rule ext) (auto simp: mem_store_def mem_put_def map_of_filter_key split: option.splits)

lemma mem_exec_store: "mem_store (mem_exec c ks) = exec_cmd c (mem_store ks)"
proof (cases c)
  case (SRem k m)
  have "set (removeAll m (mem_set k ks)) = set (mem_set k ks) - {m}" by simp
  moreover have "removeAll m (mem_set k ks) = [] \<longleftrightarrow> set (mem_set k ks) - {m} = {}"
    by (simp flip: set_empty)
  ultimately show ?thesis using SRem by (simp add: mem_store_put exec_cmd.simps Let_def)
qed (simp_all add: mem_store_put exec_cmd.simps)

lemma mem_laws: "redis_laws mem_redis mem_store"
proof -
  have "mem_store (fold mem_exec cs ks) = fold exec_cmd cs (mem_store ks)" for cs ks
    by (induction cs arbitrary: ks) (simp_all add: mem_exec_store)
  moreover have "distinct (mem_set k ks)" for k ks
    by (simp add: mem_set_def split: option.splits mvalue.splits)
  ultimately show ?thesis
    unfolding redis_laws_def mem_redis_def
    by (auto simp: list_all2_map2 list_all2_same mem_exec_store simp del: mem_exec.simps split: option.splits)
qed

interpretation redis_mem: record_repository "redis_repo mem_redis tc p" "\<lambda>ks. redis_content p (mem_store ks)"
    "\<lambda>ks. redis_invar p (mem_store ks)" redis_storable for tc p
  by (rule redis_record_repository [OF mem_laws])

lemma redis_invar_empty: "redis_invar p (mem_store [])"
  by (simp add: redis_invar_def mem_hash_def mem_set_def)

end
