(* ===== verification/Refresh.thy ===== *)
theory Refresh
  imports Server
begin

text \<open>
  The server's goroutines. A record operation calls the repository, then \<open>loadCache\<close>
  lists the records without a lock, builds the tables and installs them under the lock;
  the updater only reloads; a query reads the tables under the lock. A task is one
  operation or one tick of the updater; the step relation lets the tasks and the queries
  interleave between these points.
\<close>

section \<open>The two halves of a reload\<close>

definition fetch :: "'r repo_ops \<Rightarrow> ('r, 'x) server \<Rightarrow> (error + tsrecord list) \<times> ('r, 'x) server" where
  "fetch ops s =
     (case repo_find ops (srv_repository s) of
        Inl err \<Rightarrow>
          (Inl err, log_metric (RecordRepositoryOp ''find'' ''error'')
                      (log_metric (RecordCacheRefresh ''error'') s))
      | Inr records \<Rightarrow> (Inr records, log_metric (RecordRepositoryOp ''find'' ''success'') s))"

definition install :: "'x regexp \<Rightarrow> tsrecord list \<Rightarrow> ('r, 'x) server \<Rightarrow> ('r, 'x) server" where
  "install eng records s =
     (let (new_cache, wildcards, regexes) = process_records eng records
      in log_metric (RecordCacheRefresh ''success'')
           (s\<lparr>srv_cache := new_cache, srv_wildcard_records := sort_wildcards wildcards,
              srv_regex_records := regexes\<rparr>))"

text \<open>Without an interruption the two halves are \<open>load_cache\<close>.\<close>

lemma load_cache_halves:
  "load_cache ops eng s =
     (case fetch ops s of
        (Inl err, s) \<Rightarrow> (Inl err, s)
      | (Inr records, s) \<Rightarrow> (Inr (), install eng records s))"
  by (cases "repo_find ops (srv_repository s)") (simp_all add: load_cache_def fetch_def install_def split: prod.splits)

section \<open>Tasks and steps\<close>

datatype change = Upsert time tsrecord | Remove string | RemoveInstance int64

datatype phase =
    Called change
  | Reloading
  | Listed "tsrecord list"
  | Returned bool

fun op_name :: "change \<Rightarrow> string" where
  "op_name (Upsert now r) = ''create''"
| "op_name (Remove d) = ''delete''"
| "op_name (RemoveInstance i) = ''delete_by_instance''"

fun apply_change :: "'r repo_ops \<Rightarrow> change \<Rightarrow> 'r \<Rightarrow> bool \<times> 'r" where
  "apply_change ops (Upsert now r) repo = (let (res, repo) = repo_create ops now (Some r) repo in (is_ok res, repo))"
| "apply_change ops (Remove d) repo = (let (res, repo) = repo_delete ops d repo in (is_ok res, repo))"
| "apply_change ops (RemoveInstance i) repo =
     (let (res, repo) = repo_delete_by_instance_id ops i repo in (is_ok res, repo))"

record ('r, 'x) system =
  sys_server :: "('r, 'x) server"
  sys_tasks :: "phase list"

datatype event = Spawn "change option" | Step nat | Query conn

definition step_task ::
  "'r repo_ops \<Rightarrow> 'x regexp \<Rightarrow> phase \<Rightarrow> ('r, 'x) server \<Rightarrow> (phase \<times> ('r, 'x) server) option" where
  "step_task ops eng p s =
     (case p of
        Called ch \<Rightarrow>
          (let (ok, repo) = apply_change ops ch (srv_repository s);
               s = s\<lparr>srv_repository := repo\<rparr>
           in Some (if ok then (Reloading, log_metric (RecordRepositoryOp (op_name ch) ''success'') s)
                    else (Returned False, log_metric (RecordRepositoryOp (op_name ch) ''error'') s)))
      | Reloading \<Rightarrow>
          (case fetch ops s of
             (Inl err, s) \<Rightarrow> Some (Returned False, s)
           | (Inr records, s) \<Rightarrow> Some (Listed records, s))
      | Listed records \<Rightarrow> Some (Returned True, install eng records s)
      | Returned ok \<Rightarrow> None)"

inductive sys_step :: "'r repo_ops \<Rightarrow> 'x regexp \<Rightarrow> ('r, 'x) system \<Rightarrow> event \<Rightarrow> ('r, 'x) system \<Rightarrow> bool"
  for ops :: "'r repo_ops" and eng :: "'x regexp" where
  spawn: "sys_step ops eng st (Spawn co)
            (st\<lparr>sys_tasks := sys_tasks st @ [case co of None \<Rightarrow> Reloading | Some ch \<Rightarrow> Called ch]\<rparr>)"
| step: "\<lbrakk>i < length (sys_tasks st); step_task ops eng (sys_tasks st ! i) (sys_server st) = Some (p, s)\<rbrakk> \<Longrightarrow>
         sys_step ops eng st (Step i) (st\<lparr>sys_server := s, sys_tasks := (sys_tasks st)[i := p]\<rparr>)"
| query: "sys_step ops eng st (Query c) (st\<lparr>sys_server := fst (handle_query eng (sys_server st) c)\<rparr>)"

text \<open>An execution visits the states of the list \<open>trace\<close>, the latest first.\<close>

inductive execution :: "'r repo_ops \<Rightarrow> 'x regexp \<Rightarrow> ('r, 'x) system list \<Rightarrow> bool"
  for ops :: "'r repo_ops" and eng :: "'x regexp" where
  start: "execution ops eng [\<lparr>sys_server = s, sys_tasks = []\<rparr>]"
| extend: "\<lbrakk>execution ops eng (st # trace); sys_step ops eng st e st'\<rbrakk> \<Longrightarrow> execution ops eng (st' # st # trace)"

inductive_cases sys_stepE: "sys_step ops eng st e st'"

text \<open>A computable version of the relation: run a list of events, \<open>None\<close> when one is not enabled.\<close>

fun run_event :: "'r repo_ops \<Rightarrow> 'x regexp \<Rightarrow> event \<Rightarrow> ('r, 'x) system \<Rightarrow> ('r, 'x) system option" where
  "run_event ops eng (Spawn co) st =
     Some (st\<lparr>sys_tasks := sys_tasks st @ [case co of None \<Rightarrow> Reloading | Some ch \<Rightarrow> Called ch]\<rparr>)"
| "run_event ops eng (Step i) st =
     (if i < length (sys_tasks st) then
        (case step_task ops eng (sys_tasks st ! i) (sys_server st) of
           None \<Rightarrow> None
         | Some (p, s) \<Rightarrow> Some (st\<lparr>sys_server := s, sys_tasks := (sys_tasks st)[i := p]\<rparr>))
      else None)"
| "run_event ops eng (Query c) st = Some (st\<lparr>sys_server := fst (handle_query eng (sys_server st) c)\<rparr>)"

fun run_events :: "'r repo_ops \<Rightarrow> 'x regexp \<Rightarrow> event list \<Rightarrow> ('r, 'x) system list \<Rightarrow> ('r, 'x) system list option" where
  "run_events ops eng [] trace = Some trace"
| "run_events ops eng (e # es) [] = None"
| "run_events ops eng (e # es) (st # trace) =
     (case run_event ops eng e st of
        None \<Rightarrow> None
      | Some st' \<Rightarrow> run_events ops eng es (st' # st # trace))"

lemma run_event_iff: "run_event ops eng e st = Some st' \<longleftrightarrow> sys_step ops eng st e st'"
  by (cases e) (auto simp: sys_step.simps split: option.splits)

lemma run_events_execution:
  "\<lbrakk>execution ops eng trace; run_events ops eng es trace = Some trace'\<rbrakk> \<Longrightarrow> execution ops eng trace'"
  by (induction ops eng es trace rule: run_events.induct)
     (auto simp: run_event_iff split: option.splits intro: execution.extend)

section \<open>Every answer comes from one listing\<close>

text \<open>The listing \<open>rs\<close> was read in one of the states of the trace.\<close>

definition listed_in :: "'r repo_ops \<Rightarrow> ('r, 'x) system list \<Rightarrow> tsrecord list \<Rightarrow> bool" where
  "listed_in ops trace rs \<longleftrightarrow> (\<exists>st \<in> set trace. repo_find ops (srv_repository (sys_server st)) = Inr rs)"

lemma snapshot_install: "snapshot eng rs (install eng rs s)"
  by (simp add: snapshot_def install_def split: prod.splits)

lemma install_repository [simp]: "srv_repository (install eng rs s) = srv_repository s"
  by (simp add: install_def split: prod.splits)

definition same_tables :: "('r, 'x) server \<Rightarrow> ('r, 'x) server \<Rightarrow> bool" where
  "same_tables s s' \<longleftrightarrow> srv_cache s = srv_cache s' \<and> srv_wildcard_records s = srv_wildcard_records s' \<and>
     srv_regex_records s = srv_regex_records s'"

lemma snapshot_same: "same_tables s s' \<Longrightarrow> snapshot eng rs s \<longleftrightarrow> snapshot eng rs s'"
  by (simp add: same_tables_def snapshot_def)

lemma same_tables_query: "same_tables (fst (handle_query eng s c)) s"
  by (simp add: same_tables_def handle_query_outcome case_prod_unfold Let_def)

lemma query_repository [simp]: "srv_repository (fst (handle_query eng s c)) = srv_repository s"
  by (simp add: handle_query_outcome case_prod_unfold Let_def)

lemma fetch_cases:
  obtains e s' where "fetch ops s = (Inl e, s')" "same_tables s' s" "srv_repository s' = srv_repository s"
  | rs s' where "fetch ops s = (Inr rs, s')" "repo_find ops (srv_repository s) = Inr rs"
      "same_tables s' s" "srv_repository s' = srv_repository s"
  by (cases "repo_find ops (srv_repository s)") (auto simp: fetch_def same_tables_def)

lemma step_task_cases:
  assumes "step_task ops eng p s = Some (p', s')"
  obtains (change) ch where "p = Called ch" "p' = Reloading \<or> p' = Returned False" "same_tables s' s"
      "srv_repository s' = snd (apply_change ops ch (srv_repository s))"
      "p' = Reloading \<longleftrightarrow> fst (apply_change ops ch (srv_repository s))"
  | (failed) "p = Reloading" "p' = Returned False" "same_tables s' s" "srv_repository s' = srv_repository s"
  | (listed) rs where "p = Reloading" "p' = Listed rs" "repo_find ops (srv_repository s) = Inr rs"
      "same_tables s' s" "srv_repository s' = srv_repository s"
  | (installed) rs where "p = Listed rs" "p' = Returned True" "s' = install eng rs s"
proof (cases p)
  case (Called ch)
  then show thesis using assms change
    by (auto simp: step_task_def same_tables_def Let_def case_prod_unfold split: if_splits)
next
  case Reloading
  show thesis
  proof (cases rule: fetch_cases [of ops s])
    case 1
    then show thesis using assms failed Reloading by (simp add: step_task_def)
  next
    case 2
    then show thesis using assms listed Reloading by (auto simp: step_task_def)
  qed
qed (use assms installed in \<open>auto simp: step_task_def\<close>)

lemma listed_in_Cons: "listed_in ops trace rs \<Longrightarrow> listed_in ops (st # trace) rs"
  by (auto simp: listed_in_def)

text \<open>The tables, and every listing on its way into them, come from the trace.\<close>

definition tables_listed ::
  "'r repo_ops \<Rightarrow> 'x regexp \<Rightarrow> tsrecord list \<Rightarrow> ('r, 'x) system list \<Rightarrow> bool" where
  "tables_listed ops eng rs0 trace \<longleftrightarrow>
     (\<exists>rs. snapshot eng rs (sys_server (hd trace)) \<and> (rs = rs0 \<or> listed_in ops trace rs)) \<and>
     (\<forall>rs. Listed rs \<in> set (sys_tasks (hd trace)) \<longrightarrow> listed_in ops trace rs)"

lemma set_list_update_cases: "x \<in> set (xs[i := y]) \<Longrightarrow> x = y \<or> x \<in> set xs"
  using set_update_subset_insert by fastforce

lemma sys_step_tables_listed:
  assumes "tables_listed ops eng rs0 (st # trace)" "sys_step ops eng st e st'"
  shows "tables_listed ops eng rs0 (st' # st # trace)"
  using assms(2)
proof (cases rule: sys_step.cases)
  case (spawn co)
  then show ?thesis using assms(1)
    by (auto simp: tables_listed_def intro: listed_in_Cons split: option.splits)
next
  case (step i p s)
  let ?tr = "st' # st # trace"
  have old: "Listed rs \<in> set (sys_tasks st) \<Longrightarrow> listed_in ops ?tr rs" for rs
    using assms(1) by (auto simp: tables_listed_def intro: listed_in_Cons)
  obtain rs1 where rs1: "snapshot eng rs1 (sys_server st)" "rs1 = rs0 \<or> listed_in ops ?tr rs1"
    using assms(1) by (auto simp: tables_listed_def intro: listed_in_Cons)
  have new: "tables_listed ops eng rs0 ?tr"
    if "same_tables s (sys_server st)" "\<And>rs. p = Listed rs \<Longrightarrow> listed_in ops ?tr rs"
  proof -
    have "snapshot eng rs1 s" using rs1(1) snapshot_same [OF that(1)] by simp
    with rs1(2) old that(2) step show ?thesis
      by (auto simp: tables_listed_def dest!: set_list_update_cases)
  qed
  show ?thesis
    using step(4)
  proof (cases rule: step_task_cases)
    case (change ch)
    then show ?thesis using new by blast
  next
    case failed
    then show ?thesis using new by blast
  next
    case (listed rs)
    then have "listed_in ops ?tr rs" by (auto simp: listed_in_def)
    with listed new show ?thesis by blast
  next
    case (installed rs)
    then have "Listed rs \<in> set (sys_tasks st)" using step(3) nth_mem by metis
    then have "listed_in ops ?tr rs" by (rule old)
    moreover have "snapshot eng rs s" using installed by (simp add: snapshot_install)
    ultimately show ?thesis using old installed step
      by (auto simp: tables_listed_def dest!: set_list_update_cases)
  qed
next
  case (query c)
  then show ?thesis using assms(1)
    by (auto simp: tables_listed_def snapshot_same [OF same_tables_query] intro: listed_in_Cons)
qed

lemma execution_tables_listed:
  assumes "execution ops eng trace" "snapshot eng rs0 (sys_server (last trace))"
  shows "tables_listed ops eng rs0 trace"
  using assms
proof (induction rule: execution.induct)
  case (start s)
  then show ?case by (auto simp: tables_listed_def)
next
  case (extend st trace e st')
  then show ?case by (intro sys_step_tables_listed) auto
qed

section \<open>Reloads one at a time\<close>

text \<open>At most one task is between listing the records and installing the tables.\<close>

fun is_listed :: "phase \<Rightarrow> bool" where
  "is_listed (Listed rs) = True"
| "is_listed _ = False"

definition exclusive :: "('r, 'x) system \<Rightarrow> bool" where
  "exclusive st \<longleftrightarrow> length (filter is_listed (sys_tasks st)) \<le> 1"

lemma filter_le_1_nth:
  assumes "length (filter P xs) \<le> 1" "i < length xs" "j < length xs" "P (xs ! i)" "P (xs ! j)"
  shows "i = j"
proof (rule ccontr)
  assume "i \<noteq> j"
  then have "2 = card {i, j}" by simp
  also have "\<dots> \<le> card {k. k < length xs \<and> P (xs ! k)}" by (rule card_mono) (use assms in auto)
  also have "\<dots> \<le> 1" using assms(1) by (simp add: length_filter_conv_card)
  finally show False by simp
qed

definition listing_current :: "('r \<Rightarrow> string \<Rightarrow> entry option) \<Rightarrow> 'r \<Rightarrow> tsrecord list \<Rightarrow> bool" where
  "listing_current content repo rs \<longleftrightarrow> distinct (map rec_domain rs) \<and> entries_of rs = content repo"

text \<open>
  The tables are current, or a task that will bring them up to date is under way, or a
  task has failed.
\<close>

definition converging ::
  "('r \<Rightarrow> string \<Rightarrow> entry option) \<Rightarrow> 'x regexp \<Rightarrow> ('r, 'x) system \<Rightarrow> bool" where
  "converging content eng st \<longleftrightarrow>
     Reloading \<in> set (sys_tasks st) \<or> Returned False \<in> set (sys_tasks st) \<or>
     (if \<exists>rs. Listed rs \<in> set (sys_tasks st)
      then \<forall>rs. Listed rs \<in> set (sys_tasks st) \<longrightarrow> listing_current content (srv_repository (sys_server st)) rs
      else current content eng (sys_server st))"

lemma converging_settled:
  "\<lbrakk>converging content eng st; set (sys_tasks st) \<subseteq> {Returned True}\<rbrakk> \<Longrightarrow> current content eng (sys_server st)"
  by (auto simp: converging_def split: if_splits)

lemma current_same:
  "\<lbrakk>same_tables s s'; srv_repository s = srv_repository s'\<rbrakk> \<Longrightarrow> current content eng s \<longleftrightarrow> current content eng s'"
  by (simp add: current_def snapshot_same)

context record_repository
begin

lemma apply_change_invar: "invar r \<Longrightarrow> invar (snd (apply_change ops ch r))"
  using repo_invar by (cases ch) (auto simp: case_prod_unfold Let_def)

lemma sys_step_invar:
  assumes "sys_step ops eng st e st'" "invar (srv_repository (sys_server st))"
  shows "invar (srv_repository (sys_server st'))"
  using assms(1)
proof (cases rule: sys_step.cases)
  case (step i p s)
  show ?thesis
    using step(4)
  proof (cases rule: step_task_cases)
    case (change ch)
    with step apply_change_invar [OF assms(2)] show ?thesis by simp
  qed (use step assms(2) in simp_all)
qed (use assms(2) in \<open>simp_all add: handle_query_outcome case_prod_unfold Let_def\<close>)

lemma sys_step_converging:
  assumes "sys_step ops eng st e st'" "invar (srv_repository (sys_server st))"
    "exclusive st" "exclusive st'" "converging content eng st"
  shows "converging content eng st'"
  using assms(1)
proof (cases rule: sys_step.cases)
  case (spawn co)
  then show ?thesis using assms(5) by (auto simp: converging_def split: option.splits if_splits)
next
  case (step i p s)
  let ?ts = "sys_tasks st"
  have mem: "q = p \<or> q \<in> set ?ts" if "q \<in> set (?ts[i := p])" for q
    using that by (rule set_list_update_cases)
  have "p \<in> set (?ts[i := p])" using step(3) by (rule set_update_memI)
  then have p: "p \<in> set (sys_tasks st')" using step(2) by simp
  show ?thesis
    using step(4)
  proof (cases rule: step_task_cases)
    case (change ch)
    with p show ?thesis by (auto simp: converging_def)
  next
    case failed
    with p show ?thesis by (auto simp: converging_def)
  next
    case (listed rs)
    have one: "Listed rs' \<in> set (sys_tasks st') \<Longrightarrow> rs' = rs" for rs'
    proof -
      assume "Listed rs' \<in> set (sys_tasks st')"
      then obtain j where "j < length (sys_tasks st')" "sys_tasks st' ! j = Listed rs'" by (auto simp: in_set_conv_nth)
      moreover have "i < length (sys_tasks st')" "sys_tasks st' ! i = Listed rs" using step listed by simp_all
      moreover from calculation have "i = j"
        using assms(4) filter_le_1_nth [of is_listed "sys_tasks st'" i j] by (simp add: exclusive_def)
      ultimately show "rs' = rs" by simp
    qed
    have "listing_current content (srv_repository (sys_server st')) rs"
      using find_content [OF assms(2) listed(3)] listed(5) step(2) by (simp add: listing_current_def)
    with one have "\<forall>rs'. Listed rs' \<in> set (sys_tasks st') \<longrightarrow>
        listing_current content (srv_repository (sys_server st')) rs'" by blast
    moreover have "\<exists>rs'. Listed rs' \<in> set (sys_tasks st')" using p listed(2) by blast
    ultimately show ?thesis unfolding converging_def by presburger
  next
    case (installed rs)
    have i: "?ts ! i = Listed rs" "i < length ?ts" using step(3) installed(1) by simp_all
    have none: "Listed rs' \<notin> set (sys_tasks st')" for rs'
    proof
      assume "Listed rs' \<in> set (sys_tasks st')"
      then obtain j where j: "j < length ?ts" "sys_tasks st' ! j = Listed rs'"
        using step(2) by (auto simp: in_set_conv_nth)
      then have "j \<noteq> i" using step(2,3) installed(2) by auto
      moreover from this have "?ts ! j = Listed rs'" using j step(2) by simp
      ultimately show False
        using filter_le_1_nth [of is_listed ?ts i j] assms(3) i j(1) by (simp add: exclusive_def)
    qed
    have keep: "q \<in> set (sys_tasks st')" if "q \<in> set ?ts" "q \<noteq> Listed rs" for q
    proof -
      obtain j where j: "j < length ?ts" "?ts ! j = q" using \<open>q \<in> set ?ts\<close> by (auto simp: in_set_conv_nth)
      then have "j \<noteq> i" using i that by auto
      with j have "j < length (sys_tasks st') \<and> sys_tasks st' ! j = q" using step(2) by simp
      then show ?thesis by (metis nth_mem)
    qed
    have "Listed rs \<in> set ?ts" using i by (metis nth_mem)
    then consider "Reloading \<in> set ?ts \<or> Returned False \<in> set ?ts"
      | "listing_current content (srv_repository (sys_server st)) rs"
      using assms(5) by (auto simp: converging_def split: if_splits)
    then show ?thesis
    proof cases
      case 1
      with keep show ?thesis by (auto simp: converging_def)
    next
      case 2
      have "current content eng s"
        using 2 snapshot_install [of eng rs "sys_server st"] installed(3)
        by (auto simp: current_def listing_current_def)
      with none step(2) show ?thesis by (auto simp: converging_def)
    qed
  qed
next
  case (query c)
  then have "sys_tasks st' = sys_tasks st" "srv_repository (sys_server st') = srv_repository (sys_server st)"
    "current content eng (sys_server st') \<longleftrightarrow> current content eng (sys_server st)" by simp_all
  then show ?thesis using assms(5) unfolding converging_def by presburger
qed

text \<open>If reloads exclude each other, the tables are current whenever every task has succeeded.\<close>

lemma execution_converging:
  assumes "execution ops eng trace" "list_all exclusive trace"
    "invar (srv_repository (sys_server (last trace)))" "current content eng (sys_server (last trace))"
  shows "invar (srv_repository (sys_server (hd trace))) \<and> converging content eng (hd trace)"
  using assms
proof (induction rule: execution.induct)
  case (start s)
  then show ?case by (simp add: converging_def)
next
  case (extend st trace e st')
  then have "invar (srv_repository (sys_server st))" "converging content eng st" by simp_all
  with extend sys_step_invar [OF extend(2)] sys_step_converging [OF extend(2)] show ?case by simp
qed

end

section \<open>Failed operations\<close>

lemma same_tables_simps [simp]:
  "same_tables s s" "same_tables (log_metric m s) s' \<longleftrightarrow> same_tables s s'"
  "same_tables (s\<lparr>srv_repository := r\<rparr>) s' \<longleftrightarrow> same_tables s s'"
  by (simp_all add: same_tables_def)

lemma load_failed_tables: "load_cache ops eng s = (Inl e, s') \<Longrightarrow> same_tables s' s"
  by (cases "repo_find ops (srv_repository s)") (auto simp: load_cache_def Let_def split: prod.splits)

lemma load_failed_tables': "fst (load_cache ops eng s) = Inl e \<Longrightarrow> same_tables (snd (load_cache ops eng s)) s"
  by (metis load_failed_tables prod.collapse)

lemma upsert_failed_tables:
  assumes "fst (upsert_record ops eng now ro s) = Inl e"
  shows "same_tables (snd (upsert_record ops eng now ro s)) s"
proof (cases ro)
  case (Some r)
  obtain cres repo where c: "repo_create ops now (Some r) (srv_repository s) = (cres, repo)" by fastforce
  show ?thesis
  proof (cases cres)
    case (Inr r')
    let ?s = "log_metric (RecordRepositoryOp ''create'' ''success'') (s\<lparr>srv_repository := repo\<rparr>)"
    obtain lres s2 where l: "load_cache ops eng ?s = (lres, s2)" by fastforce
    with assms Some c Inr have "\<exists>e. lres = Inl e" by (cases lres) (simp_all add: upsert_record_def)
    then have "same_tables s2 ?s" using l load_failed_tables by blast
    with Some c Inr l \<open>\<exists>e. lres = Inl e\<close> show ?thesis
      by (auto simp: upsert_record_def) (simp add: same_tables_def)
  qed (simp add: upsert_record_def Some c)
qed (simp add: upsert_record_def)

lemma delete_failed_tables:
  assumes "fst (delete_record ops eng d s) = Inl e"
  shows "same_tables (snd (delete_record ops eng d s)) s"
proof -
  obtain res repo where c: "repo_delete ops d (srv_repository s) = (res, repo)" by fastforce
  show ?thesis
  proof (cases res)
    case (Inr u)
    then show ?thesis using assms c load_failed_tables' by (fastforce simp: delete_record_def same_tables_def)
  qed (simp add: delete_record_def c)
qed

lemma delete_instance_failed_tables:
  assumes "fst (delete_instance_records ops eng i s) = Inl e"
  shows "same_tables (snd (delete_instance_records ops eng i s)) s"
proof -
  obtain res repo where c: "repo_delete_by_instance_id ops i (srv_repository s) = (res, repo)" by fastforce
  show ?thesis
  proof (cases res)
    case (Inr u)
    then show ?thesis using assms c load_failed_tables' by (fastforce simp: delete_instance_records_def same_tables_def)
  qed (simp add: delete_instance_records_def c)
qed

end
