(* ===== verification/Ini_Parser.thy ===== *)
theory Ini_Parser
  imports Go_Strings
begin

text \<open>
  \<open>internal/importer/tsdnsini/parser.go\<close>: the lines \<open>ident=value\<close> of an official
  TSDNS settings file. A reader is the bytes it delivers and whether it fails after them;
  \<open>raw_lines\<close> and the bound on their length are \<open>bufio.Scanner\<close> with the buffer the
  code gives it, which must hold a line and its line feed.
\<close>

section \<open>Lines\<close>

definition max_buf_size :: nat where
  "max_buf_size = 1048576"

fun raw_lines_from :: "string \<Rightarrow> string \<Rightarrow> string list" where
  "raw_lines_from cur [] = (if cur = [] then [] else [rev cur])"
| "raw_lines_from cur (c # s) =
     (if c = CHR 0x0A then rev cur # raw_lines_from [] s else raw_lines_from (c # cur) s)"

definition raw_lines :: "string \<Rightarrow> string list" where
  "raw_lines s = raw_lines_from [] s"

definition drop_cr :: "string \<Rightarrow> string" where
  "drop_cr s = (if s \<noteq> [] \<and> last s = CHR 0x0D then butlast s else s)"

definition too_long :: "string \<Rightarrow> bool" where
  "too_long line \<longleftrightarrow> max_buf_size \<le> length line"

section \<open>Entries\<close>

record ini_entry =
  ent_ident :: string
  ent_value :: string
  ent_line :: nat

record parse_result =
  res_entries :: "ini_entry list"
  res_skipped :: nat

definition parse_line :: "nat \<Rightarrow> string \<Rightarrow> parse_result \<Rightarrow> parse_result" where
  "parse_line line_no scanned res =
     (let line = trim_space scanned
      in if line = [] \<or> has_prefix line ''#'' then res
         else case split_2 (CHR ''='') line of
           None \<Rightarrow> res\<lparr>res_skipped := res_skipped res + 1\<rparr>
         | Some (p0, p1) \<Rightarrow>
             (let ident = trim_space p0; val = trim_space p1
              in if ident = [] \<or> val = [] then res\<lparr>res_skipped := res_skipped res + 1\<rparr>
                 else res\<lparr>res_entries :=
                        res_entries res @ [\<lparr>ent_ident = ident, ent_value = val, ent_line = line_no\<rparr>]\<rparr>))"

fun parse_lines :: "nat \<Rightarrow> string list \<Rightarrow> parse_result \<Rightarrow> parse_result" where
  "parse_lines line_no [] res = res"
| "parse_lines line_no (l # ls) res = parse_lines (line_no + 1) ls (parse_line (line_no + 1) (drop_cr l) res)"

record reader =
  rd_bytes :: string
  rd_fails :: bool

text \<open>The error of the result is that of the reader, a nil reader or a line that is too long.\<close>

datatype parse_error = ReaderNil | ScanTooLong | ScanRead

definition parse_ini :: "reader option \<Rightarrow> parse_error + parse_result" where
  "parse_ini ro =
     (case ro of
        None \<Rightarrow> Inl ReaderNil
      | Some rd \<Rightarrow>
          (let ls = raw_lines (rd_bytes rd)
           in if list_ex too_long ls then Inl ScanTooLong
              else if rd_fails rd then Inl ScanRead
              else Inr (parse_lines 0 ls \<lparr>res_entries = [], res_skipped = 0\<rparr>)))"

section \<open>Lemmas\<close>

text \<open>What every entry satisfies.\<close>

definition entry_ok :: "ini_entry \<Rightarrow> bool" where
  "entry_ok e \<longleftrightarrow>
     ent_ident e \<noteq> [] \<and> ent_value e \<noteq> [] \<and> trim_space (ent_ident e) = ent_ident e \<and>
     trim_space (ent_value e) = ent_value e \<and> CHR ''='' \<notin> set (ent_ident e)"

text \<open>The lines that carry something: neither blank nor a comment.\<close>

definition significant :: "string \<Rightarrow> bool" where
  "significant l \<longleftrightarrow> (let line = trim_space (drop_cr l) in line \<noteq> [] \<and> \<not> has_prefix line ''#'')"

lemma set_trim_space: "set (trim_space s) \<subseteq> set s"
proof -
  obtain u v where "s = u @ trim_left_space s" "trim_left_space s = trim_space s @ v"
    using strip_words_suffix [of s utf8_spaces] trim_right_space_prefix [of "trim_left_space s"]
    by (auto simp: trim_left_space_def trim_space_def)
  then show ?thesis by (metis Un_iff set_append subsetI)
qed

lemma parse_line_cases:
  obtains "\<not> significant l" "parse_line n (drop_cr l) res = res"
  | "significant l" "parse_line n (drop_cr l) res = res\<lparr>res_skipped := res_skipped res + 1\<rparr>"
  | e where "significant l" "parse_line n (drop_cr l) res = res\<lparr>res_entries := res_entries res @ [e]\<rparr>"
      "entry_ok e" "ent_line e = n"
proof (cases "significant l")
  case True
  let ?line = "trim_space (drop_cr l)"
  have sig: "?line \<noteq> []" "\<not> has_prefix ?line ''#''" using True by (simp_all add: significant_def Let_def del: has_prefix_Cons)
  show thesis
  proof (cases "split_2 (CHR ''='') ?line")
    case None
    with sig True show thesis by (intro that(2)) (simp_all add: parse_line_def del: has_prefix_Cons split_2_None)
  next
    case (Some ab)
    obtain a b where ab: "ab = (a, b)" by (cases ab)
    then have "CHR ''='' \<notin> set a" using Some by (auto dest: split_2_SomeD)
    then have "CHR ''='' \<notin> set (trim_space a)" using set_trim_space by blast
    with sig True Some ab show thesis
      using that(2) that(3) [of "\<lparr>ent_ident = trim_space a, ent_value = trim_space b, ent_line = n\<rparr>"]
      by (cases "trim_space a = [] \<or> trim_space b = []")
         (auto simp: parse_line_def entry_ok_def simp del: has_prefix_Cons split_2_None)
  qed
next
  case False
  then show thesis by (intro that(1)) (auto simp: significant_def parse_line_def Let_def simp del: has_prefix_Cons)
qed

lemma parse_lines_invariant:
  assumes "list_all entry_ok (res_entries res)" "sorted_wrt (<) (map ent_line (res_entries res))"
    "list_all (\<lambda>e. ent_line e \<le> n) (res_entries res)"
  shows "list_all entry_ok (res_entries (parse_lines n ls res)) \<and>
    sorted_wrt (<) (map ent_line (res_entries (parse_lines n ls res))) \<and>
    list_all (\<lambda>e. ent_line e \<le> n + length ls) (res_entries (parse_lines n ls res)) \<and>
    length (res_entries (parse_lines n ls res)) + res_skipped (parse_lines n ls res) =
      length (res_entries res) + res_skipped res + length (filter significant ls)"
  using assms
proof (induction ls arbitrary: n res)
  case (Cons l ls)
  let ?res = "parse_line (n + 1) (drop_cr l) res"
  have ok: "list_all entry_ok (res_entries ?res)" "sorted_wrt (<) (map ent_line (res_entries ?res))"
    "list_all (\<lambda>e. ent_line e \<le> n + 1) (res_entries ?res)"
    "length (res_entries ?res) + res_skipped ?res =
      length (res_entries res) + res_skipped res + (if significant l then 1 else 0)"
    by (rule parse_line_cases [of l "n + 1" res];
        use Cons.prems in \<open>force simp: sorted_wrt_append list_all_iff\<close>)+
  from Cons.IH [OF ok(1-3)] ok(4) show ?case by (simp add: algebra_simps)
qed (auto simp: list_all_iff)

section \<open>Printing and reading back\<close>

definition entry_text :: "ini_entry \<Rightarrow> string" where
  "entry_text e = ent_ident e @ ''='' @ ent_value e"

definition print_ini :: "ini_entry list \<Rightarrow> string" where
  "print_ini es = concat (map (\<lambda>e. entry_text e @ [CHR 0x0A]) es)"

text \<open>Texts that a line can carry unchanged: no line feed, no space at either end.\<close>

definition field_clean :: "string \<Rightarrow> bool" where
  "field_clean s \<longleftrightarrow> s \<noteq> [] \<and> graph_char (hd s) \<and> graph_char (last s) \<and> CHR 0x0A \<notin> set s"

definition entry_clean :: "ini_entry \<Rightarrow> bool" where
  "entry_clean e \<longleftrightarrow>
     field_clean (ent_ident e) \<and> field_clean (ent_value e) \<and> CHR ''='' \<notin> set (ent_ident e) \<and>
     hd (ent_ident e) \<noteq> CHR ''#'' \<and> length (entry_text e) < max_buf_size"

lemma field_clean_trim: "field_clean s \<Longrightarrow> trim_space s = s"
  by (simp add: field_clean_def trim_space_graph_ends)

lemma raw_lines_from_line:
  "CHR 0x0A \<notin> set l \<Longrightarrow> raw_lines_from cur (l @ CHR 0x0A # s) = (rev cur @ l) # raw_lines_from [] s"
  by (induction l arbitrary: cur) auto

lemma raw_lines_print:
  "list_all (\<lambda>e. CHR 0x0A \<notin> set (entry_text e)) es \<Longrightarrow> raw_lines (print_ini es) = map entry_text es"
  by (induction es) (simp_all add: raw_lines_def print_ini_def raw_lines_from_line)

lemma entry_clean_text:
  assumes "entry_clean e"
  shows "CHR 0x0A \<notin> set (entry_text e)" "drop_cr (entry_text e) = entry_text e"
    "parse_line n (entry_text e) res = res\<lparr>res_entries := res_entries res @ [e\<lparr>ent_line := n\<rparr>]\<rparr>"
proof -
  have ne: "ent_ident e \<noteq> []" "ent_value e \<noteq> []" using assms by (simp_all add: entry_clean_def field_clean_def)
  show "CHR 0x0A \<notin> set (entry_text e)" using assms by (simp add: entry_text_def entry_clean_def field_clean_def)
  have "graph_char (last (ent_value e))" using assms by (simp add: entry_clean_def field_clean_def)
  then have "last (ent_value e) \<noteq> CHR 0x0D" by (auto simp: graph_char_def)
  then show "drop_cr (entry_text e) = entry_text e" using ne by (simp add: drop_cr_def entry_text_def)
  have "trim_space (entry_text e) = entry_text e"
    using assms by (intro trim_space_graph_ends) (simp_all add: entry_text_def entry_clean_def field_clean_def)
  moreover have "split_2 (CHR ''='') (entry_text e) = Some (ent_ident e, ent_value e)"
    using assms by (simp add: entry_text_def entry_clean_def gostr)
  moreover have "hd (entry_text e) \<noteq> CHR ''#''" using assms ne by (simp add: entry_text_def entry_clean_def)
  moreover have "entry_text e \<noteq> []" by (simp add: entry_text_def)
  ultimately show "parse_line n (entry_text e) res = res\<lparr>res_entries := res_entries res @ [e\<lparr>ent_line := n\<rparr>]\<rparr>"
    using assms ne by (simp add: parse_line_def entry_clean_def field_clean_trim Let_def)
qed

text \<open>The entries with the numbers of the lines they are printed on.\<close>

fun numbered :: "nat \<Rightarrow> ini_entry list \<Rightarrow> ini_entry list" where
  "numbered n [] = []"
| "numbered n (e # es) = e\<lparr>ent_line := n + 1\<rparr> # numbered (n + 1) es"

lemma parse_lines_clean:
  "list_all entry_clean es \<Longrightarrow>
   parse_lines n (map entry_text es) res = res\<lparr>res_entries := res_entries res @ numbered n es\<rparr>"
  by (induction es arbitrary: n res) (simp_all add: entry_clean_text)

lemma parse_print_clean:
  assumes "list_all entry_clean es"
  shows "parse_ini (Some \<lparr>rd_bytes = print_ini es, rd_fails = False\<rparr>) =
    Inr \<lparr>res_entries = numbered 0 es, res_skipped = 0\<rparr>"
proof -
  have lines: "raw_lines (print_ini es) = map entry_text es"
    using assms by (intro raw_lines_print) (auto simp: list_all_iff entry_clean_text)
  have "\<not> list_ex too_long (map entry_text es)"
    using assms by (auto simp: list_all_iff list_ex_iff too_long_def entry_clean_def)
  with lines show ?thesis using parse_lines_clean [OF assms] by (simp add: parse_ini_def Let_def)
qed

lemma parse_ini_ok:
  assumes "parse_ini (Some rd) = Inr res"
  shows "list_all entry_ok (res_entries res)" "sorted_wrt (<) (map ent_line (res_entries res))"
    "length (res_entries res) + res_skipped res = length (filter significant (raw_lines (rd_bytes rd)))"
proof -
  let ?init = "\<lparr>res_entries = [], res_skipped = 0\<rparr>"
  have "res = parse_lines 0 (raw_lines (rd_bytes rd)) ?init"
    using assms by (auto simp: parse_ini_def Let_def split: if_splits)
  with parse_lines_invariant [of ?init 0 "raw_lines (rd_bytes rd)"]
  show "list_all entry_ok (res_entries res)" "sorted_wrt (<) (map ent_line (res_entries res))"
    "length (res_entries res) + res_skipped res = length (filter significant (raw_lines (rd_bytes rd)))"
    by simp_all
qed

end
