(* ===== verification/Importer.thy ===== *)
theory Importer
  imports Server Ini_Parser
begin

text \<open>
  The import command of \<open>internal/cli/import.go\<close>: the values of the parsed entries are
  read as lists of targets and every entry becomes a record of the repository.
  \<open>clock k\<close> is the time at which the \<open>k\<close>-th record is created.
\<close>

section \<open>Targets\<close>

text \<open>One part of a value; an address without a port gets port 0, the query's port.\<close>

definition import_part :: "string \<Rightarrow> addr_port option" where
  "import_part p =
     (case parse_addr_port p of
        Some tp \<Rightarrow> Some tp
      | None \<Rightarrow>
          (case parse_addr (trim_set p ''[] '') of
             None \<Rightarrow> None
           | Some a \<Rightarrow> Some (a, 0)))"

fun import_parts :: "nat \<Rightarrow> string list \<Rightarrow> error + addr_port list" where
  "import_parts line [] = Inr []"
| "import_parts line (p # ps) =
     (case import_part p of
        None \<Rightarrow> Inl (ErrLineInvalidIP line p)
      | Some tp \<Rightarrow>
          (case import_parts line ps of
             Inl err \<Rightarrow> Inl err
           | Inr tps \<Rightarrow> Inr (tp # tps)))"

definition import_targets :: "ini_entry \<Rightarrow> error + addr_port list" where
  "import_targets e =
     (if ent_value e \<noteq> [] \<and> \<not> equal_fold (ent_value e) ''NORESPONSE''
      then import_parts (ent_line e) (str_fields (replace_all '','' '' '' (ent_value e)))
      else Inr [])"

section \<open>Entries\<close>

text \<open>\<open>imported\<close> counts the records created; on an error the code returns 0 with it.\<close>

fun import_entries ::
  "'r repo_ops \<Rightarrow> (nat \<Rightarrow> time) \<Rightarrow> int64 \<Rightarrow> nat \<Rightarrow> ini_entry list \<Rightarrow> 'r \<Rightarrow> (error + nat) \<times> 'r" where
  "import_entries ops clock instance_id imported [] repo = (Inr imported, repo)"
| "import_entries ops clock instance_id imported (e # es) repo =
     (case import_targets e of
        Inl err \<Rightarrow> (Inl err, repo)
      | Inr targets \<Rightarrow>
          (case repo_create ops (clock imported) (Some (new_record instance_id (ent_ident e) targets)) repo of
             (Inl err, repo) \<Rightarrow> (Inl (ErrLineCreate (ent_line e) (ent_ident e) err), repo)
           | (Inr r, repo) \<Rightarrow> import_entries ops clock instance_id (imported + 1) es repo))"

section \<open>Lemmas\<close>

lemma import_part_valid: "import_part p = Some tp \<Longrightarrow> is_valid (fst tp)"
  by (cases tp) (auto simp: import_part_def dest: parse_addr_port_valid parse_addr_valid split: option.splits)

lemma import_parts_valid: "import_parts line ps = Inr tps \<Longrightarrow> list_all (\<lambda>tp. is_valid (fst tp)) tps"
  by (induction ps arbitrary: tps) (auto dest: import_part_valid split: option.splits sum.splits)

lemma import_targets_valid: "import_targets e = Inr tps \<Longrightarrow> list_all (\<lambda>tp. is_valid (fst tp)) tps"
  by (auto simp: import_targets_def dest: import_parts_valid split: if_splits)

text \<open>Targets printed with their ports, separated by blanks, are read back.\<close>

lemma import_part_text: "is_valid a \<Longrightarrow> import_part (addr_port_string (a, p)) = Some (a, p)"
  by (simp add: import_part_def roundtrip)

lemma import_parts_text:
  "list_all (\<lambda>tp. is_valid (fst tp)) tps \<Longrightarrow> import_parts line (map addr_port_string tps) = Inr tps"
  by (induction tps) (auto simp: import_part_text)

lemma replace_all_absent: "c \<notin> set s \<Longrightarrow> replace_all [c] new s = s"
proof (induction s)
  case (Cons d s)
  then have "\<not> has_prefix (d # s) [c]" by auto
  with Cons show ?case by (simp add: replace_all_miss del: has_prefix_Cons)
qed simp

lemma import_targets_text:
  assumes "list_all (\<lambda>tp. is_valid (fst tp) \<and> zoneless (fst tp)) tps" "tps \<noteq> []"
    "ent_value e = join '' '' (map addr_port_string tps)"
  shows "import_targets e = Inr tps"
proof -
  have v: "list_all (\<lambda>tp. is_valid (fst tp)) tps" using assms(1) by (simp add: list_all_iff)
  have "str_fields (ent_value e) = map addr_port_string tps"
    unfolding assms(3)
  proof (rule fields_join_blank)
    fix x
    assume "x \<in> set (map addr_port_string tps)"
    then obtain a p where "x = addr_port_string (a, p)" "is_valid a" "zoneless a"
      using assms(1) by (auto simp: list_all_iff)
    then show "graphic x \<and> x \<noteq> []" by (simp add: addr_texts_graphic)
  qed
  moreover have ne: "ent_value e \<noteq> []" using assms(2,3) by (cases tps; cases "tl tps") auto
  moreover have chars: "c = CHR '' '' \<or> addr_char c" if "c \<in> set (ent_value e)" for c
  proof -
    have "c = CHR '' '' \<or> (\<exists>tp \<in> set tps. c \<in> set (addr_port_string tp))"
      using that set_join [of "'' ''" "map addr_port_string tps"] unfolding assms(3) by auto
    then show ?thesis
    proof
      assume "\<exists>tp \<in> set tps. c \<in> set (addr_port_string tp)"
      then obtain a p where ap: "(a, p) \<in> set tps" "c \<in> set (addr_port_string (a, p))" by auto
      then have "is_valid a \<and> zoneless a" using assms(1) by (auto simp: list_all_iff)
      with ap(2) addr_text_chars show ?thesis by blast
    qed simp
  qed
  then have "CHR '','' \<notin> set (ent_value e)" by (force simp: addr_char_def)
  moreover have "\<not> equal_fold (ent_value e) ''NORESPONSE''"
    using addr_chars_no_response [OF ne] chars by blast
  ultimately show ?thesis
    using import_parts_text [OF v] by (simp add: import_targets_def replace_all_absent)
qed

text \<open>The entry that an ini entry stands for in the repository.\<close>

definition ini_content :: "int64 \<Rightarrow> ini_entry \<Rightarrow> (string \<times> entry) option" where
  "ini_content i e = (case import_targets e of Inl err \<Rightarrow> None | Inr tps \<Rightarrow> Some (ent_ident e, (i, tps)))"

context record_repository
begin

text \<open>
  An import that succeeds has stored every entry, the later of two for one domain; one that
  fails has stored the entries before the failing one.
\<close>

lemma import_entries_content:
  assumes "invar r" "\<And>e tps. \<lbrakk>e \<in> set es; import_targets e = Inr tps\<rbrakk> \<Longrightarrow> list_all storable tps"
    "import_entries ops clock i n es r = (res, r')"
  shows "\<exists>k. (res = Inr (n + k) \<and> k = length es \<or> (\<exists>e. res = Inl e) \<and> k < length es) \<and>
    list_all (\<lambda>e. ini_content i e \<noteq> None) (take k es) \<and>
    (is_ok res \<longrightarrow> invar r' \<and> content r' = content r ++ map_of (rev (List.map_filter (ini_content i) es)))"
  using assms
proof (induction es arbitrary: n r)
  case (Cons e es)
  show ?case
  proof (cases "import_targets e")
    case (Inl err)
    with Cons.prems(3) show ?thesis by (intro exI [of _ 0]) auto
  next
    case (Inr tps)
    let ?x = "new_record i (ent_ident e) tps"
    obtain cres r1 where c: "repo_create ops (clock n) (Some ?x) r = (cres, r1)" by fastforce
    show ?thesis
    proof (cases cres)
      case (Inl err)
      with Cons.prems(3) Inr c show ?thesis
        by (intro exI [of _ 0]) (auto simp: \<open>import_targets e = Inr tps\<close>)
    next
      case (Inr x')
      have "list_all storable (rec_targets ?x)"
        using Cons.prems(2) [OF _ \<open>import_targets e = Inr tps\<close>] by simp
      note cc = create_content [OF Cons.prems(1) this c [unfolded Inr]]
      have inv: "invar r1" using create_invar [OF Cons.prems(1), of "clock n" "Some ?x"] c by simp
      have rest: "import_entries ops clock i (n + 1) es r1 = (res, r')"
        using Cons.prems(3) c Inr \<open>import_targets e = Inr tps\<close> by simp
      obtain k where k: "res = Inr (n + 1 + k) \<and> k = length es \<or> (\<exists>e. res = Inl e) \<and> k < length es"
        "list_all (\<lambda>e. ini_content i e \<noteq> None) (take k es)"
        "is_ok res \<longrightarrow> invar r' \<and> content r' = content r1 ++ map_of (rev (List.map_filter (ini_content i) es))"
        using Cons.IH [OF inv _ rest] Cons.prems(2) by (metis list.set_intros(2))
      have e: "ini_content i e = Some (ent_ident e, (i, tps))"
        by (simp add: ini_content_def \<open>import_targets e = Inr tps\<close>)
      have "content r1 = (content r)(ent_ident e \<mapsto> (i, tps))" using cc by simp
      then show ?thesis
        using k e by (intro exI [of _ "Suc k"]) (auto simp: List.map_filter_simps map_add_upd_left)
    qed
  qed
qed auto

end

end
