(* ===== verification/Fixtures.thy ===== *)
theory Fixtures
  imports Sql_Repo Redis_Repo Refresh Importer "HOL-Library.Code_Target_Nat"
begin

text \<open>
  Concrete servers, tables and connections on which the properties are evaluated. The
  expression engine is \<open>frag_regexp\<close>, the databases are the ones in memory.
\<close>

definition test_server :: "'r \<Rightarrow> ('r, rx_item list) server" where
  "test_server r =
     \<lparr>srv_repository = r, srv_metrics = [], srv_listening = True, srv_cancelled = False,
      srv_addr = ''0.0.0.0:41144'', srv_cache = Map.empty, srv_wildcard_records = [],
      srv_regex_records = [], srv_cache_refresh_interval = 0, srv_logger = new_default_logger\<rparr>"

lemma test_server_repository [simp]: "srv_repository (test_server r) = r"
  by (simp add: test_server_def)

definition test_target :: addr_port where
  "test_target = (Addr4 10 0 0 1, 9987)"

definition test_target6 :: addr_port where
  "test_target6 = (Addr6 0x2001 0xdb8 0 0 0 0 0 1 [], 0)"

definition test_conn :: "string \<Rightarrow> conn" where
  "test_conn s = \<lparr>conn_read = Inr s, conn_write_fails = False, conn_written = [], conn_closed = False\<rparr>"

text \<open>Four records: two wildcards, a glob and a plain name.\<close>

definition wild_entries :: "(string \<times> addr_port list) list" where
  "wild_entries = [(''*.ts'', [test_target]), (''*.eu.ts'', [test_target6]), (''a?.ts'', []), (''x.ts'', [])]"

definition wild_table :: table where
  "wild_table = fold (\<lambda>(d, ts) t. snd (sql_create table_db 7 (Some (new_record 1 d ts)) t)) wild_entries empty_table"

definition wild_server :: "(table, rx_item list) server" where
  "wild_server = test_server wild_table"

definition wild_records :: "tsrecord list" where
  "wild_records = map (\<lambda>(i, d, ts). (new_record 1 d ts)\<lparr>rec_created_at := 7, rec_updated_at := 7, rec_id := i\<rparr>)
     (zip [1, 2, 3, 4] wild_entries)"

lemma wild_find: "repo_find (sql_repo table_db) (srv_repository wild_server) = Inr wild_records"
  by code_simp

lemma sql_invar_empty: "sql_invar (tbl_rows empty_table)"
  by (simp add: sql_invar_def empty_table_def)

text \<open>The invariant of a table reached by creations only.\<close>

lemma sql_invar_creates: "sql_invar (tbl_rows t) \<Longrightarrow>
   sql_invar (tbl_rows (fold (\<lambda>(d, ts) t. snd (sql_create table_db now (Some (new_record i d ts)) t)) es t))"
proof (induction es arbitrary: t)
  case (Cons e es)
  have "sql_invar (tbl_rows (snd (sql_create table_db now (Some (new_record i (fst e) (snd e))) t)))"
    using sql_table.create_invar [OF Cons.prems] by (simp add: sql_repo_def)
  with Cons.IH show ?case by (simp add: case_prod_unfold)
qed simp

lemma sql_invar_wild: "sql_invar (tbl_rows wild_table)"
  unfolding wild_table_def by (rule sql_invar_creates [OF sql_invar_empty])

lemma wild_current: "current (\<lambda>t. sql_content (tbl_rows t)) frag_regexp
    (snd (load_cache (sql_repo table_db) frag_regexp wild_server))"
proof -
  have "srv_repository wild_server = wild_table" by (simp add: wild_server_def)
  then have inv: "sql_invar (tbl_rows (srv_repository wild_server))" by (simp add: sql_invar_wild)
  have "load_cache (sql_repo table_db) frag_regexp wild_server =
      (Inr (), snd (load_cache (sql_repo table_db) frag_regexp wild_server))"
    using load_cache_Inr(1) [OF wild_find, of frag_regexp] by (metis prod.collapse)
  from sql_table.load_current [OF inv this] show ?thesis by blast
qed

text \<open>A codec of times that prints nanoseconds.\<close>

definition test_codec :: time_codec where
  "test_codec = \<lparr>tc_format = itoa, tc_parse = (\<lambda>s. map_option sint (parse_int64 s))\<rparr>"

section \<open>Executions\<close>

text \<open>The updater lists the empty repository, an upsert runs to its end, the updater installs its listing.\<close>

definition race_server :: "(table, rx_item list) server" where
  "race_server = snd (load_cache (sql_repo table_db) frag_regexp (test_server empty_table))"

definition race_events :: "event list" where
  "race_events =
     [Spawn None, Step 0, Spawn (Some (Upsert 5 (new_record 1 ''ts.example'' [test_target]))),
      Step 1, Step 1, Step 1, Step 0]"

definition start_trace :: "(table, rx_item list) system list" where
  "start_trace = [\<lparr>sys_server = race_server, sys_tasks = []\<rparr>]"

definition run_trace :: "event list \<Rightarrow> (table, rx_item list) system list" where
  "run_trace es = the (run_events (sql_repo table_db) frag_regexp es start_trace)"

text \<open>The same operations, one after the other.\<close>

definition serial_events :: "event list" where
  "serial_events =
     [Spawn None, Step 0, Step 0, Spawn (Some (Upsert 5 (new_record 1 ''ts.example'' [test_target]))),
      Step 1, Step 1, Step 1]"

lemma run_trace_execution:
  assumes "run_events (sql_repo table_db) frag_regexp es start_trace \<noteq> None"
  shows "execution (sql_repo table_db) frag_regexp (run_trace es)"
  using assms run_events_execution [OF execution.start [of "sql_repo table_db" frag_regexp race_server]]
  by (auto simp: run_trace_def start_trace_def)

lemma run_events_last: "\<lbrakk>run_events ops eng es trace = Some trace'; trace \<noteq> []\<rbrakk> \<Longrightarrow> last trace' = last trace"
  by (induction ops eng es trace rule: run_events.induct) (auto split: option.splits)

lemma run_trace_last:
  "run_events (sql_repo table_db) frag_regexp es start_trace \<noteq> None \<Longrightarrow>
   sys_server (last (run_trace es)) = race_server"
  using run_events_last by (fastforce simp: run_trace_def start_trace_def)

lemma race_server_invar: "srv_repository race_server = empty_table"
  by (simp add: race_server_def)

lemma race_server_current: "current (\<lambda>t. sql_content (tbl_rows t)) frag_regexp race_server"
proof -
  have "is_ok (fst (load_cache (sql_repo table_db) frag_regexp (test_server empty_table)))" by code_simp
  then obtain u where "load_cache (sql_repo table_db) frag_regexp (test_server empty_table) = (Inr u, race_server)"
    unfolding race_server_def by (metis is_okE prod.collapse)
  from sql_table.load_current [OF _ this] sql_invar_empty show ?thesis by simp
qed

lemma race_runs:
  "run_events (sql_repo table_db) frag_regexp race_events start_trace \<noteq> None"
  "run_events (sql_repo table_db) frag_regexp serial_events start_trace \<noteq> None"
proof -
  have "\<not> Option.is_none (run_events (sql_repo table_db) frag_regexp race_events start_trace)"
    "\<not> Option.is_none (run_events (sql_repo table_db) frag_regexp serial_events start_trace)" by code_simp+
  then show "run_events (sql_repo table_db) frag_regexp race_events start_trace \<noteq> None"
    "run_events (sql_repo table_db) frag_regexp serial_events start_trace \<noteq> None"
    by (auto simp: Option.is_none_def split: option.splits)
qed

end
