(* ===== verification/Metrics.thy ===== *)
theory Metrics
  imports Handler
begin

text \<open>
  The two implementations of the \<open>Metrics\<close> interface: the one that does nothing and the
  Prometheus one, whose vectors are maps from label values to counts. Of the histogram the
  number of observations is kept, not the durations.
\<close>

section \<open>The implementations\<close>

record prom_metrics =
  query_total :: "string \<Rightarrow> nat"
  cache_refresh_total :: "string \<Rightarrow> nat"
  repository_op_latency :: "string \<times> string \<Rightarrow> nat"

definition new_prometheus_metrics :: prom_metrics where
  "new_prometheus_metrics =
     \<lparr>query_total = (\<lambda>_. 0), cache_refresh_total = (\<lambda>_. 0), repository_op_latency = (\<lambda>_. 0)\<rparr>"

text \<open>\<open>WithLabelValues(l).Inc()\<close>, and the same step for an observation.\<close>

definition inc :: "'l \<Rightarrow> ('l \<Rightarrow> nat) \<Rightarrow> 'l \<Rightarrow> nat" where
  "inc l v = v(l := v l + 1)"

definition record_query :: "string \<Rightarrow> prom_metrics \<Rightarrow> prom_metrics" where
  "record_query status p = p\<lparr>query_total := inc status (query_total p)\<rparr>"

definition record_cache_refresh :: "string \<Rightarrow> prom_metrics \<Rightarrow> prom_metrics" where
  "record_cache_refresh status p = p\<lparr>cache_refresh_total := inc status (cache_refresh_total p)\<rparr>"

definition record_repository_op :: "string \<Rightarrow> string \<Rightarrow> prom_metrics \<Rightarrow> prom_metrics" where
  "record_repository_op op status p = p\<lparr>repository_op_latency := inc (op, status) (repository_op_latency p)\<rparr>"

fun report :: "metric \<Rightarrow> prom_metrics \<Rightarrow> prom_metrics" where
  "report (RecordQuery status) = record_query status"
| "report (RecordCacheRefresh status) = record_cache_refresh status"
| "report (RecordRepositoryOp op status) = record_repository_op op status"

fun nop_report :: "metric \<Rightarrow> 'p \<Rightarrow> 'p" where
  "nop_report (RecordQuery status) p = p"
| "nop_report (RecordCacheRefresh status) p = p"
| "nop_report (RecordRepositoryOp op status) p = p"

text \<open>What Prometheus shows after the calls of the server.\<close>

definition reported :: "metric list \<Rightarrow> prom_metrics" where
  "reported ms = fold report ms new_prometheus_metrics"

section \<open>Lemmas\<close>

text \<open>Each vector counts the calls with its labels.\<close>

lemma fold_report:
  "query_total (fold report ms p) st = query_total p st + length (filter (\<lambda>m. m = RecordQuery st) ms)"
  "cache_refresh_total (fold report ms p) st =
     cache_refresh_total p st + length (filter (\<lambda>m. m = RecordCacheRefresh st) ms)"
  "repository_op_latency (fold report ms p) (op, st) =
     repository_op_latency p (op, st) + length (filter (\<lambda>m. m = RecordRepositoryOp op st) ms)"
proof (induction ms arbitrary: p)
  case (Cons m ms)
  {
    case 1
    show ?case using Cons.IH(1) by (cases m) (simp_all add: report.simps record_query_def record_cache_refresh_def
      record_repository_op_def inc_def)
  next
    case 2
    show ?case using Cons.IH(2) by (cases m) (simp_all add: report.simps record_query_def record_cache_refresh_def
      record_repository_op_def inc_def)
  next
    case 3
    show ?case using Cons.IH(3) by (cases m) (simp_all add: report.simps record_query_def record_cache_refresh_def
      record_repository_op_def inc_def)
  }
qed simp_all

lemma reported_counts:
  "query_total (reported ms) st = length (filter (\<lambda>m. m = RecordQuery st) ms)"
  "cache_refresh_total (reported ms) st = length (filter (\<lambda>m. m = RecordCacheRefresh st) ms)"
  "repository_op_latency (reported ms) (op, st) = length (filter (\<lambda>m. m = RecordRepositoryOp op st) ms)"
  by (simp_all add: reported_def new_prometheus_metrics_def fold_report)

text \<open>The outcome a connection is counted under, if it asks anything.\<close>

definition query_status :: "'x regexp \<Rightarrow> ('r, 'x) server \<Rightarrow> conn \<Rightarrow> string option" where
  "query_status eng s c =
     (case conn_read c of
        Inl err \<Rightarrow> None
      | Inr bytes \<Rightarrow>
          let raw = trim_space (take max_query_size bytes)
          in if raw = [] then None
             else case lookup_record eng s (fst (parse_query raw)) of
               None \<Rightarrow> Some ''miss''
             | Some r \<Rightarrow> if rec_targets r \<noteq> [] \<and> conn_write_fails c then Some ''error'' else Some ''hit'')"

lemma query_outcome_status:
  "snd (query_outcome eng s c) = (case query_status eng s c of None \<Rightarrow> [] | Some st \<Rightarrow> [RecordQuery st])"
  by (auto simp: query_outcome_def query_status_def Let_def split: sum.splits option.splits)

text \<open>A server that answers the connections one after the other.\<close>

definition served :: "'x regexp \<Rightarrow> conn list \<Rightarrow> ('r, 'x) server \<Rightarrow> ('r, 'x) server" where
  "served eng cs s = fold (\<lambda>c s. fst (handle_query eng s c)) cs s"

lemma query_status_handle_query: "query_status eng (fst (handle_query eng s c)) c' = query_status eng s c'"
proof -
  have *: "lookup_record eng (fst (handle_query eng s c)) host = lookup_record eng s host" for host
    by (simp add: handle_query_outcome case_prod_unfold lookup_record_def Let_def split: option.split)
  show ?thesis unfolding query_status_def * ..
qed

lemma served_counts:
  "query_total (reported (srv_metrics (served eng cs s))) st =
     query_total (reported (srv_metrics s)) st + length (filter (\<lambda>c. query_status eng s c = Some st) cs)"
proof (induction cs arbitrary: s)
  case (Cons c cs)
  have "srv_metrics (fst (handle_query eng s c)) =
      srv_metrics s @ (case query_status eng s c of None \<Rightarrow> [] | Some st \<Rightarrow> [RecordQuery st])"
    by (simp add: handle_query_outcome case_prod_unfold query_outcome_status)
  then have "query_total (reported (srv_metrics (fst (handle_query eng s c)))) st =
      query_total (reported (srv_metrics s)) st + (if query_status eng s c = Some st then 1 else 0)"
    by (simp add: reported_counts split: option.splits)
  with Cons.IH [of "fst (handle_query eng s c)"] show ?case
    by (simp add: served_def query_status_handle_query)
qed (simp add: served_def)

end
