(* ===== verification/Core_Properties.thy ===== *)
theory Core_Properties
  imports Fixtures Metrics
begin

text \<open>
  The properties of the core: the answers to queries, the lookup, the tables, the builder
  and the interleaving of reloads.
\<close>

section \<open>Queries\<close>

text \<open>
  C17: What a connection is answered, on every branch: nothing for a failed read or a blank
  query, the 404 line for an unknown host, nothing for a record without targets, and
  otherwise the texts of the targets joined by blanks; the query counter moves once, to
  miss, hit or, when the write of a response fails, error; the connection is closed and
  the tables stay as they were.
\<close>

theorem handle_query_complete:
  "handle_query eng s c =
     (let (written, metrics) = query_outcome eng s c
      in (s\<lparr>srv_metrics := srv_metrics s @ metrics\<rparr>,
          c\<lparr>conn_written := conn_written c @ written, conn_closed := True\<rparr>))"
  by (rule handle_query_outcome)

text \<open>
  C18: The query counter that Prometheus shows under each label has moved, after any
  connections were served, by the number of those with that outcome: an unknown host is a
  miss, a write that fails an error, every other answered host a hit; failed reads and
  blank queries are not counted.
\<close>

theorem query_counters:
  "query_total (reported (srv_metrics (served eng cs s))) st =
     query_total (reported (srv_metrics s)) st + length (filter (\<lambda>c. query_status eng s c = Some st) cs)"
  by (rule served_counts)

text \<open>
  C4: After a successful load the staged lookup in the three tables finds what the
  reference search over the list of records finds: the last record of the host's name, or
  else the first whose expression matches, or else the first of the longest wildcards.
\<close>

theorem loaded_lookup:
  assumes "repo_find ops (srv_repository s) = Inr rs"
  shows "lookup_record eng (snd (load_cache ops eng s)) host = lookup_spec eng rs host"
  by (rule lookup_snapshot [OF load_cache_Inr(2) [OF assms]])

theorem loaded_lookup_witness:
  "map_option rec_domain (lookup_record frag_regexp
     (snd (load_cache (sql_repo table_db) frag_regexp wild_server)) ''srv.eu.ts'') = Some ''*.eu.ts''"
  unfolding loaded_lookup [OF wild_find] by code_simp

text \<open>
  A loaded server answers 404 exactly for the hosts that no stored record matches, be
  it by name, by expression or by wildcard.
\<close>

lemma loaded_miss:
  assumes "repo_find ops (srv_repository s) = Inr rs"
  shows "lookup_record eng (snd (load_cache ops eng s)) host = None \<longleftrightarrow> (\<forall>r \<in> set rs. \<not> record_match eng host r)"
  by (simp add: lookup_snapshot [OF load_cache_Inr(2) [OF assms]] lookup_spec_None)

lemma loaded_miss_witness:
  "lookup_record frag_regexp (snd (load_cache (sql_repo table_db) frag_regexp wild_server)) ''a.example'' = None"
  unfolding loaded_miss [OF wild_find] wild_records_def wild_entries_def by code_simp

text \<open>
  C19: The order of precedence: a record of the host's own name wins over everything, an
  expression over every wildcard, and among the wildcards that match none is longer than
  the one that answers.
\<close>

theorem loaded_priority:
  assumes "repo_find ops (srv_repository s) = Inr rs"
    and "lookup_record eng (snd (load_cache ops eng s)) host = Some r"
  shows "rec_domain r = host \<or>
     (\<forall>x \<in> set rs. rec_domain x \<noteq> host) \<and>
     (expression_match eng host r \<or>
      (\<forall>x \<in> set rs. \<not> expression_match eng host x) \<and>
      (\<forall>x \<in> set rs. wildcard_match host x \<longrightarrow> length (rec_domain x) \<le> length (rec_domain r)))"
  using assms(2) unfolding lookup_snapshot [OF load_cache_Inr(2) [OF assms(1)]]
  by (rule lookup_spec_priority)

theorem loaded_priority_witness:
  "{x \<in> set wild_records. wildcard_match ''srv.eu.ts'' x \<and> length ''*.eu.ts'' < length (rec_domain x)} = {}"
proof -
  obtain r where r: "lookup_record frag_regexp
      (snd (load_cache (sql_repo table_db) frag_regexp wild_server)) ''srv.eu.ts'' = Some r" "rec_domain r = ''*.eu.ts''"
  proof -
    have "map_option rec_domain (lookup_record frag_regexp
        (snd (load_cache (sql_repo table_db) frag_regexp wild_server)) ''srv.eu.ts'') = Some ''*.eu.ts''"
      by code_simp
    then show thesis using that by blast
  qed
  have "\<not> expression_match frag_regexp ''srv.eu.ts'' r"
    by (simp only: expression_match_def r(2)) code_simp
  with loaded_priority [OF wild_find r(1)] r(2)
  have "\<forall>x \<in> set wild_records. wildcard_match ''srv.eu.ts'' x \<longrightarrow> length (rec_domain x) \<le> length ''*.eu.ts''" by simp
  then show ?thesis by (auto simp: not_less)
qed

text \<open>
  C21: A query \<open>host:port\<close> is read as its host and port, and so is a bracketed one.
\<close>

theorem parse_query_roundtrip:
  fixes p :: uint16
  assumes "h \<noteq> []" "graph_char (hd h)" "hd h \<noteq> CHR ''[''" "CHR '']'' \<notin> set h"
  shows "parse_query (h @ '':'' @ dec (unat p)) = (h, ucast p) \<and>
    parse_query (''['' @ h @ '']:'' @ dec (unat p)) = (h, ucast p)"
  using parse_query_host_port [OF assms(1-3)] parse_query_bracketed [OF assms(1,4)] by blast

theorem parse_query_roundtrip_witness:
  "parse_query (''ts.example'' @ '':'' @ dec (unat (9987 :: uint16))) = (''ts.example'', ucast (9987 :: uint16))"
  using parse_query_roundtrip [of "''ts.example''" 9987] by (simp add: graph_char_def)

text \<open>
  Whatever the query, the port read from it is between 0 and 65535, so that it fits the
  32 bits it is kept in without a sign, and the host is empty for blank queries only.
\<close>

lemma parse_query_bounds:
  "0 \<le> sint (snd (parse_query raw)) \<and> sint (snd (parse_query raw)) \<le> 65535 \<and>
   (fst (parse_query raw) = [] \<longleftrightarrow> trim_space raw = [])"
proof (cases "trim_space raw = []")
  case True
  then show ?thesis by (simp add: parse_query_def)
next
  case False
  with parse_query_ok [OF False] show ?thesis by (simp add: port_range_def)
qed

text \<open>
  C20: A client that splits the response at blanks reads back the targets of the record, in
  their order, each with its own port or, when that is 0, with the port of the query.
\<close>

theorem response_roundtrip:
  assumes "\<And>a p. (a, p) \<in> set (rec_targets r) \<Longrightarrow> is_valid a \<and> zoneless a"
    and "port_range q" "q = 0 \<Longrightarrow> \<forall>(a, p) \<in> set (rec_targets r). p \<noteq> 0"
  shows "map parse_addr_port (str_fields (build_response r q)) =
         map (\<lambda>(a, p). Some (a, answer_port p q)) (rec_targets r)"
  by (rule response_targets [OF assms])

theorem response_roundtrip_witness:
  "map parse_addr_port (str_fields (build_response (new_record 0 ''d'' [test_target, test_target6]) 9988)) =
   [Some test_target, Some (fst test_target6, 9988)]"
proof -
  have "port_range (9988 :: int32)" by (simp add: port_range_def)
  then show ?thesis
    by (subst response_roundtrip)
       (auto simp: test_target_def test_target6_def is_valid_def zoneless_def answer_port_def)
qed

text \<open>
  C22: The expression made of an advanced glob compiles, and it matches just the hosts that
  the glob matches rune by rune, a star standing for any runes and a question mark for one,
  line feeds excepted. The library's documented reading of such expressions is the
  hypothesis \<open>glob_regexp\<close>.
\<close>

theorem glob_expression:
  assumes "glob_regexp eng" "utf8_valid d"
  shows "\<exists>x. rx_compile eng (domain_to_regex d) = Some x \<and>
    (\<forall>h. rx_match eng x h \<longleftrightarrow> glob_match (runes d) (runes h))"
  using domain_to_regex_match [OF assms] by blast

theorem glob_expression_witness:
  "\<exists>x. rx_compile frag_regexp (domain_to_regex ''a?.*'') = Some x \<and> rx_match frag_regexp x ''ab.ts'' \<and>
     \<not> rx_match frag_regexp x ''a.ts''"
proof -
  have "utf8_valid ''a?.*''" "glob_match (runes ''a?.*'') (runes ''ab.ts'')" "\<not> glob_match (runes ''a?.*'') (runes ''a.ts'')"
    by code_simp+
  with glob_expression [OF glob_regexp_frag, of "''a?.*''"] show ?thesis by blast
qed

section \<open>The server\<close>

text \<open>
  The builder, for every listen address and repository: the first error wins, a
  missing repository is an error, and otherwise the server has the repository, metrics and
  interval it was given and empty tables.
\<close>

lemma builder_result:
  "build (with_metrics m (with_logger l (with_cache_refresh_interval d (with_repository ro (new_server_addr resolve a))))) =
   Some (case resolve a of
           Inl err \<Rightarrow> Inl ErrInvalidListen
         | Inr u \<Rightarrow>
             (case ro of
                None \<Rightarrow> Inl ErrRepoRequired
              | Some r \<Rightarrow>
                  Inr \<lparr>srv_repository = r, srv_metrics = m, srv_listening = False, srv_cancelled = False,
                       srv_addr = a, srv_cache = Map.empty, srv_wildcard_records = [],
                       srv_regex_records = [], srv_cache_refresh_interval = d, srv_logger = l\<rparr>))"
  by (cases "resolve a"; cases ro)
     (simp_all add: build_def with_metrics_def with_logger_def with_cache_refresh_interval_def with_repository_def
       new_server_addr_def new_server_value_def set_repository_def)

text \<open>
  A server built for the text of an address listens on that address and port 41144;
  a text that is no address is refused.
\<close>

lemma new_server_address:
  assumes "is_valid a" "zoneless a"
  shows "new_server resolve (addr_string a) = new_server_addr resolve (addr_port_string (a, 41144)) \<and>
    (parse_addr ip = None \<longrightarrow> bld_err (new_server resolve ip) = Some ErrInvalidIP)"
proof -
  have "parse_addr ''0.0.0.0'' = Some (Addr4 0 0 0 0)" by code_simp
  then show ?thesis
    using new_server_listen_addr [OF assms] by (auto simp: new_server_def parse_ip_ok_def)
qed

lemma new_server_address_local:
  "\<forall>resolve. new_server resolve (addr_string (Addr4 127 0 0 1)) = new_server_addr resolve ''127.0.0.1:41144''"
proof
  fix resolve :: "string \<Rightarrow> error + 'a"
  have "addr_port_string (Addr4 127 0 0 1, 41144) = ''127.0.0.1:41144''" by code_simp
  moreover have "new_server resolve (addr_string (Addr4 127 0 0 1)) =
      new_server_addr resolve (addr_port_string (Addr4 127 0 0 1, 41144))"
    by (rule conjunct1 [OF new_server_address]) (simp_all add: is_valid_def zoneless_def)
  ultimately show "new_server resolve (addr_string (Addr4 127 0 0 1)) = new_server_addr resolve ''127.0.0.1:41144''" by simp
qed

text \<open>
  C39: An operation that returns an error, from the repository or from the reload, leaves
  the tables the queries are answered from as they were.
\<close>

theorem failed_operation_tables:
  "(\<forall>now ro e. fst (upsert_record ops eng now ro s) = Inl e \<longrightarrow> same_tables (snd (upsert_record ops eng now ro s)) s) \<and>
   (\<forall>d e. fst (delete_record ops eng d s) = Inl e \<longrightarrow> same_tables (snd (delete_record ops eng d s)) s) \<and>
   (\<forall>i e. fst (delete_instance_records ops eng i s) = Inl e \<longrightarrow>
      same_tables (snd (delete_instance_records ops eng i s)) s)"
  by (simp add: upsert_failed_tables delete_failed_tables delete_instance_failed_tables)

theorem failed_operation_tables_witness:
  "same_tables (snd (delete_record (sql_repo table_db) frag_regexp ''nobody'' wild_server)) wild_server"
proof -
  have "\<not> is_ok (fst (delete_record (sql_repo table_db) frag_regexp ''nobody'' wild_server))" by code_simp
  then obtain e where "fst (delete_record (sql_repo table_db) frag_regexp ''nobody'' wild_server) = Inl e"
    by (cases "fst (delete_record (sql_repo table_db) frag_regexp ''nobody'' wild_server)") auto
  then show ?thesis using failed_operation_tables [of "sql_repo table_db" frag_regexp wild_server] by blast
qed

text \<open>
  C40: The accept loop starts a handler for each connection accepted before the first
  error that comes after the cancellation, and returns just when there is such an error;
  every other error is passed over.
\<close>

theorem accept_loop_result:
  "accept_loop es =
     (List.map_filter (\<lambda>e. case e of Accepted c \<Rightarrow> Some c | AcceptFailed dn \<Rightarrow> None)
        (takeWhile (\<lambda>e. e \<noteq> AcceptFailed True) es),
      AcceptFailed True \<in> set es)"
  by (induction es rule: accept_loop.induct) (auto simp: List.map_filter_simps split: prod.splits)

section \<open>Reloads\<close>

text \<open>
  C15: However the operations, the updater and the queries interleave, the tables are never
  torn: at every moment all lookups are those of one listing of the repository, the one
  the server started with or one that the repository returned in a state of the execution.
\<close>

theorem answers_of_one_listing:
  assumes "execution ops eng trace" "snapshot eng rs0 (sys_server (last trace))"
  shows "\<exists>rs. (rs = rs0 \<or> listed_in ops trace rs) \<and>
    (\<forall>host. lookup_record eng (sys_server (hd trace)) host = lookup_spec eng rs host)"
proof -
  obtain rs where "snapshot eng rs (sys_server (hd trace))" "rs = rs0 \<or> listed_in ops trace rs"
    using execution_tables_listed [OF assms] unfolding tables_listed_def by blast
  then show ?thesis by (intro exI [of _ rs]) (simp add: lookup_snapshot)
qed

theorem answers_of_one_listing_witness:
  "\<exists>rs. \<forall>host. lookup_record frag_regexp (sys_server (hd (run_trace race_events))) host = lookup_spec frag_regexp rs host"
proof -
  obtain rs0 where "snapshot frag_regexp rs0 race_server"
    using race_server_current by (auto simp: current_def)
  then have "snapshot frag_regexp rs0 (sys_server (last (run_trace race_events)))"
    by (simp add: run_trace_last race_runs)
  from answers_of_one_listing [OF run_trace_execution [OF race_runs(1)] this] show ?thesis by blast
qed

text \<open>
  C14: If at most one task at a time is between listing the records and installing the
  tables, then whenever all operations and reloads have returned without an error, the
  tables are those of the present contents of the repository, for every SQL database.
\<close>

theorem exclusive_reloads_current:
  assumes "sql_laws db rows" "execution (sql_repo db) eng trace" "list_all exclusive trace"
    and "sql_invar (rows (srv_repository (sys_server (last trace))))"
    and "current (\<lambda>d. sql_content (rows d)) eng (sys_server (last trace))"
    and "set (sys_tasks (hd trace)) \<subseteq> {Returned True}"
  shows "current (\<lambda>d. sql_content (rows d)) eng (sys_server (hd trace))"
  using record_repository.execution_converging [OF sql_record_repository [OF assms(1)] assms(2-5)]
    converging_settled assms(6) by blast

theorem exclusive_reloads_current_witness:
  "current (\<lambda>t. sql_content (tbl_rows t)) frag_regexp (sys_server (hd (run_trace serial_events)))"
proof (rule exclusive_reloads_current [OF table_laws run_trace_execution [OF race_runs(2)]])
  show "list_all exclusive (run_trace serial_events)" by code_simp
  show "sql_invar (tbl_rows (srv_repository (sys_server (last (run_trace serial_events)))))"
    by (simp add: run_trace_last race_runs race_server_invar sql_invar_empty)
  show "current (\<lambda>t. sql_content (tbl_rows t)) frag_regexp (sys_server (last (run_trace serial_events)))"
    by (simp add: run_trace_last race_runs race_server_current)
  have "list_all (\<lambda>p. p = Returned True) (sys_tasks (hd (run_trace serial_events)))" by code_simp
  then show "set (sys_tasks (hd (run_trace serial_events))) \<subseteq> {Returned True}" by (auto simp: list_all_iff)
qed

text \<open>
  C16: Without that exclusion the reload loses updates: in this execution an upsert of a
  new domain returns without an error, nothing deletes the domain and no task is left, and
  yet the server does not find the host, because the updater installed, last, the tables
  of a listing it had read before the upsert.
\<close>

theorem stale_reload:
  "execution (sql_repo table_db) frag_regexp (run_trace race_events) \<and>
   current (\<lambda>t. sql_content (tbl_rows t)) frag_regexp (sys_server (last (run_trace race_events))) \<and>
   sys_tasks (hd (run_trace race_events)) = [Returned True, Returned True] \<and>
   sql_content (tbl_rows (srv_repository (sys_server (hd (run_trace race_events))))) ''ts.example'' =
     Some (1, [test_target]) \<and>
   lookup_record frag_regexp (sys_server (hd (run_trace race_events))) ''ts.example'' = None"
proof (intro conjI)
  show "current (\<lambda>t. sql_content (tbl_rows t)) frag_regexp (sys_server (last (run_trace race_events)))"
    by (simp add: run_trace_last race_runs race_server_current)
qed (rule run_trace_execution [OF race_runs(1)], code_simp+)

end
