(* ===== verification/Redis_Race.thy ===== *)
theory Redis_Race
  imports Redis_Repo
begin

text \<open>
  Calls of the Redis repository that overlap, from several requests of the server or from
  several processes. A call reads before it sends its transaction, and other calls may run
  in between; each round trip to Redis is a step.
\<close>

section \<open>The calls in steps\<close>

datatype redis_call = CreateCall time tsrecord | DeleteCall string | DeleteInstanceCall int64

text \<open>\<open>OldRead\<close> and the \<open>Ready\<close> phases hold what the call has read so far.\<close>

datatype call_phase =
    Started redis_call
  | OldRead time tsrecord int64
  | CreateReady tsrecord int64
  | DeleteReady string int64
  | DeleteInstanceReady int64 "string list"
  | Ended "error + unit"

definition stamp_record ::
  "'d redis_ops \<Rightarrow> time_codec \<Rightarrow> string \<Rightarrow> time \<Rightarrow> tsrecord \<Rightarrow> 'd \<Rightarrow> tsrecord" where
  "stamp_record rds tc prefix now r d =
     (let r = (case rds_hget rds (key_record prefix (rec_domain r)) ''created_at'' d of
                 HVal v \<Rightarrow>
                   if time_is_zero (rec_created_at r) then
                     (case tc_parse tc (trim_space v) of
                        Some tm \<Rightarrow> r\<lparr>rec_created_at := tm\<rparr>
                      | None \<Rightarrow> r)
                   else r
               | _ \<Rightarrow> r);
          r = (if time_is_zero (rec_created_at r) then r\<lparr>rec_created_at := now\<rparr> else r)
      in r\<lparr>rec_updated_at := now\<rparr>)"

definition create_commands :: "time_codec \<Rightarrow> string \<Rightarrow> tsrecord \<Rightarrow> int64 \<Rightarrow> redis_cmd list" where
  "create_commands tc prefix r old_id =
     [HSet (key_record prefix (rec_domain r)) (encode_record_map tc r),
      SAdd (key_domains prefix) (rec_domain r),
      SAdd (key_instance_domains prefix (rec_instance_id r)) (rec_domain r)]
     @ (if old_id \<noteq> rec_instance_id r then [SRem (key_instance_domains prefix old_id) (rec_domain r)] else [])"

definition delete_commands :: "string \<Rightarrow> string \<Rightarrow> int64 \<Rightarrow> redis_cmd list" where
  "delete_commands prefix domain instance_id =
     [Del (key_record prefix domain), SRem (key_domains prefix) domain,
      SRem (key_instance_domains prefix instance_id) domain]"

definition delete_instance_commands :: "string \<Rightarrow> int64 \<Rightarrow> string list \<Rightarrow> redis_cmd list" where
  "delete_instance_commands prefix instance_id domains =
     concat (map (\<lambda>dn. [Del (key_record prefix dn), SRem (key_domains prefix) dn]) domains)
     @ [Del (key_instance_domains prefix instance_id)]"

definition call_step ::
  "'d redis_ops \<Rightarrow> time_codec \<Rightarrow> string \<Rightarrow> call_phase \<Rightarrow> 'd \<Rightarrow> call_phase \<times> 'd" where
  "call_step rds tc prefix ph d =
     (case ph of
        Started (CreateCall now r) \<Rightarrow>
          if trim_space (rec_domain r) = [] then (Ended (Inl ErrDomainRequired), d)
          else (OldRead now r (old_instance_id rds prefix (rec_domain r) d), d)
      | Started (DeleteCall domain) \<Rightarrow>
          (case rds_hget rds (key_record prefix domain) ''instance_id'' d of
             HNil \<Rightarrow> (Ended (Inl ErrRecordNotFound), d)
           | HFailed err \<Rightarrow> (Ended (Inl err), d)
           | HVal v \<Rightarrow> (DeleteReady domain (parse_int64_value (trim_space v)), d))
      | Started (DeleteInstanceCall i) \<Rightarrow>
          (case rds_smembers rds (key_instance_domains prefix i) d of
             Inl err \<Rightarrow> (Ended (Inl err), d)
           | Inr domains \<Rightarrow> (DeleteInstanceReady i domains, d))
      | OldRead now r old_id \<Rightarrow> (CreateReady (stamp_record rds tc prefix now r d) old_id, d)
      | CreateReady r old_id \<Rightarrow>
          (let (res, d) = rds_tx rds (create_commands tc prefix r old_id) d in (Ended res, d))
      | DeleteReady domain i \<Rightarrow>
          (let (res, d) = rds_tx rds (delete_commands prefix domain i) d in (Ended res, d))
      | DeleteInstanceReady i domains \<Rightarrow>
          (let (res, d) =
             (if domains = [] then rds_del rds (key_instance_domains prefix i) d
              else rds_tx rds (delete_instance_commands prefix i domains) d)
           in (Ended res, d))
      | Ended res \<Rightarrow> (Ended res, d))"

fun call_steps :: "nat \<Rightarrow> 'd redis_ops \<Rightarrow> time_codec \<Rightarrow> string \<Rightarrow> call_phase \<Rightarrow> 'd \<Rightarrow> call_phase \<times> 'd" where
  "call_steps 0 rds tc prefix ph d = (ph, d)"
| "call_steps (Suc n) rds tc prefix ph d =
     (let (ph, d) = call_step rds tc prefix ph d in call_steps n rds tc prefix ph d)"

text \<open>Without an interruption the steps are the operations; three are enough for each.\<close>

lemma call_steps_ended [simp]: "call_steps n rds tc p (Ended res) d = (Ended res, d)"
  by (induction n) (simp_all add: call_step_def)

lemma create_in_steps:
  "call_steps 3 rds tc p (Started (CreateCall now r)) d =
     (case redis_create rds tc p now (Some r) d of (res, d) \<Rightarrow> (Ended (map_sum id (\<lambda>_. ()) res), d))"
proof (cases "trim_space (rec_domain r) = []")
  case True
  then show ?thesis by (simp add: numeral_3_eq_3 call_step_def redis_create_def)
next
  case False
  let ?r = "stamp_record rds tc p now r d"
  have same: "rec_domain ?r = rec_domain r" "rec_instance_id ?r = rec_instance_id r"
    by (simp_all add: stamp_record_def Let_def split: hget_reply.splits option.splits)
  have "redis_create rds tc p now (Some r) d =
      (case rds_tx rds (create_commands tc p ?r (old_instance_id rds p (rec_domain r) d)) d of
         (Inl err, d) \<Rightarrow> (Inl err, d) | (Inr u, d) \<Rightarrow> (Inr ?r, d))"
    using False unfolding redis_create_def stamp_record_def create_commands_def Let_def by simp
  then show ?thesis
    using False
    by (cases "rds_tx rds (create_commands tc p ?r (old_instance_id rds p (rec_domain r) d)) d";
        cases "fst (rds_tx rds (create_commands tc p ?r (old_instance_id rds p (rec_domain r) d)) d)")
       (auto simp: numeral_3_eq_3 call_step_def)
qed

lemma delete_in_steps:
  "call_steps 3 rds tc p (Started (DeleteCall dn)) d =
     (case redis_delete rds p dn d of (res, d) \<Rightarrow> (Ended res, d))"
  by (cases "rds_hget rds (key_record p dn) ''instance_id'' d")
     (simp_all add: numeral_3_eq_3 call_step_def redis_delete_def delete_commands_def Let_def split: prod.splits)

lemma delete_instance_in_steps:
  "call_steps 3 rds tc p (Started (DeleteInstanceCall i)) d =
     (case redis_delete_by_instance_id rds p i d of (res, d) \<Rightarrow> (Ended res, d))"
  by (cases "rds_smembers rds (key_instance_domains p i) d")
     (auto simp: numeral_3_eq_3 call_step_def redis_delete_by_instance_id_def delete_instance_commands_def Let_def
       split: prod.splits)

section \<open>Overlapping calls\<close>

record 'd race =
  race_db :: 'd
  race_calls :: "call_phase list"

datatype race_event = Begin redis_call | Turn nat

text \<open>A call of \<open>calls\<close> begins, or a call that has begun makes a step.\<close>

inductive race_step ::
  "'d redis_ops \<Rightarrow> time_codec \<Rightarrow> string \<Rightarrow> redis_call set \<Rightarrow> 'd race \<Rightarrow> race_event \<Rightarrow> 'd race \<Rightarrow> bool"
  for rds :: "'d redis_ops" and tc :: time_codec and prefix :: string and calls :: "redis_call set" where
  begin_call: "c \<in> calls \<Longrightarrow>
         race_step rds tc prefix calls st (Begin c) (st\<lparr>race_calls := race_calls st @ [Started c]\<rparr>)"
| turn: "\<lbrakk>i < length (race_calls st); call_step rds tc prefix (race_calls st ! i) (race_db st) = (ph, d)\<rbrakk> \<Longrightarrow>
         race_step rds tc prefix calls st (Turn i) (st\<lparr>race_db := d, race_calls := (race_calls st)[i := ph]\<rparr>)"

inductive race_run ::
  "'d redis_ops \<Rightarrow> time_codec \<Rightarrow> string \<Rightarrow> redis_call set \<Rightarrow> 'd \<Rightarrow> 'd race \<Rightarrow> bool"
  for rds :: "'d redis_ops" and tc :: time_codec and prefix :: string and calls :: "redis_call set" and d :: 'd where
  run_start: "race_run rds tc prefix calls d \<lparr>race_db = d, race_calls = []\<rparr>"
| run_step: "\<lbrakk>race_run rds tc prefix calls d st; race_step rds tc prefix calls st e st'\<rbrakk> \<Longrightarrow>
         race_run rds tc prefix calls d st'"

text \<open>A computable run of a list of events; a turn of a call that does not exist changes nothing.\<close>

fun race_events :: "'d redis_ops \<Rightarrow> time_codec \<Rightarrow> string \<Rightarrow> race_event list \<Rightarrow> 'd race \<Rightarrow> 'd race" where
  "race_events rds tc prefix [] st = st"
| "race_events rds tc prefix (Begin c # es) st =
     race_events rds tc prefix es (st\<lparr>race_calls := race_calls st @ [Started c]\<rparr>)"
| "race_events rds tc prefix (Turn i # es) st =
     (if i < length (race_calls st) then
        let (ph, d) = call_step rds tc prefix (race_calls st ! i) (race_db st)
        in race_events rds tc prefix es (st\<lparr>race_db := d, race_calls := (race_calls st)[i := ph]\<rparr>)
      else race_events rds tc prefix es st)"

fun begun :: "race_event list \<Rightarrow> redis_call set" where
  "begun [] = {}"
| "begun (Begin c # es) = insert c (begun es)"
| "begun (Turn i # es) = begun es"

lemma race_events_run:
  "\<lbrakk>race_run rds tc p calls d st; begun es \<subseteq> calls\<rbrakk> \<Longrightarrow> race_run rds tc p calls d (race_events rds tc p es st)"
proof (induction rds tc p es st rule: race_events.induct)
  case (2 rds tc p c es st)
  then have "c \<in> calls" "begun es \<subseteq> calls" by auto
  then show ?case using 2(1) run_step [OF 2(2) begin_call] by simp
next
  case (3 rds tc p i es st)
  show ?case
  proof (cases "i < length (race_calls st)")
    case True
    obtain ph d1 where "call_step rds tc p (race_calls st ! i) (race_db st) = (ph, d1)" by fastforce
    with True 3 show ?thesis using run_step [OF 3(3) turn [OF True]] by simp
  qed (use 3 in simp)
qed simp

section \<open>What holds however the calls interleave\<close>

text \<open>
  The part of the invariant that overlapping calls keep is \<open>redis_listed\<close>; without deletions
  of instances the sets of the instances name at least the records they should.
\<close>

definition redis_indexed :: "string \<Rightarrow> keyspace \<Rightarrow> bool" where
  "redis_indexed p st \<longleftrightarrow>
     (\<forall>d i. hash_of st (key_record p d) ''instance_id'' = Some (itoa (sint (i :: int64))) \<longrightarrow>
        d \<in> members st (key_instance_domains p i))"

text \<open>What the transaction of a call does to the records, and the records a call carries.\<close>

fun commit :: "call_phase \<Rightarrow> (string \<Rightarrow> entry option) \<Rightarrow> string \<Rightarrow> entry option" where
  "commit (CreateReady r old_id) m = m(rec_domain r \<mapsto> rec_entry r)"
| "commit (DeleteReady domain i) m = m(domain := None)"
| "commit (DeleteInstanceReady i domains) m = (\<lambda>d. if d \<in> set domains then None else m d)"
| "commit _ m = m"

fun carried :: "call_phase \<Rightarrow> tsrecord option" where
  "carried (Started (CreateCall now r)) = Some r"
| "carried (OldRead now r old_id) = Some r"
| "carried (CreateReady r old_id) = Some r"
| "carried _ = None"

definition carries_storable :: "call_phase \<Rightarrow> bool" where
  "carries_storable ph \<longleftrightarrow> (\<forall>r. carried ph = Some r \<longrightarrow> list_all redis_storable (rec_targets r))"

fun deletes_instance :: "call_phase \<Rightarrow> bool" where
  "deletes_instance (Started (DeleteInstanceCall i)) = True"
| "deletes_instance (DeleteInstanceReady i domains) = True"
| "deletes_instance _ = False"

lemma redis_invar_indexed: "redis_invar p st \<Longrightarrow> redis_indexed p st"
  by (simp add: redis_invar_def redis_indexed_def)

lemma create_commands_store:
  fixes r :: tsrecord and p :: string and tc :: time_codec and old :: int64 and st :: keyspace
  defines "st' \<equiv> fold exec_cmd (create_commands tc p r old) st"
  shows "hash_of st' (key_record p d) =
      (if d = rec_domain r then hash_of st (key_record p d) ++ map_of (encode_record_map tc r)
       else hash_of st (key_record p d))"
    and "members st' (key_domains p) = insert (rec_domain r) (members st (key_domains p))"
    and "d \<noteq> rec_domain r \<Longrightarrow> d \<in> members st' (key_instance_domains p i) \<longleftrightarrow> d \<in> members st (key_instance_domains p i)"
    and "rec_domain r \<in> members st' (key_instance_domains p (rec_instance_id r))"
  by (auto simp: st'_def create_commands_def hash_exec members_exec)

lemma delete_commands_store:
  fixes p dn :: string and i :: int64 and st :: keyspace
  defines "st' \<equiv> fold exec_cmd (delete_commands p dn i) st"
  shows "hash_of st' (key_record p d) = (if d = dn then Map.empty else hash_of st (key_record p d))"
    and "members st' (key_domains p) = members st (key_domains p) - {dn}"
    and "d \<noteq> dn \<Longrightarrow> d \<in> members st' (key_instance_domains p j) \<longleftrightarrow> d \<in> members st (key_instance_domains p j)"
  by (auto simp: st'_def delete_commands_def hash_exec members_exec)

lemma delete_instance_commands_store:
  fixes p :: string and i :: int64 and ds :: "string list" and st :: keyspace
  defines "st' \<equiv> fold exec_cmd (delete_instance_commands p i ds) st"
  shows "hash_of st' (key_record p d) = (if d \<in> set ds then Map.empty else hash_of st (key_record p d))"
    and "members st' (key_domains p) = members st (key_domains p) - set ds"
  by (simp_all add: st'_def delete_instance_commands_def hash_exec members_exec delete_instance_fold)

text \<open>The commands that a phase sends.\<close>

fun sent :: "time_codec \<Rightarrow> string \<Rightarrow> call_phase \<Rightarrow> redis_cmd list" where
  "sent tc p (CreateReady r old_id) = create_commands tc p r old_id"
| "sent tc p (DeleteReady domain i) = delete_commands p domain i"
| "sent tc p (DeleteInstanceReady i domains) = delete_instance_commands p i domains"
| "sent tc p _ = []"

lemma sent_store:
  assumes "redis_listed p st" "carries_storable ph"
  shows "redis_listed p (fold exec_cmd (sent tc p ph) st)"
    and "redis_content p (fold exec_cmd (sent tc p ph) st) = commit ph (redis_content p st)"
proof -
  have l: "d \<in> members st (key_domains p) \<longleftrightarrow> hash_of st (key_record p d) \<noteq> Map.empty" for d
    using assms(1) by (simp add: redis_listed_def)
  show "redis_listed p (fold exec_cmd (sent tc p ph) st)"
    using l hash_merged_nonempty
    by (cases ph)
       (auto simp: redis_listed_def create_commands_store delete_commands_store delete_instance_commands_store)
  show "redis_content p (fold exec_cmd (sent tc p ph) st) = commit ph (redis_content p st)"
    using assms(2) hash_merged_nonempty hash_entry_merged
    by (cases ph)
       (auto simp: redis_content_def carries_storable_def create_commands_store delete_commands_store
         delete_instance_commands_store)
qed

lemma sent_indexed:
  assumes "redis_indexed p st" "\<not> deletes_instance ph"
  shows "redis_indexed p (fold exec_cmd (sent tc p ph) st)"
proof (cases ph)
  case (CreateReady r old_id)
  have "d \<in> members (fold exec_cmd (create_commands tc p r old_id) st) (key_instance_domains p i)"
    if "hash_of (fold exec_cmd (create_commands tc p r old_id) st) (key_record p d) ''instance_id'' = Some (itoa (sint i))"
    for d and i :: int64
  proof (cases "d = rec_domain r")
    case True
    then have "i = rec_instance_id r"
      using that by (simp add: create_commands_store encode_record_map_def map_add_Some_iff itoa_inj)
    with True show ?thesis by (simp add: create_commands_store)
  next
    case False
    then show ?thesis using that assms(1) by (simp add: create_commands_store redis_indexed_def)
  qed
  then show ?thesis by (simp add: CreateReady redis_indexed_def)
next
  case (DeleteReady dn j)
  have "d \<in> members (fold exec_cmd (delete_commands p dn j) st) (key_instance_domains p i)"
    if "hash_of (fold exec_cmd (delete_commands p dn j) st) (key_record p d) ''instance_id'' = Some (itoa (sint i))"
    for d and i :: int64
    using that assms(1) by (auto simp: delete_commands_store redis_indexed_def split: if_splits)
  then show ?thesis by (simp add: DeleteReady redis_indexed_def)
qed (use assms in simp_all)

lemma call_step_store:
  assumes laws: "redis_laws rds store" and step: "call_step rds tc p ph d = (ph', d')"
  shows "store d' = store d \<or> store d' = fold exec_cmd (sent tc p ph) (store d)"
    and "ph' = Ended (Inr ()) \<Longrightarrow> store d' = fold exec_cmd (sent tc p ph) (store d)"
proof -
  have "store d' = fold exec_cmd (sent tc p ph) (store d) \<or> (store d' = store d \<and> ph' \<noteq> Ended (Inr ()))"
  proof (cases ph)
    case (Started c)
    with step show ?thesis
      by (cases c) (auto simp: call_step_def split: if_splits hget_reply.splits sum.splits)
  next
    case (CreateReady r old_id)
    obtain res d1 where tx: "rds_tx rds (create_commands tc p r old_id) d = (res, d1)" by fastforce
    with step CreateReady redis_tx [OF laws tx] show ?thesis by (auto simp: call_step_def)
  next
    case (DeleteReady dn i)
    obtain res d1 where tx: "rds_tx rds (delete_commands p dn i) d = (res, d1)" by fastforce
    with step DeleteReady redis_tx [OF laws tx] show ?thesis by (auto simp: call_step_def)
  next
    case (DeleteInstanceReady i ds)
    show ?thesis
    proof (cases "ds = []")
      case True
      obtain res d1 where del: "rds_del rds (key_instance_domains p i) d = (res, d1)" by fastforce
      with step DeleteInstanceReady True redis_del [OF laws del] show ?thesis
        by (auto simp: call_step_def delete_instance_commands_def)
    next
      case False
      obtain res d1 where tx: "rds_tx rds (delete_instance_commands p i ds) d = (res, d1)" by fastforce
      with step DeleteInstanceReady False redis_tx [OF laws tx] show ?thesis by (auto simp: call_step_def)
    qed
  qed (use step in \<open>auto simp: call_step_def\<close>)
  then show "store d' = store d \<or> store d' = fold exec_cmd (sent tc p ph) (store d)"
    and "ph' = Ended (Inr ()) \<Longrightarrow> store d' = fold exec_cmd (sent tc p ph) (store d)" by auto
qed

lemma call_step_phase:
  assumes "call_step rds tc p ph d = (ph', d')"
  shows "carries_storable ph \<Longrightarrow> carries_storable ph'" and "deletes_instance ph' \<Longrightarrow> deletes_instance ph"
proof -
  have stamp: "rec_targets (stamp_record rds tc p now r d) = rec_targets r" for now r
    by (simp add: stamp_record_def Let_def split: hget_reply.splits option.splits)
  have "(carries_storable ph \<longrightarrow> carries_storable ph') \<and> (deletes_instance ph' \<longrightarrow> deletes_instance ph)"
  proof (cases ph)
    case (Started c)
    with assms show ?thesis
      by (cases c) (auto simp: call_step_def carries_storable_def split: if_splits hget_reply.splits sum.splits)
  qed (use assms stamp in \<open>auto simp: call_step_def carries_storable_def Let_def split: prod.splits\<close>)
  then show "carries_storable ph \<Longrightarrow> carries_storable ph'" and "deletes_instance ph' \<Longrightarrow> deletes_instance ph"
    by blast+
qed

definition storable_calls :: "redis_call set" where
  "storable_calls = {c. carries_storable (Started c)}"

lemma race_run_invar:
  assumes laws: "redis_laws rds store" and start: "redis_listed p (store d)" and calls: "calls \<subseteq> storable_calls"
    and run: "race_run rds tc p calls d st"
  shows "redis_listed p (store (race_db st)) \<and> (\<forall>ph \<in> set (race_calls st). carries_storable ph)"
  using run
proof induction
  case run_start
  show ?case using start by simp
next
  case (run_step st e st')
  from run_step(2) show ?case
  proof (cases rule: race_step.cases)
    case (begin_call c)
    then have "carries_storable (Started c)" using calls by (auto simp: storable_calls_def)
    with begin_call run_step(3) show ?thesis by auto
  next
    case (turn i ph d1)
    let ?ph = "race_calls st ! i"
    have ok: "carries_storable ?ph" "redis_listed p (store (race_db st))" using turn run_step(3) by auto
    have "redis_listed p (store d1)"
      using call_step_store(1) [OF laws turn(4)] sent_store(1) [OF ok(2,1)] ok(2) by auto
    moreover have "carries_storable ph" using call_step_phase(1) [OF turn(4) ok(1)] .
    ultimately show ?thesis using turn run_step(3) set_update_subset_insert [of "race_calls st" i ph] by auto
  qed
qed

lemma race_run_indexed:
  assumes laws: "redis_laws rds store" and start: "redis_indexed p (store d)"
    and calls: "\<And>i. DeleteInstanceCall i \<notin> calls" and run: "race_run rds tc p calls d st"
  shows "redis_indexed p (store (race_db st)) \<and> (\<forall>ph \<in> set (race_calls st). \<not> deletes_instance ph)"
  using run
proof induction
  case run_start
  show ?case using start by simp
next
  case (run_step st e st')
  from run_step(2) show ?case
  proof (cases rule: race_step.cases)
    case (begin_call c)
    then have "\<not> deletes_instance (Started c)" using calls by (cases c) auto
    with begin_call run_step(3) show ?thesis by auto
  next
    case (turn i ph d1)
    let ?ph = "race_calls st ! i"
    have ok: "\<not> deletes_instance ?ph" "redis_indexed p (store (race_db st))" using turn run_step(3) by auto
    have "redis_indexed p (store d1)"
      using call_step_store(1) [OF laws turn(4)] sent_indexed [OF ok(2,1)] ok(2) by auto
    moreover have "\<not> deletes_instance ph" using call_step_phase(2) [OF turn(4)] ok(1) by blast
    ultimately show ?thesis using turn run_step(3) set_update_subset_insert [of "race_calls st" i ph] by auto
  qed
qed

text \<open>Each call takes effect at one point, its transaction.\<close>

lemma race_step_content:
  assumes laws: "redis_laws rds store" and start: "redis_listed p (store d)" and calls: "calls \<subseteq> storable_calls"
    and run: "race_run rds tc p calls d st" and step: "race_step rds tc p calls st e st'"
  shows "redis_content p (store (race_db st')) = redis_content p (store (race_db st)) \<or>
      (\<exists>i. e = Turn i \<and> redis_content p (store (race_db st')) =
         commit (race_calls st ! i) (redis_content p (store (race_db st))))"
    and "e = Turn i \<Longrightarrow> race_calls st' ! i = Ended (Inr ()) \<Longrightarrow>
      redis_content p (store (race_db st')) = commit (race_calls st ! i) (redis_content p (store (race_db st)))"
  using step
proof (atomize (full), cases rule: race_step.cases)
  case (turn j ph d1)
  let ?ph = "race_calls st ! j"
  have ok: "redis_listed p (store (race_db st))" "carries_storable ?ph"
    using race_run_invar [OF laws start calls run] turn by auto
  note step = call_step_store [OF laws turn(4)] sent_store(2) [OF ok]
  show "(redis_content p (store (race_db st')) = redis_content p (store (race_db st)) \<or>
      (\<exists>i. e = Turn i \<and> redis_content p (store (race_db st')) =
         commit (race_calls st ! i) (redis_content p (store (race_db st))))) \<and>
    (e = Turn i \<longrightarrow> race_calls st' ! i = Ended (Inr ()) \<longrightarrow>
      redis_content p (store (race_db st')) = commit (race_calls st ! i) (redis_content p (store (race_db st))))"
    using step turn by auto
qed auto

end
