(* ===== verification/Go_Time.thy ===== *)
theory Go_Time
  imports Core_Types Go_Strconv "HOL-Library.Monad_Syntax"
begin

text \<open>
  The layout RFC3339Nano of the package \<open>time\<close>, for times in UTC: \<open>Format\<close>, and \<open>Parse\<close> with
  all it accepts, hours of one digit, fractions of any length and zones among it. Year 1 has
  the zero time, at 0.
\<close>

section \<open>The calendar\<close>

definition leap :: "int \<Rightarrow> bool" where
  "leap y \<longleftrightarrow> y mod 4 = 0 \<and> (y mod 100 \<noteq> 0 \<or> y mod 400 = 0)"

definition month_lengths :: "int \<Rightarrow> int list" where
  "month_lengths y = [31, if leap y then 29 else 28, 31, 30, 31, 30, 31, 31, 30, 31, 30, 31]"

text \<open>The days from the start of year 1 to the start of a year, and to a day of the year.\<close>

definition days_before_year :: "int \<Rightarrow> int" where
  "days_before_year y = 365 * (y - 1) + (y - 1) div 4 - (y - 1) div 100 + (y - 1) div 400"

definition days_of_date :: "int \<Rightarrow> nat \<Rightarrow> int \<Rightarrow> int" where
  "days_of_date y month day = days_before_year y + sum_list (take (month - 1) (month_lengths y)) + day - 1"

text \<open>The year of a day and the day in the year, by cycles of 400, 100, 4 years and single years.\<close>

definition year_of_days :: "int \<Rightarrow> int \<times> int" where
  "year_of_days d =
     (let n400 = d div 146097; d = d mod 146097;
          n100 = min 3 (d div 36524); d = d - 36524 * n100;
          n4 = d div 1461; d = d mod 1461;
          n1 = min 3 (d div 365); d = d - 365 * n1
      in (400 * n400 + 100 * n100 + 4 * n4 + n1 + 1, d))"

fun month_of_day :: "int list \<Rightarrow> nat \<Rightarrow> int \<Rightarrow> nat \<times> int" where
  "month_of_day [] m d = (m, d + 1)"
| "month_of_day (l # ls) m d = (if d < l then (m, d + 1) else month_of_day ls (Suc m) (d - l))"

section \<open>Format\<close>

definition pad :: "nat \<Rightarrow> nat \<Rightarrow> string" where
  "pad w n = replicate (w - length (dec n)) (CHR ''0'') @ dec n"

definition format_year :: "int \<Rightarrow> string" where
  "format_year y = (if y < 0 then CHR ''-'' # pad 4 (nat (- y)) else pad 4 (nat y))"

text \<open>The fraction of a second, without the zeros at its end.\<close>

definition format_fraction :: "nat \<Rightarrow> string" where
  "format_fraction ns = (if ns = 0 then [] else CHR ''.'' # trim_right_set (pad 9 ns) ''0'')"

definition format_rfc3339 :: "time \<Rightarrow> string" where
  "format_rfc3339 t =
     (let secs = t div 10 ^ 9; ns = nat (t mod 10 ^ 9); s = nat (secs mod 86400);
          (y, yday) = year_of_days (secs div 86400);
          (m, day) = month_of_day (month_lengths y) 1 yday
      in format_year y @ ''-'' @ pad 2 m @ ''-'' @ pad 2 (nat day) @ ''T'' @ pad 2 (s div 3600) @ '':''
         @ pad 2 (s div 60 mod 60) @ '':'' @ pad 2 (s mod 60) @ format_fraction ns @ ''Z'')"

section \<open>Parse\<close>

text \<open>\<open>getnum\<close>: a number of two digits, or of one or two.\<close>

fun get_num :: "bool \<Rightarrow> string \<Rightarrow> (nat \<times> string) option" where
  "get_num fixed [] = None"
| "get_num fixed (c # s) =
     (if \<not> is_digit c then None
      else case s of
        d # t \<Rightarrow>
          if is_digit d then Some (10 * digit_val c + digit_val d, t)
          else if fixed then None else Some (digit_val c, s)
      | [] \<Rightarrow> if fixed then None else Some (digit_val c, s))"

definition get_year :: "string \<Rightarrow> (nat \<times> string) option" where
  "get_year s = (if length s < 4 then None else map_option (\<lambda>n. (n, drop 4 s)) (dec_value 0 (take 4 s)))"

text \<open>A fraction is optional; digits after the ninth are read and dropped.\<close>

definition get_fraction :: "string \<Rightarrow> nat \<times> string" where
  "get_fraction s =
     (case s of
        c # d # t \<Rightarrow>
          if c \<in> {CHR ''.'', CHR '',''} \<and> is_digit d then
            let digits = takeWhile is_digit (d # t); ns = take 9 digits
            in ((case dec_value 0 ns of None \<Rightarrow> 0 | Some n \<Rightarrow> n) * 10 ^ (9 - length ns), dropWhile is_digit (d # t))
          else (0, s)
      | _ \<Rightarrow> (0, s))"

text \<open>\<open>Z\<close>, or the offset from UTC in hours and minutes, given in seconds.\<close>

definition get_zone :: "string \<Rightarrow> (int \<times> string) option" where
  "get_zone s =
     (case s of
        [] \<Rightarrow> None
      | c # rest \<Rightarrow>
          if c = CHR ''Z'' then Some (0, rest)
          else (case rest of
            h1 # h2 # colon # m1 # m2 # t \<Rightarrow>
              if colon \<noteq> CHR '':'' then None
              else do {
                (hr, _) \<leftarrow> get_num True [h1, h2];
                (mm, _) \<leftarrow> get_num True [m1, m2];
                if 24 < hr \<or> 60 < mm then None
                else let offset = 60 * (60 * int hr + int mm)
                  in if c = CHR ''+'' then Some (offset, t)
                     else if c = CHR ''-'' then Some (- offset, t) else None
              }
          | _ \<Rightarrow> None))"

definition parse_rfc3339 :: "string \<Rightarrow> time option" where
  "parse_rfc3339 s =
     do {
       (y, s) \<leftarrow> get_year s;
       s \<leftarrow> cut_prefix s ''-'';
       (m, s) \<leftarrow> get_num True s;
       s \<leftarrow> cut_prefix s ''-'';
       (day, s) \<leftarrow> get_num True s;
       s \<leftarrow> cut_prefix s ''T'';
       (hour, s) \<leftarrow> get_num False s;
       s \<leftarrow> cut_prefix s '':'';
       (minute, s) \<leftarrow> get_num True s;
       s \<leftarrow> cut_prefix s '':'';
       (sec, s) \<leftarrow> get_num True s;
       let (ns, s) = get_fraction s;
       (offset, s) \<leftarrow> get_zone s;
       if m < 1 \<or> 12 < m \<or> 23 < hour \<or> 59 < minute \<or> 59 < sec \<or> s \<noteq> []
           \<or> day < 1 \<or> month_lengths (int y) ! (m - 1) < int day then None
       else Some ((days_of_date (int y) m (int day) * 86400 + 3600 * int hour + 60 * int minute + int sec - offset)
                  * 10 ^ 9 + int ns)
     }"

definition rfc3339_codec :: time_codec where
  "rfc3339_codec = \<lparr>tc_format = format_rfc3339, tc_parse = parse_rfc3339\<rparr>"

section \<open>Lemmas: the calendar\<close>

lemma mod_top: "\<lbrakk>1 \<le> x; x \<le> n\<rbrakk> \<Longrightarrow> (x + n * k) mod n = 0 \<longleftrightarrow> x = (n :: int)"
  by (cases "x = n") auto

lemma year_parts:
  fixes a b c e :: int
  assumes "0 \<le> b" "b \<le> 3" "0 \<le> c" "c \<le> 24" "0 \<le> e" "e \<le> 3"
  defines "y \<equiv> 400 * a + 100 * b + 4 * c + e + 1"
  shows "days_before_year y = 146097 * a + 36524 * b + 1461 * c + 365 * e"
    and "leap y \<longleftrightarrow> e = 3 \<and> (c \<noteq> 24 \<or> b = 3)"
proof -
  have "(y - 1) div 4 = 100 * a + 25 * b + c"
    by (rule int_div_pos_eq [of _ _ _ e]) (use assms in simp_all)
  moreover have "(y - 1) div 100 = 4 * a + b"
    by (rule int_div_pos_eq [of _ _ _ "4 * c + e"]) (use assms in simp_all)
  moreover have "(y - 1) div 400 = a"
    by (rule int_div_pos_eq [of _ _ _ "100 * b + 4 * c + e"]) (use assms in simp_all)
  ultimately show "days_before_year y = 146097 * a + 36524 * b + 1461 * c + 365 * e"
    unfolding days_before_year_def by (simp add: y_def)
  have "y mod 4 = 0 \<longleftrightarrow> e + 1 = 4"
    using mod_top [of "e + 1" 4 "100 * a + 25 * b + c"] assms(5,6) by (simp add: y_def algebra_simps)
  moreover have "y mod 100 = 0 \<longleftrightarrow> 4 * c + e + 1 = 100"
    using mod_top [of "4 * c + e + 1" 100 "4 * a + b"] assms(3-6) by (simp add: y_def algebra_simps)
  moreover have "y mod 400 = 0 \<longleftrightarrow> 100 * b + 4 * c + e + 1 = 400"
    using mod_top [of "100 * b + 4 * c + e + 1" 400 a] assms(1-6) by (simp add: y_def algebra_simps)
  ultimately show "leap y \<longleftrightarrow> e = 3 \<and> (c \<noteq> 24 \<or> b = 3)"
    unfolding leap_def using assms(1-6) by auto
qed

text \<open>Three whole cycles of length \<open>n\<close> and one that may be a day longer.\<close>

lemma capped_cycles:
  fixes x n :: int
  assumes "0 < n" "0 \<le> x" "x \<le> 4 * n"
  defines "b \<equiv> min 3 (x div n)"
  shows "0 \<le> b" "b \<le> 3" "0 \<le> x - n * b" "x - n * b \<le> n" "b < 3 \<Longrightarrow> x - n * b < n"
proof -
  have div: "x - n * (x div n) = x mod n" by (simp add: minus_mult_div_eq_mod)
  have bounds: "0 \<le> x mod n" "x mod n < n" "0 \<le> x div n" using assms by (simp_all add: pos_imp_zdiv_nonneg_iff)
  have "0 \<le> b \<and> b \<le> 3 \<and> 0 \<le> x - n * b \<and> x - n * b \<le> n \<and> (b < 3 \<longrightarrow> x - n * b < n)"
  proof (cases "x div n \<le> 3")
    case True
    then have "b = x div n" by (simp add: b_def)
    with True div bounds show ?thesis by simp
  next
    case False
    then have b: "b = 3" by (simp add: b_def)
    have "n * 4 \<le> n * (x div n)" using False assms(1) by (intro mult_left_mono) simp_all
    with div bounds have "4 * n \<le> x" by linarith
    with b assms show ?thesis by simp
  qed
  then show "0 \<le> b" "b \<le> 3" "0 \<le> x - n * b" "x - n * b \<le> n" "b < 3 \<Longrightarrow> x - n * b < n" by auto
qed

lemma year_of_days_correct:
  assumes "year_of_days d = (y, yday)"
  shows "d = days_before_year y + yday" "0 \<le> yday" "yday < (if leap y then 366 else 365)"
proof -
  define a where "a = d div 146097"
  define r where "r = d mod 146097"
  define b where "b = min 3 (r div 36524)"
  define r1 where "r1 = r - 36524 * b"
  define c where "c = r1 div 1461"
  define r2 where "r2 = r1 mod 1461"
  define e where "e = min 3 (r2 div 365)"
  have y: "y = 400 * a + 100 * b + 4 * c + e + 1" "yday = r2 - 365 * e"
    using assms unfolding year_of_days_def Let_def a_def r_def b_def r1_def c_def r2_def e_def
    by (simp_all only: prod.inject)
  have r: "d = 146097 * a + r" "0 \<le> r" "r < 146097" by (simp_all add: a_def r_def)
  have b: "0 \<le> b" "b \<le> 3" "0 \<le> r1" "r1 \<le> 36524" "b < 3 \<Longrightarrow> r1 < 36524"
    using capped_cycles [of 36524 r] r unfolding b_def r1_def by simp_all
  have c: "r1 = 1461 * c + r2" "0 \<le> r2" "r2 < 1461" "0 \<le> c"
    using b(3) by (simp_all add: c_def r2_def pos_imp_zdiv_nonneg_iff)
  have c24: "c \<le> 24" using b(4) c(1,2) by linarith
  have e: "0 \<le> e" "e \<le> 3" "0 \<le> yday" "yday \<le> 365" "e < 3 \<Longrightarrow> yday < 365"
    using capped_cycles [of 365 r2] c(2,3) unfolding y(2) e_def by simp_all
  note parts = year_parts [OF b(1,2) c(4) c24 e(1,2), of a, folded y(1)]
  show "d = days_before_year y + yday" using r(1) c(1) by (simp add: parts y(2) r1_def)
  show "0 \<le> yday" by (rule e(3))
  show "yday < (if leap y then 366 else 365)"
  proof (cases "leap y")
    case False
    then have "e \<noteq> 3 \<or> c = 24 \<and> b \<noteq> 3" using parts(2) by blast
    with e(2) b(2) consider "e < 3" | "e = 3" "c = 24" "b < 3" by linarith
    then show ?thesis
    proof cases
      case 2
      then have "r2 < 1460" using b(5) c(1) by simp
      with 2 False show ?thesis by (simp add: y(2))
    qed (use e(5) False in simp)
  qed (use e(4) in simp)
qed

lemma month_of_day_correct:
  assumes "month_of_day ls k d = (m, day)" "0 \<le> d" "d < sum_list ls"
  shows "k \<le> m" "m - k < length ls" "sum_list (take (m - k) ls) + day = d + 1" "1 \<le> day" "day \<le> ls ! (m - k)"
  using assms
proof (induction ls k d rule: month_of_day.induct)
  case (2 l ls k d)
  { case 1 then show ?case using 2 by (force split: if_splits) }
  { case 2 then show ?case using "2.IH"(1,2) by (force simp: Suc_diff_le split: if_splits) }
  { case 3 then show ?case using "2.IH"(1,3) by (cases "d < l") (auto simp: Suc_diff_le take_Cons') }
  { case 4 then show ?case using "2.IH"(4) by (auto split: if_splits) }
  { case 5 then show ?case using "2.IH"(1,5) by (auto simp: nth_Cons' split: if_splits) }
qed simp_all

lemma month_lengths_sum: "sum_list (month_lengths y) = (if leap y then 366 else 365)" "length (month_lengths y) = 12"
  "l \<in> set (month_lengths y) \<Longrightarrow> l \<le> 31"
  by (auto simp: month_lengths_def)

text \<open>A date and the day it stands for.\<close>

lemma date_correct:
  assumes "year_of_days d = (y, yday)" "month_of_day (month_lengths y) 1 yday = (m, day)"
  shows "days_of_date y m day = d" "1 \<le> m" "m \<le> 12" "1 \<le> day" "day \<le> month_lengths y ! (m - 1)" "day \<le> 31"
proof -
  note y = year_of_days_correct [OF assms(1)]
  have "yday < sum_list (month_lengths y)" using y(3) by (simp add: month_lengths_sum)
  note m = month_of_day_correct [OF assms(2) y(2) this]
  show "days_of_date y m day = d" using m(3) y(1) by (simp add: days_of_date_def)
  show "1 \<le> m" "m \<le> 12" "1 \<le> day" "day \<le> month_lengths y ! (m - 1)" using m by (auto simp: month_lengths_sum(2))
  have "month_lengths y ! (m - 1) \<in> set (month_lengths y)" using m(2) by (rule nth_mem)
  with m(5) show "day \<le> 31" using month_lengths_sum(3) by fastforce
qed

section \<open>Lemmas: the text\<close>

lemma dec_length: "n < 10 ^ Suc k \<Longrightarrow> length (dec n) \<le> Suc k"
proof (induction k arbitrary: n)
  case (Suc k)
  show ?case
  proof (cases "n < 10")
    case False
    then have "n div 10 < 10 ^ Suc k" using Suc.prems by (simp add: div_less_iff_less_mult)
    from Suc.IH [OF this] False show ?thesis by (simp add: dec_big)
  qed (simp add: dec_small)
qed (simp add: dec_small)

lemma pad_length: "n < 10 ^ Suc k \<Longrightarrow> length (pad (Suc k) n) = Suc k"
  using dec_length [of n k] by (simp add: pad_def)

lemma is_digit_0 [simp]: "is_digit (CHR ''0'')" "digit_val (CHR ''0'') = 0"
  by (simp_all add: is_digit_def digit_val_def)

lemma pad_digits: "list_all is_digit (pad w n)"
  by (auto simp: pad_def list_all_iff dec_set)

lemma dec_value_zeros: "dec_value 0 (replicate k (CHR ''0'') @ s) = dec_value 0 s"
  by (induction k) simp_all

lemma dec_value_pad: "dec_value 0 (pad w n) = Some n"
  by (simp add: pad_def dec_value_zeros dec_value_dec)

lemma get_num_pad [roundtrip]: "n < 100 \<Longrightarrow> get_num fixed (pad 2 n @ s) = Some (n, s)"
proof -
  assume "n < 100"
  then have "length (pad 2 n) = 2" using pad_length [of n 1] by (simp add: power2_eq_square flip: numeral_2_eq_2)
  then obtain c d where "pad 2 n = [c, d]" by (auto simp: numeral_2_eq_2 length_Suc_conv)
  with pad_digits [of 2 n] dec_value_pad [of 2 n] show ?thesis by auto
qed

lemma get_year_pad [roundtrip]: "n < 10000 \<Longrightarrow> get_year (pad 4 n @ s) = Some (n, s)"
proof -
  assume "n < 10000"
  then have "length (pad 4 n) = 4" using pad_length [of n 3] by simp
  then show ?thesis by (simp add: get_year_def dec_value_pad)
qed

lemma cut_prefix_char [simp]: "cut_prefix (c # s) [c] = Some s"
  by (simp add: cut_prefix_def has_prefix_def)

lemma trim_right_zeros:
  obtains k where "s = trim_right_set s ''0'' @ replicate k (CHR ''0'')"
proof -
  let ?z = "takeWhile (\<lambda>c. c = CHR ''0'') (rev s)"
  have "\<forall>c \<in> set ?z. c = CHR ''0''" by (auto dest: set_takeWhileD)
  then have "?z = replicate (length ?z) (CHR ''0'')" by (simp add: replicate_length_same)
  then have z: "rev ?z = replicate (length ?z) (CHR ''0'')" by (metis rev_replicate)
  have "rev s = ?z @ dropWhile (\<lambda>c. c = CHR ''0'') (rev s)" by simp
  then have "s = rev (dropWhile (\<lambda>c. c = CHR ''0'') (rev s)) @ rev ?z" by (metis rev_append rev_rev_ident)
  moreover have "trim_right_set s ''0'' = rev (dropWhile (\<lambda>c. c = CHR ''0'') (rev s))"
    by (simp add: trim_right_set_def)
  ultimately show thesis using that z by metis
qed

lemma dec_value_append_zeros: "dec_value acc s = Some n \<Longrightarrow> dec_value acc (s @ replicate k (CHR ''0'')) = Some (n * 10 ^ k)"
proof (induction k)
  case (Suc k)
  then have "dec_value acc ((s @ replicate k (CHR ''0'')) @ ''0'') = Some (n * 10 ^ Suc k)"
    by (subst dec_value_append) simp
  moreover have "replicate (Suc k) (CHR ''0'') = replicate k (CHR ''0'') @ ''0''"
    by (simp add: replicate_append_same)
  ultimately show ?case by (simp only: append_assoc)
qed simp

lemma get_fraction_text [roundtrip]:
  assumes "ns < 10 ^ 9"
  shows "get_fraction (format_fraction ns @ ''Z'') = (ns, ''Z'')"
proof (cases "ns = 0")
  case True
  then show ?thesis by (simp add: format_fraction_def get_fraction_def)
next
  case False
  let ?s = "trim_right_set (pad 9 ns) ''0''"
  obtain k where k: "pad 9 ns = ?s @ replicate k (CHR ''0'')" by (rule trim_right_zeros)
  have len: "length ?s + k = 9"
    using pad_length [of ns 8] assms arg_cong [OF k, of length] by simp
  have digits: "list_all is_digit ?s" using pad_digits [of 9 ns] by (subst (asm) k) simp
  then obtain v where v: "dec_value 0 ?s = Some v"
  proof -
    have "\<exists>v. dec_value acc s = Some v" if "list_all is_digit s" for acc s
      using that by (induction s arbitrary: acc) auto
    with digits that show ?thesis by blast
  qed
  have "dec_value 0 (pad 9 ns) = Some (v * 10 ^ k)" by (subst k) (rule dec_value_append_zeros [OF v])
  then have ns: "ns = v * 10 ^ k" by (simp add: dec_value_pad)
  have "?s \<noteq> []"
  proof
    assume "?s = []"
    with v ns False show False by simp
  qed
  then obtain d u where u: "?s = d # u" by (cases ?s) auto
  have Z: "\<not> is_digit (CHR ''Z'')" by (simp add: is_digit_def)
  have "takeWhile is_digit (?s @ ''Z'') = ?s" "dropWhile is_digit (?s @ ''Z'') = ''Z''"
    using digits Z by (auto simp: list_all_iff takeWhile_append dropWhile_append)
  moreover have "take 9 ?s = ?s" using len by simp
  moreover have "9 - length ?s = k" using len by simp
  ultimately show ?thesis
    using False digits u v ns by (simp add: format_fraction_def get_fraction_def Let_def)
qed

section \<open>A printed time is read back\<close>

definition year_of :: "time \<Rightarrow> int" where
  "year_of t = fst (year_of_days (t div 10 ^ 9 div 86400))"

lemma clock_parts:
  fixes s :: nat
  assumes "s < 86400"
  shows "s div 3600 \<le> 23" "s div 60 mod 60 \<le> 59" "s mod 60 \<le> 59"
    "3600 * (s div 3600) + 60 * (s div 60 mod 60) + s mod 60 = s"
proof -
  have "s div 3600 = s div 60 div 60" by (simp add: div_mult2_eq [symmetric])
  then show "3600 * (s div 3600) + 60 * (s div 60 mod 60) + s mod 60 = s"
    using div_mult_mod_eq [of "s div 60" 60] div_mult_mod_eq [of s 60] by linarith
  have "s div 60 mod 60 < 60" "s mod 60 < 60" by simp_all
  then show "s div 60 mod 60 \<le> 59" "s mod 60 \<le> 59" by linarith+
  show "s div 3600 \<le> 23" using assms by (simp add: div_le_dividend less_mult_imp_div_less less_Suc_eq_le [symmetric])
qed

theorem parse_format_rfc3339 [roundtrip]:
  assumes "0 \<le> year_of t" "year_of t \<le> 9999"
  shows "parse_rfc3339 (format_rfc3339 t) = Some t"
proof -
  define secs where "secs = t div 10 ^ 9"
  define ns where "ns = nat (t mod 10 ^ 9)"
  define s where "s = nat (secs mod 86400)"
  obtain y yday where y: "year_of_days (secs div 86400) = (y, yday)" by fastforce
  obtain m day where m: "month_of_day (month_lengths y) 1 yday = (m, day)" by fastforce
  note date = date_correct [OF y m]
  have yr: "0 \<le> y" "y \<le> 9999" using assms y by (simp_all add: year_of_def secs_def)
  have ns: "ns < 10 ^ 9" "int ns = t mod 10 ^ 9" by (simp_all add: ns_def nat_less_iff)
  have s: "s < 86400" "int s = secs mod 86400" by (simp_all add: s_def nat_less_iff)
  note clock = clock_parts [OF s(1)]
  define tail where "tail = format_fraction ns @ ''Z''"
  have text_eq: "format_rfc3339 t = pad 4 (nat y) @ CHR ''-'' # pad 2 m @ CHR ''-'' # pad 2 (nat day) @ CHR ''T'' #
      pad 2 (s div 3600) @ CHR '':'' # pad 2 (s div 60 mod 60) @ CHR '':'' # pad 2 (s mod 60) @ tail"
    using y m yr(1) unfolding tail_def ns_def s_def secs_def
    by (simp add: format_rfc3339_def Let_def format_year_def)
  have small: "nat y < 10000" "m < 100" "nat day < 100" "s div 3600 < 100" "s div 60 mod 60 < 100" "s mod 60 < 100"
    using yr date(3,6) clock(1-3) by linarith+
  have read: "get_fraction tail = (ns, ''Z'')" unfolding tail_def by (rule get_fraction_text [OF ns(1)])
  have zone: "get_zone ''Z'' = Some (0, [])" by (simp add: get_zone_def)
  have secs_eq: "secs = (secs div 86400) * 86400 + 3600 * int (s div 3600) + 60 * int (s div 60 mod 60) + int (s mod 60)"
  proof -
    have "int s = 3600 * int (s div 3600) + 60 * int (s div 60 mod 60) + int (s mod 60)"
      using arg_cong [OF clock(4), of int] by simp
    moreover have "secs = (secs div 86400) * 86400 + int s" unfolding s(2) by simp
    ultimately show ?thesis by linarith
  qed
  have "t = secs * 10 ^ 9 + int ns" unfolding ns(2) secs_def by simp
  moreover have "days_of_date (int (nat y)) m (int (nat day)) = secs div 86400"
    using yr(1) date(1,4) by simp
  ultimately show ?thesis
    unfolding text_eq parse_rfc3339_def
    using date(2-5) yr(1) clock(1-3) secs_eq
    by (simp add: small get_year_pad get_num_pad read zone not_less)
qed

lemma pad_graphic [simp]: "graphic (pad w n)"
  using pad_digits [of w n] is_digit_graph by (simp add: graphic_def list_all_iff)

lemma format_rfc3339_graphic: "graphic (format_rfc3339 t) \<and> format_rfc3339 t \<noteq> []"
proof -
  have "graphic (trim_right_set (pad 9 n) ''0'')" for n
    using pad_graphic [of 9 n] by (auto simp: graphic_iff trim_right_set_def dest: set_dropWhileD)
  then show ?thesis
    by (simp add: format_rfc3339_def format_year_def format_fraction_def graph_char_def Let_def split: prod.split)
qed

end
