(* ===== verification/Repository_Properties.thy ===== *)
theory Repository_Properties
  imports Fixtures Redis_Race Go_Time
begin

text \<open>
  The properties of the two repositories, of the encodings they store records in, and of
  the import.
\<close>

text \<open>The contract of a repository, in one statement: its operations are those of a map.\<close>

context record_repository
begin

lemma refines_map:
  assumes inv: "invar r"
  shows "(\<forall>now x x' r'. list_all storable (rec_targets x) \<and> repo_create ops now (Some x) r = (Inr x', r') \<longrightarrow>
            content r' = (content r)(rec_domain x \<mapsto> (rec_instance_id x, rec_targets x))) \<and>
    (\<forall>dn r'. repo_delete ops dn r = (Inr (), r') \<longrightarrow> content r dn \<noteq> None \<and> content r' = (content r)(dn := None)) \<and>
    (\<forall>i r'. repo_delete_by_instance_id ops i r = (Inr (), r') \<longrightarrow>
       content r' = (\<lambda>dn. case content r dn of None \<Rightarrow> None | Some e \<Rightarrow> if fst e = i then None else Some e)) \<and>
    (\<forall>rs. repo_find ops r = Inr rs \<longrightarrow> distinct (map rec_domain rs) \<and> entries_of rs = content r)"
proof (intro conjI allI impI)
  show "content r' = (content r)(rec_domain x \<mapsto> (rec_instance_id x, rec_targets x))"
    if "list_all storable (rec_targets x) \<and> repo_create ops now (Some x) r = (Inr x', r')" for now x x' r'
    using create_content [OF inv conjunct1 [OF that] conjunct2 [OF that]] by (simp add: rec_entry_def)
  show "content r' = (\<lambda>dn. case content r dn of None \<Rightarrow> None | Some e \<Rightarrow> if fst e = i then None else Some e)"
    if "repo_delete_by_instance_id ops i r = (Inr (), r')" for i r'
    by (rule delete_by_instance_content [OF inv that])
qed (use delete_content [OF inv] find_content [OF inv] in blast)+

end

section \<open>The SQL repository\<close>

text \<open>
  C5: The SQL repository refines a map from domains to instances and targets: a creation
  that succeeds updates the map at its domain and only there, a deletion removes its
  domain, which was there, and the deletion of an instance its domains; a listing that
  succeeds returns just the entries of the map, one record for a domain.
\<close>

theorem sql_refines_map:
  assumes "sql_laws db rows" "sql_invar (rows d)"
  shows "(\<forall>now r r' d'. list_all storable_target (rec_targets r) \<and> sql_create db now (Some r) d = (Inr r', d') \<longrightarrow>
            sql_content (rows d') = (sql_content (rows d))(rec_domain r \<mapsto> (rec_instance_id r, rec_targets r))) \<and>
    (\<forall>dn d'. sql_delete db dn d = (Inr (), d') \<longrightarrow>
       sql_content (rows d) dn \<noteq> None \<and> sql_content (rows d') = (sql_content (rows d))(dn := None)) \<and>
    (\<forall>i d'. sql_delete_by_instance_id db i d = (Inr (), d') \<longrightarrow>
       sql_content (rows d') = (\<lambda>dn. case sql_content (rows d) dn of
         None \<Rightarrow> None | Some e \<Rightarrow> if fst e = i then None else Some e)) \<and>
    (\<forall>rs. sql_find db d = Inr rs \<longrightarrow> distinct (map rec_domain rs) \<and> entries_of rs = sql_content (rows d))"
  using record_repository.refines_map [OF sql_record_repository [OF assms(1)] assms(2)] unfolding sql_repo_ops .

theorem sql_refines_map_witness:
  "sql_content (tbl_rows (snd (sql_create table_db 9 (Some (new_record 3 ''*.ts'' [test_target6])) wild_table))) =
     (sql_content (tbl_rows wild_table))(''*.ts'' \<mapsto> (3, [test_target6]))"
proof -
  let ?r = "new_record 3 ''*.ts'' [test_target6]"
  have "is_ok (fst (sql_create table_db 9 (Some ?r) wild_table))" by code_simp
  then obtain r' where "sql_create table_db 9 (Some ?r) wild_table = (Inr r', snd (sql_create table_db 9 (Some ?r) wild_table))"
    by (metis is_okE prod.collapse)
  moreover have "list_all storable_target (rec_targets ?r)"
    by (simp add: storable_target_def test_target6_def is_valid_def)
  ultimately have "sql_content (tbl_rows (snd (sql_create table_db 9 (Some ?r) wild_table))) =
      (sql_content (tbl_rows wild_table))(rec_domain ?r \<mapsto> (rec_instance_id ?r, rec_targets ?r))"
    using conjunct1 [OF sql_refines_map [OF table_laws sql_invar_wild], rule_format] by blast
  then show ?thesis by simp
qed



text \<open>
  C26: An update keeps the time of creation: if the rows of each domain share one, the rows
  of the updated domain have it again, as long as the query for the old row succeeds.
\<close>

theorem sql_keeps_created_at:
  assumes "sql_laws db rows" "created_once (rows d)" "sql_create db now (Some r) d = (Inr r', d')"
    "db_select_first db (rec_domain r) d = Inr m0" "m \<in> set (domain_rows (rec_domain r) (rows d))"
    "m' \<in> set (domain_rows (rec_domain r) (rows d'))"
  shows "row_created_at m' = row_created_at m"
  by (rule sql_create_created_at [OF assms])

theorem sql_keeps_created_at_witness:
  "row_created_at ` set (domain_rows ''*.ts'' (tbl_rows (snd
     (sql_create table_db 9 (Some (new_record 3 ''*.ts'' [test_target6])) wild_table)))) \<subseteq> {7}"
proof (rule image_subsetI)
  let ?r = "new_record 3 ''*.ts'' [test_target6]"
  let ?c = "sql_create table_db 9 (Some ?r) wild_table"
  fix m
  assume m: "m \<in> set (domain_rows ''*.ts'' (tbl_rows (snd ?c)))"
  have "is_ok (fst ?c)" by code_simp
  then obtain r' where c: "?c = (Inr r', snd ?c)" by (metis is_okE prod.collapse)
  have once: "created_once (tbl_rows wild_table)"
  proof -
    have "list_all (\<lambda>m. row_created_at m = 7) (tbl_rows wild_table)" by code_simp
    then show ?thesis by (simp add: created_once_def list_all_iff)
  qed
  let ?m0 = "(new_row (new_record 1 ''*.ts'' [test_target]) 7 7 ''10.0.0.1'' 9987 0)\<lparr>row_id := 1\<rparr>"
  have first: "db_select_first table_db (rec_domain ?r) wild_table = Inr ?m0"
    and mem: "?m0 \<in> set (domain_rows (rec_domain ?r) (tbl_rows wild_table))" by code_simp+
  have "row_created_at m = row_created_at ?m0"
    by (rule sql_keeps_created_at [OF table_laws once c first mem]) (use m in simp)
  then show "row_created_at m \<in> {7}" by (simp add: new_row_def)
qed

text \<open>
  The single pass of \<open>groupModels\<close> over the rows is the grouping by domain: one record
  for each domain, in the order of their first rows, with the fields of the first row and
  the readable targets of all rows of the domain in their order.
\<close>

lemma group_models_grouping:
  "group_models ms =
     map (\<lambda>d. (group_record (hd (domain_rows d ms)))
                \<lparr>rec_targets := List.map_filter row_target (domain_rows d ms)\<rparr>)
       (rev (remdups (rev (map row_domain ms))))"
  by (simp add: group_models_eq group_of_def)

section \<open>The Redis repository\<close>

text \<open>
  C6: The Redis repository refines the same map, over any server that executes the commands
  as documented: the hashes of the records, the set of the domains and the sets of the
  instances stand for one map from domains to instances and targets.
\<close>

theorem redis_refines_map:
  assumes "redis_laws rds store" "redis_invar p (store d)"
  shows "(\<forall>now r r' d'. list_all redis_storable (rec_targets r) \<and> redis_create rds tc p now (Some r) d = (Inr r', d') \<longrightarrow>
            redis_content p (store d') =
              (redis_content p (store d))(rec_domain r \<mapsto> (rec_instance_id r, rec_targets r))) \<and>
    (\<forall>dn d'. redis_delete rds p dn d = (Inr (), d') \<longrightarrow>
       redis_content p (store d) dn \<noteq> None \<and> redis_content p (store d') = (redis_content p (store d))(dn := None)) \<and>
    (\<forall>i d'. redis_delete_by_instance_id rds p i d = (Inr (), d') \<longrightarrow>
       redis_content p (store d') = (\<lambda>dn. case redis_content p (store d) dn of
         None \<Rightarrow> None | Some e \<Rightarrow> if fst e = i then None else Some e)) \<and>
    (\<forall>rs. redis_find rds tc p d = Inr rs \<longrightarrow>
       distinct (map rec_domain rs) \<and> entries_of rs = redis_content p (store d))"
  using record_repository.refines_map [OF redis_record_repository [OF assms(1), where tc = tc and p = p] assms(2)]
  unfolding redis_repo_ops .

text \<open>A domain that moves to another instance is not deleted with the old one.\<close>

definition moved_mem :: mem where
  "moved_mem = snd (redis_create mem_redis test_codec ''tsdns'' 9 (Some (new_record 2 ''a.ts'' [test_target6]))
     (snd (redis_create mem_redis test_codec ''tsdns'' 7 (Some (new_record 1 ''a.ts'' [test_target])) [])))"

lemma moved_mem_invar: "redis_invar ''tsdns'' (mem_store moved_mem)"
proof -
  have step: "redis_invar ''tsdns'' (mem_store (snd (redis_create mem_redis test_codec ''tsdns'' now (Some r) ks)))"
    if "redis_invar ''tsdns'' (mem_store ks)" for now r ks
    using redis_mem.create_invar [OF that, of test_codec now "Some r"] by (simp add: redis_repo_ops)
  show ?thesis unfolding moved_mem_def by (intro step redis_invar_empty)
qed

theorem redis_refines_map_witness:
  "redis_content ''tsdns'' (mem_store (snd (redis_delete_by_instance_id mem_redis ''tsdns'' 1 moved_mem))) ''a.ts'' =
     Some (2, [test_target6])"
proof -
  have "is_ok (fst (redis_delete_by_instance_id mem_redis ''tsdns'' 1 moved_mem))" by code_simp
  then obtain u where "redis_delete_by_instance_id mem_redis ''tsdns'' 1 moved_mem =
      (Inr u, snd (redis_delete_by_instance_id mem_redis ''tsdns'' 1 moved_mem))" by (metis is_okE prod.collapse)
  then have "redis_content ''tsdns'' (mem_store (snd (redis_delete_by_instance_id mem_redis ''tsdns'' 1 moved_mem))) =
      (\<lambda>dn. case redis_content ''tsdns'' (mem_store moved_mem) dn of
         None \<Rightarrow> None | Some e \<Rightarrow> if fst e = 1 then None else Some e)"
    using conjunct1 [OF conjunct2 [OF conjunct2 [OF redis_refines_map [OF mem_laws moved_mem_invar]]], rule_format]
    by simp
  moreover have "redis_content ''tsdns'' (mem_store moved_mem) ''a.ts'' = Some (2, [test_target6])"
  proof -
    let ?h = "map_of (mem_hash (key_record ''tsdns'' ''a.ts'') moved_mem)"
    have "?h ''instance_id'' = Some ''2''" "hash_entry ?h = (2, [test_target6])" by code_simp+
    then show ?thesis by (auto simp: redis_content_def)
  qed
  ultimately show ?thesis by simp
qed

text \<open>
  C23: A record written as a hash, its times in the layout RFC3339Nano, is read back with
  its instance, its targets in their order and its times to the nanosecond, if these are of
  the years 0 to 9999.
\<close>

theorem redis_record_roundtrip:
  assumes "list_all redis_storable (rec_targets r)"
    and "\<And>t. t \<in> {rec_created_at r, rec_updated_at r} \<Longrightarrow> 0 \<le> year_of t \<and> year_of t \<le> 9999"
  shows "decode_record_map rfc3339_codec (rec_domain r) (encode_record_map rfc3339_codec r) =
    r\<lparr>rec_id := 0, rec_deleted_at := None\<rparr>"
proof -
  have "decode_time rfc3339_codec (format_rfc3339 t) = t" if "t \<in> {rec_created_at r, rec_updated_at r}" for t
    using assms(2) [OF that] format_rfc3339_graphic [of t]
    by (simp add: decode_time_def rfc3339_codec_def trim_space_graphic parse_format_rfc3339)
  then have times: "decode_time rfc3339_codec (tc_format rfc3339_codec (rec_created_at r)) = rec_created_at r"
    "decode_time rfc3339_codec (tc_format rfc3339_codec (rec_updated_at r)) = rec_updated_at r"
    by (simp_all add: rfc3339_codec_def)
  show ?thesis
    using targets_roundtrip [OF assms(1)] times
    by (simp add: decode_record_map_def encode_record_map_def field_def trim_space_graphic roundtrip Let_def)
       (simp add: encode_strings_def)
qed

theorem redis_record_roundtrip_witness:
  "decode_record_map rfc3339_codec ''a.ts'' (encode_record_map rfc3339_codec
     ((new_record 4 ''a.ts'' [test_target, test_target6])\<lparr>rec_created_at := 63900000000123456000\<rparr>)) =
   (new_record 4 ''a.ts'' [test_target, test_target6])\<lparr>rec_created_at := 63900000000123456000\<rparr>"
proof -
  let ?r = "(new_record 4 ''a.ts'' [test_target, test_target6])\<lparr>rec_created_at := 63900000000123456000\<rparr>"
  have "list_all redis_storable (rec_targets ?r)"
    by (simp add: redis_storable_def test_target_def test_target6_def is_valid_def zoneless_def)
  moreover have "year_of 63900000000123456000 = 2025" "year_of 0 = 1"
    by (simp_all add: year_of_def year_of_days_def Let_def)
  then have "0 \<le> year_of t \<and> year_of t \<le> 9999" if "t \<in> {rec_created_at ?r, rec_updated_at ?r}" for t
    using that by (auto simp: new_record_def)
  ultimately have "decode_record_map rfc3339_codec (rec_domain ?r) (encode_record_map rfc3339_codec ?r) =
      ?r\<lparr>rec_id := 0, rec_deleted_at := None\<rparr>" by (rule redis_record_roundtrip)
  then show ?thesis by (simp add: new_record_def)
qed



definition moved_blind :: mem where
  "moved_blind = snd (redis_create (mem_redis\<lparr>rds_hget := \<lambda>k f ks. HFailed (ErrExternal ''timeout'')\<rparr>) test_codec
     ''tsdns'' 9 (Some (new_record 2 ''a.ts'' [test_target6]))
     (snd (redis_create mem_redis test_codec ''tsdns'' 7 (Some (new_record 1 ''a.ts'' [test_target])) [])))"

text \<open>
  That rests on \<open>HGET\<close> not failing: \<open>Create\<close> takes a failed one for a missing record.
  Here the read fails while a domain moves from instance 1 to instance 2, no call returns an
  error, and the deletion of instance 1 removes the record of instance 2.
\<close>

lemma redis_failed_read:
  "is_ok (fst (redis_create (mem_redis\<lparr>rds_hget := \<lambda>k f ks. HFailed (ErrExternal ''timeout'')\<rparr>) test_codec
     ''tsdns'' 9 (Some (new_record 2 ''a.ts'' [test_target6]))
     (snd (redis_create mem_redis test_codec ''tsdns'' 7 (Some (new_record 1 ''a.ts'' [test_target])) [])))) \<and>
   redis_find mem_redis test_codec ''tsdns'' moved_blind =
     Inr [(new_record 2 ''a.ts'' [test_target6])\<lparr>rec_created_at := 9, rec_updated_at := 9\<rparr>] \<and>
   redis_find mem_redis test_codec ''tsdns'' (snd (redis_delete_by_instance_id mem_redis ''tsdns'' 1 moved_blind)) = Inr []"
  by (intro conjI) code_simp+

section \<open>Overlapping calls\<close>


definition new_race :: "mem race" where
  "new_race = \<lparr>race_db = [], race_calls = []\<rparr>"

text \<open>Two creations of one domain, for two instances, step by step in turns.\<close>

definition double_events :: "race_event list" where
  "double_events =
     [Begin (CreateCall 7 (new_record 1 ''a.ts'' [test_target])), Begin (CreateCall 8 (new_record 2 ''a.ts'' [test_target6])),
      Turn 0, Turn 1, Turn 0, Turn 1, Turn 0, Turn 1]"

definition double_race :: "mem race" where
  "double_race = race_events mem_redis test_codec ''tsdns'' double_events new_race"

lemma double_race_calls: "race_calls double_race = [Ended (Inr ()), Ended (Inr ())]"
  by code_simp


text \<open>A record of instance 1 is created while the deletion of the instance has listed the others.\<close>

definition one_record :: mem where
  "one_record = snd (redis_create mem_redis test_codec ''tsdns'' 7 (Some (new_record 1 ''a.ts'' [test_target])) [])"

definition late_race :: "mem race" where
  "late_race = race_events mem_redis test_codec ''tsdns''
     [Begin (DeleteInstanceCall 1), Turn 0, Begin (CreateCall 8 (new_record 1 ''b.ts'' [test_target6])),
      Turn 1, Turn 1, Turn 1, Turn 0] \<lparr>race_db = one_record, race_calls = []\<rparr>"

definition after_deletion :: "int64 \<Rightarrow> mem race \<Rightarrow> error + tsrecord list" where
  "after_deletion i st =
     redis_find mem_redis test_codec ''tsdns'' (snd (redis_delete_by_instance_id mem_redis ''tsdns'' i (race_db st)))"

lemma double_race_find: "redis_find mem_redis test_codec ''tsdns'' (race_db double_race) =
    Inr [(new_record 2 ''a.ts'' [test_target6])\<lparr>rec_created_at := 8, rec_updated_at := 8\<rparr>]"
  by code_simp

lemma double_race_deletion: "after_deletion 1 double_race = Inr []"
  by code_simp

lemma late_race_calls: "race_calls late_race = [Ended (Inr ()), Ended (Inr ())]"
  by code_simp

lemma late_race_deletion: "after_deletion 1 late_race =
    Inr [(new_record 1 ''b.ts'' [test_target6])\<lparr>rec_created_at := 8, rec_updated_at := 8\<rparr>]"
  by code_simp

text \<open>
  C13: The sets of the instances are not kept under overlapping calls, none of which returns
  an error. After two creations of one domain that overlap, the record belongs to instance
  2, and deleting instance 1 removes it; after a creation that overlaps the deletion of its
  instance, the record stays, and deleting the instance again does not remove it.
\<close>

theorem redis_race:
  "race_calls double_race = [Ended (Inr ()), Ended (Inr ())] \<and>
   redis_find mem_redis test_codec ''tsdns'' (race_db double_race) =
     Inr [(new_record 2 ''a.ts'' [test_target6])\<lparr>rec_created_at := 8, rec_updated_at := 8\<rparr>] \<and>
   after_deletion 1 double_race = Inr [] \<and>
   race_calls late_race = [Ended (Inr ()), Ended (Inr ())] \<and>
   after_deletion 1 late_race = Inr [(new_record 1 ''b.ts'' [test_target6])\<lparr>rec_created_at := 8, rec_updated_at := 8\<rparr>]"
  using double_race_calls double_race_find double_race_deletion late_race_calls late_race_deletion by blast

end
