(* ===== verification/Import_Properties.thy ===== *)
theory Import_Properties
  imports Fixtures
begin

text \<open>
  The properties of the parser of \<open>tsdns_settings.ini\<close> and of the import.
\<close>

section \<open>The parser\<close>

text \<open>
  C27: A file printed from entries, one on a line, is parsed into the same entries with the
  numbers of their lines, and no line is skipped.
\<close>

theorem ini_roundtrip:
  assumes "list_all entry_clean es"
  shows "parse_ini (Some \<lparr>rd_bytes = print_ini es, rd_fails = False\<rparr>) =
    Inr \<lparr>res_entries = numbered 0 es, res_skipped = 0\<rparr>"
  by (rule parse_print_clean [OF assms])

definition test_entries :: "ini_entry list" where
  "test_entries =
     [\<lparr>ent_ident = ''ts.example'', ent_value = ''10.0.0.1:9987 [2001:db8::1]:9988'', ent_line = 0\<rparr>,
      \<lparr>ent_ident = ''*.example'', ent_value = ''NORESPONSE'', ent_line = 0\<rparr>]"

theorem ini_roundtrip_witness:
  "parse_ini (Some \<lparr>rd_bytes = print_ini test_entries, rd_fails = False\<rparr>) =
    Inr \<lparr>res_entries = numbered 0 test_entries, res_skipped = 0\<rparr>"
proof (rule ini_roundtrip)
  show "list_all entry_clean test_entries"
    by (simp add: test_entries_def entry_clean_def field_clean_def entry_text_def max_buf_size_def graph_char_def)
qed

text \<open>
  C28: Whatever the bytes, if the parser returns without an error, every significant line
  is an entry or is counted as skipped, the entries are in the order of their lines, and
  their two fields are trimmed and not empty.
\<close>

theorem ini_accounting:
  assumes "parse_ini (Some rd) = Inr res"
  shows "list_all entry_ok (res_entries res) \<and> sorted_wrt (<) (map ent_line (res_entries res)) \<and>
    length (res_entries res) + res_skipped res = length (filter significant (raw_lines (rd_bytes rd)))"
  using parse_ini_ok [OF assms] by blast

definition test_file :: string where
  "test_file = join [CHR 0x0A] [''# TSDNS'', '' a.ts = 10.0.0.1 '', ''no value'', ''b.ts ='', ''c.ts=x=y'', []]"

theorem ini_accounting_witness:
  "\<exists>res. parse_ini (Some \<lparr>rd_bytes = test_file, rd_fails = False\<rparr>) = Inr res \<and>
     length (res_entries res) + res_skipped res = 4"
proof -
  have "is_ok (parse_ini (Some \<lparr>rd_bytes = test_file, rd_fails = False\<rparr>))" by code_simp
  then obtain res where res: "parse_ini (Some \<lparr>rd_bytes = test_file, rd_fails = False\<rparr>) = Inr res" by blast
  have "length (filter significant (raw_lines test_file)) = 4" by code_simp
  with ini_accounting [OF res] res show ?thesis by simp
qed

section \<open>The import\<close>

text \<open>
  An import that returns without an error has read every entry and stored it, the
  later of two for one domain, over any SQL database; one that fails has stopped at an
  entry after storing the ones before it.
\<close>

lemma import_stores:
  assumes "sql_laws db rows" "sql_invar (rows d)" "import_entries (sql_repo db) clock i 0 es d = (res, d')"
  shows "\<exists>k. (res = Inr k \<and> k = length es \<or> (\<exists>e. res = Inl e) \<and> k < length es) \<and>
    list_all (\<lambda>e. ini_content i e \<noteq> None) (take k es) \<and>
    (is_ok res \<longrightarrow> sql_invar (rows d') \<and>
       sql_content (rows d') = sql_content (rows d) ++ map_of (rev (List.map_filter (ini_content i) es)))"
proof -
  have "list_all storable_target tps" if "import_targets e = Inr tps" for e tps
    using import_targets_valid [OF that] by (simp add: list_all_iff storable_target_def)
  from record_repository.import_entries_content [OF sql_record_repository [OF assms(1)] assms(2) this assms(3)]
  show ?thesis by simp
qed

lemma import_stores_witness:
  "sql_content (tbl_rows (snd (import_entries (sql_repo table_db) int 5 0 test_entries empty_table))) ''*.example'' =
     Some (5, [])"
proof -
  let ?r = "import_entries (sql_repo table_db) int 5 0 test_entries empty_table"
  have ok: "is_ok (fst ?r)" by code_simp
  obtain res d' where r: "?r = (res, d')" by fastforce
  have "sql_content (tbl_rows d') =
      sql_content (tbl_rows empty_table) ++ map_of (rev (List.map_filter (ini_content 5) test_entries))"
    using import_stores [OF table_laws sql_invar_empty r] ok r by auto
  moreover have "map_of (rev (List.map_filter (ini_content 5) test_entries)) ''*.example'' = Some (5, [])"
    by code_simp
  ultimately show ?thesis using r by (simp add: map_add_Some_iff)
qed

text \<open>
  A value printed from addresses with their ports is imported as those targets.
\<close>

lemma import_value_roundtrip:
  assumes "list_all (\<lambda>tp. is_valid (fst tp) \<and> zoneless (fst tp)) tps" "tps \<noteq> []"
    "ent_value e = join '' '' (map addr_port_string tps)"
  shows "import_targets e = Inr tps"
  by (rule import_targets_text [OF assms])

lemma import_value_roundtrip_witness:
  "import_targets \<lparr>ent_ident = ''a'', ent_value = join '' '' (map addr_port_string [test_target, test_target6]), ent_line = 1\<rparr>
     = Inr [test_target, test_target6]"
  by (rule import_value_roundtrip)
     (simp_all add: test_target_def test_target6_def is_valid_def zoneless_def)

definition port_file :: string where
  "port_file = join [CHR 0x0A] [''a.ts=10.0.0.1:9987'', ''b.ts=12.13.14.15:$PORT'', []]"

definition port_entries :: "ini_entry list" where
  "port_entries =
     [\<lparr>ent_ident = ''a.ts'', ent_value = ''10.0.0.1:9987'', ent_line = 1\<rparr>,
      \<lparr>ent_ident = ''b.ts'', ent_value = ''12.13.14.15:$PORT'', ent_line = 2\<rparr>]"

text \<open>
  The placeholder \<open>$PORT\<close> of the official format, which the parser accepts in a value,
  is not understood by the import: it stops with an error that names the line, the count of
  imported records is lost, and the entries before it stay in the repository.
\<close>

lemma import_port_placeholder:
  "parse_ini (Some \<lparr>rd_bytes = port_file, rd_fails = False\<rparr>) = Inr \<lparr>res_entries = port_entries, res_skipped = 0\<rparr> \<and>
   fst (import_entries (sql_repo table_db) int 5 0 port_entries empty_table) =
     Inl (ErrLineInvalidIP 2 ''12.13.14.15:$PORT'') \<and>
   map row_domain (tbl_rows (snd (import_entries (sql_repo table_db) int 5 0 port_entries empty_table))) = [''a.ts'']"
  by (intro conjI) code_simp+

end
