(* ===== verification/Config.thy ===== *)
theory Config
  imports Core_Types Go_Path
begin

text \<open>
  The \<open>config\<close> package: the configuration, its defaults, the file and the environment
  variables that override them, and the validation.
\<close>

section \<open>The configuration\<close>

record tsdns_config =
  cfg_listen :: string
  cfg_cache_refresh_interval :: string

record api_config =
  cfg_api_listen :: string
  cfg_api_socket :: string
  cfg_api_url :: string
  cfg_api_token :: string

record log_config =
  cfg_level :: string
  cfg_format :: string

record storage_config =
  cfg_dsn :: string

record config =
  cfg_tsdns :: tsdns_config
  cfg_api :: api_config
  cfg_log :: log_config
  cfg_storage :: storage_config

definition default_config :: config where
  "default_config =
     \<lparr>cfg_tsdns = \<lparr>cfg_listen = ''0.0.0.0:41144'', cfg_cache_refresh_interval = ''30s''\<rparr>,
      cfg_api = \<lparr>cfg_api_listen = ''127.0.0.1:8080'', cfg_api_socket = [],
                 cfg_api_url = ''http://127.0.0.1:8080'', cfg_api_token = []\<rparr>,
      cfg_log = \<lparr>cfg_level = ''info'', cfg_format = ''text''\<rparr>,
      cfg_storage = \<lparr>cfg_dsn = ''sqlite:./data/tsdns.sqlite''\<rparr>\<rparr>"

section \<open>The operating system\<close>

text \<open>
  What the program asks of the operating system and of the YAML library: \<open>os_getenv\<close> gives
  the empty string for a variable that is not set, and \<open>yaml b c\<close> is \<open>c\<close> with the settings of the document \<open>b\<close>.
\<close>

record os =
  os_read_file :: "string \<Rightarrow> error + string"
  os_exists :: "string \<Rightarrow> bool"
  os_getenv :: "string \<Rightarrow> string"

type_synonym yaml = "string \<Rightarrow> config \<Rightarrow> config option"

section \<open>Loading\<close>

text \<open>One \<open>if v := os.Getenv(name); v != "" { setting = v }\<close>.\<close>

definition override :: "os \<Rightarrow> string \<Rightarrow> string \<Rightarrow> string" where
  "override os name old = (let v = os_getenv os name in if v \<noteq> [] then v else old)"

definition apply_env :: "os \<Rightarrow> config \<Rightarrow> config" where
  "apply_env os c =
     \<lparr>cfg_tsdns = (cfg_tsdns c)
        \<lparr>cfg_listen := override os ''TSDNS_LISTEN'' (cfg_listen (cfg_tsdns c)),
         cfg_cache_refresh_interval :=
           override os ''TSDNS_CACHE_REFRESH_INTERVAL'' (cfg_cache_refresh_interval (cfg_tsdns c))\<rparr>,
      cfg_api = (cfg_api c)
        \<lparr>cfg_api_listen := override os ''TSDNS_API_LISTEN'' (cfg_api_listen (cfg_api c)),
         cfg_api_socket := override os ''TSDNS_API_SOCKET'' (cfg_api_socket (cfg_api c)),
         cfg_api_url := override os ''TSDNS_API_URL'' (cfg_api_url (cfg_api c)),
         cfg_api_token := override os ''TSDNS_API_TOKEN'' (cfg_api_token (cfg_api c))\<rparr>,
      cfg_log = (cfg_log c)
        \<lparr>cfg_level := override os ''TSDNS_LOG_LEVEL'' (cfg_level (cfg_log c)),
         cfg_format := override os ''TSDNS_LOG_FORMAT'' (cfg_format (cfg_log c))\<rparr>,
      cfg_storage = (cfg_storage c)
        \<lparr>cfg_dsn := override os ''TSDNS_STORAGE_DSN'' (cfg_dsn (cfg_storage c))\<rparr>\<rparr>"

definition validate_config :: "config \<Rightarrow> error + unit" where
  "validate_config c =
     (if trim_space (cfg_listen (cfg_tsdns c)) = [] then Inl ErrListenRequired
      else if trim_space (cfg_cache_refresh_interval (cfg_tsdns c)) = [] then Inl ErrCacheRequired
      else if trim_space (cfg_dsn (cfg_storage c)) = [] then Inl ErrStorageRequired
      else if trim_space (cfg_api_listen (cfg_api c)) = [] \<and> trim_space (cfg_api_socket (cfg_api c)) = []
        then Inl ErrAPIMethodRequired
      else Inr ())"

text \<open>The settings before the environment: the defaults, or the file over the defaults.\<close>

definition file_config :: "os \<Rightarrow> yaml \<Rightarrow> string \<Rightarrow> error + config" where
  "file_config os yaml path =
     (if path \<noteq> [] then
        (case os_read_file os (path_clean path) of
           Inl err \<Rightarrow> Inl ErrReadConfig
         | Inr b \<Rightarrow>
             (case yaml b default_config of
                None \<Rightarrow> Inl ErrParseConfig
              | Some c \<Rightarrow> Inr c))
      else Inr default_config)"

definition load_config :: "os \<Rightarrow> yaml \<Rightarrow> string \<Rightarrow> error + config" where
  "load_config os yaml path =
     (case file_config os yaml path of
        Inl err \<Rightarrow> Inl err
      | Inr c \<Rightarrow>
          let c = apply_env os c
          in case validate_config c of
               Inl err \<Rightarrow> Inl err
             | Inr u \<Rightarrow> Inr c)"

section \<open>Lemmas\<close>

text \<open>The settings, each with the variable that overrides it.\<close>

definition settings :: "(string \<times> (config \<Rightarrow> string)) list" where
  "settings =
     [(''TSDNS_LISTEN'', \<lambda>c. cfg_listen (cfg_tsdns c)),
      (''TSDNS_CACHE_REFRESH_INTERVAL'', \<lambda>c. cfg_cache_refresh_interval (cfg_tsdns c)),
      (''TSDNS_API_LISTEN'', \<lambda>c. cfg_api_listen (cfg_api c)),
      (''TSDNS_API_SOCKET'', \<lambda>c. cfg_api_socket (cfg_api c)),
      (''TSDNS_API_URL'', \<lambda>c. cfg_api_url (cfg_api c)),
      (''TSDNS_API_TOKEN'', \<lambda>c. cfg_api_token (cfg_api c)),
      (''TSDNS_LOG_LEVEL'', \<lambda>c. cfg_level (cfg_log c)),
      (''TSDNS_LOG_FORMAT'', \<lambda>c. cfg_format (cfg_log c)),
      (''TSDNS_STORAGE_DSN'', \<lambda>c. cfg_dsn (cfg_storage c))]"

lemma apply_env_settings:
  "list_all (\<lambda>(name, get). get (apply_env os c) = override os name (get c)) settings"
  by (simp add: settings_def apply_env_def)

lemma override_idem [simp]: "override os name (override os name v) = override os name v"
  by (simp add: override_def Let_def)

lemma apply_env_idem: "apply_env os (apply_env os c) = apply_env os c"
  by (simp add: apply_env_def)

lemma load_config_okE:
  assumes "load_config os yaml path = Inr c"
  obtains c0 where "file_config os yaml path = Inr c0" "c = apply_env os c0" "validate_config c = Inr ()"
  using assms by (auto simp: load_config_def Let_def split: sum.splits)

lemma validate_config_iff:
  "validate_config c = Inr () \<longleftrightarrow>
     trim_space (cfg_listen (cfg_tsdns c)) \<noteq> [] \<and> trim_space (cfg_cache_refresh_interval (cfg_tsdns c)) \<noteq> [] \<and>
     trim_space (cfg_dsn (cfg_storage c)) \<noteq> [] \<and>
     (trim_space (cfg_api_listen (cfg_api c)) \<noteq> [] \<or> trim_space (cfg_api_socket (cfg_api c)) \<noteq> [])"
  by (simp add: validate_config_def)

end
