(* ===== verification/Go_Url.thy ===== *)
theory Go_Url
  imports Netip "HOL-Library.List_Lexorder" "HOL-Library.Char_ord"
begin

text \<open>
  \<open>net/url\<close> of Go 1.25.0, the version in \<open>go.mod\<close>: the escaping of the parts of a URL,
  \<open>Parse\<close>, and the queries. Later releases of 1.25 also refuse a bracketed host that is not
  an IPv6 address.
\<close>

section \<open>Escaping\<close>

datatype url_part = UHost | UZone | USegment | UPath | UUser | UQuery | UFragment

definition is_letter :: "char \<Rightarrow> bool" where
  "is_letter c \<longleftrightarrow> (let n = (of_char c :: nat) in 0x61 \<le> n \<and> n \<le> 0x7A \<or> 0x41 \<le> n \<and> n \<le> 0x5A)"

definition should_escape :: "url_part \<Rightarrow> char \<Rightarrow> bool" where
  "should_escape part c =
     (if is_letter c \<or> is_digit c \<or> c \<in> set ''-_.~'' then False
      else if part \<in> {UHost, UZone} then c \<notin> set ([CHR 0x22, CHR 0x27] @ ''!$&()*+,;=:[]<>'')
      else if c \<in> set ''$&+,/:;=?@'' then
        (case part of
           UPath \<Rightarrow> c = CHR ''?''
         | USegment \<Rightarrow> c \<in> set ''/;,?''
         | UUser \<Rightarrow> c \<in> set ''@/?:''
         | UFragment \<Rightarrow> False
         | _ \<Rightarrow> True)
      else \<not> (part = UFragment \<and> c \<in> set ''!()*''))"

definition upper_hex :: "nat \<Rightarrow> char" where
  "upper_hex n = ''0123456789ABCDEF'' ! n"

definition escape_char :: "url_part \<Rightarrow> char \<Rightarrow> string" where
  "escape_char part c =
     (if should_escape part c then
        (if c = CHR '' '' \<and> part = UQuery then ''+''
         else let n = (of_char c :: nat) in [CHR ''%'', upper_hex (n div 16), upper_hex (n mod 16)])
      else [c])"

definition url_escape :: "url_part \<Rightarrow> string \<Rightarrow> string" where
  "url_escape part s = concat (map (escape_char part) s)"

text \<open>
  The bytes a host may not have in an escaped form: those of ASCII but the percent sign, and
  in a zone those which could not be written as they are.
\<close>

definition escape_refused :: "url_part \<Rightarrow> nat \<Rightarrow> nat \<Rightarrow> bool" where
  "escape_refused part x y \<longleftrightarrow>
     part = UHost \<and> x < 8 \<and> (x, y) \<noteq> (2, 5) \<or>
     part = UZone \<and> (x, y) \<noteq> (2, 5) \<and> 16 * x + y \<noteq> 0x20 \<and> should_escape UHost (char_of (16 * x + y))"

fun unescape :: "url_part \<Rightarrow> string \<Rightarrow> string option" where
  "unescape part [] = Some []"
| "unescape part (c # s) =
     (if c = CHR ''%'' then
        (case s of
           a # b # t \<Rightarrow>
             (case (hex_val a, hex_val b) of
                (Some x, Some y) \<Rightarrow>
                  if escape_refused part x y then None
                  else map_option ((#) (char_of (16 * x + y))) (unescape part t)
              | _ \<Rightarrow> None)
         | _ \<Rightarrow> None)
      else if c = CHR ''+'' \<and> part = UQuery then map_option ((#) (CHR '' '')) (unescape part s)
      else if part \<in> {UHost, UZone} \<and> (of_char c :: nat) < 0x80 \<and> should_escape part c then None
      else map_option ((#) c) (unescape part s))"

text \<open>\<open>PathEscape\<close>.\<close>

definition path_escape :: "string \<Rightarrow> string" where
  "path_escape s = url_escape USegment s"

section \<open>Parse\<close>

record url =
  url_scheme :: string
  url_opaque :: string
  url_user :: "(string \<times> string option) option"
  url_host :: string
  url_path :: string
  url_raw_query :: string

definition no_url :: url where
  "no_url = \<lparr>url_scheme = [], url_opaque = [], url_user = None, url_host = [], url_path = [], url_raw_query = []\<rparr>"

text \<open>\<open>strings.ToLower\<close> on the letters of ASCII, which are all that a scheme has.\<close>

definition to_lower :: "string \<Rightarrow> string" where
  "to_lower s = map ascii_lower s"

text \<open>\<open>strings.Cut\<close>: the text before and after the first separator.\<close>

definition cut :: "char \<Rightarrow> string \<Rightarrow> string \<times> string" where
  "cut c s = (case split_2 c s of None \<Rightarrow> (s, []) | Some ab \<Rightarrow> ab)"

text \<open>\<open>getScheme\<close>; \<open>None\<close> is the error of a missing scheme before the colon.\<close>

fun scan_scheme :: "string \<Rightarrow> string \<Rightarrow> (string \<times> string) option" where
  "scan_scheme pre [] = Some ([], pre)"
| "scan_scheme pre (c # s) =
     (if is_letter c then scan_scheme (pre @ [c]) s
      else if is_digit c \<or> c \<in> set ''+-.'' then
        (if pre = [] then Some ([], c # s) else scan_scheme (pre @ [c]) s)
      else if c = CHR '':'' then (if pre = [] then None else Some (pre, s))
      else Some ([], pre @ c # s))"

definition get_scheme :: "string \<Rightarrow> (string \<times> string) option" where
  "get_scheme s = scan_scheme [] s"

definition valid_optional_port :: "string \<Rightarrow> bool" where
  "valid_optional_port port \<longleftrightarrow> port = [] \<or> hd port = CHR '':'' \<and> list_all is_digit (tl port)"

text \<open>\<open>strings.Index\<close>.\<close>

fun index_str :: "string \<Rightarrow> string \<Rightarrow> nat option" where
  "index_str sub [] = (if sub = [] then Some 0 else None)"
| "index_str sub (c # s) = (if has_prefix (c # s) sub then Some 0 else map_option Suc (index_str sub s))"

definition parse_url_host :: "string \<Rightarrow> string option" where
  "parse_url_host h =
     (if has_prefix h ''['' then
        (case last_index_byte (CHR '']'') h of
           None \<Rightarrow> None
         | Some i \<Rightarrow>
             if \<not> valid_optional_port (drop (i + 1) h) then None
             else case index_str ''%25'' (take i h) of
                    None \<Rightarrow> unescape UHost h
                  | Some z \<Rightarrow>
                      (case (unescape UHost (take z h), unescape UZone (drop z (take i h)), unescape UHost (drop i h)) of
                         (Some h1, Some h2, Some h3) \<Rightarrow> Some (h1 @ h2 @ h3)
                       | _ \<Rightarrow> None))
      else case last_index_byte (CHR '':'') h of
             None \<Rightarrow> unescape UHost h
           | Some i \<Rightarrow> if \<not> valid_optional_port (drop i h) then None else unescape UHost h)"

definition valid_userinfo :: "string \<Rightarrow> bool" where
  "valid_userinfo s \<longleftrightarrow> list_all (\<lambda>c. is_letter c \<or> is_digit c \<or> c \<in> set ([CHR 0x27] @ ''-._:~!$&()*+,;=%@'')) s"

definition parse_authority :: "string \<Rightarrow> ((string \<times> string option) option \<times> string) option" where
  "parse_authority a =
     (case last_index_byte (CHR ''@'') a of
        None \<Rightarrow> map_option (Pair None) (parse_url_host a)
      | Some i \<Rightarrow>
          (case parse_url_host (drop (i + 1) a) of
             None \<Rightarrow> None
           | Some host \<Rightarrow>
               let userinfo = take i a
               in if \<not> valid_userinfo userinfo then None
                  else case split_2 (CHR '':'') userinfo of
                         None \<Rightarrow> map_option (\<lambda>u. (Some (u, None), host)) (unescape UUser userinfo)
                       | Some (name, pass) \<Rightarrow>
                           (case (unescape UUser name, unescape UUser pass) of
                              (Some u, Some p) \<Rightarrow> Some (Some (u, Some p), host)
                            | _ \<Rightarrow> None)))"

text \<open>The URL without its fragment. Whether a query is empty or absent is not kept.\<close>

definition parse_bare_url :: "string \<Rightarrow> url option" where
  "parse_bare_url raw =
     (if list_ex (\<lambda>c. (of_char c :: nat) < 0x20 \<or> c = CHR 0x7F) raw then None
      else if raw = ''*'' then Some (no_url\<lparr>url_path := ''*''\<rparr>)
      else case get_scheme raw of
        None \<Rightarrow> None
      | Some (scheme0, rest0) \<Rightarrow>
          let scheme = to_lower scheme0; (rest, query) = cut (CHR ''?'') rest0;
              u = no_url\<lparr>url_scheme := scheme, url_raw_query := query\<rparr>
          in if \<not> has_prefix rest ''/'' \<and> scheme \<noteq> [] then Some (u\<lparr>url_opaque := rest\<rparr>)
             else if \<not> has_prefix rest ''/'' \<and> CHR '':'' \<in> set (fst (cut (CHR ''/'') rest)) then None
             else if (scheme \<noteq> [] \<or> \<not> has_prefix rest ''///'') \<and> has_prefix rest ''//'' then
               (let authority = takeWhile (\<lambda>c. c \<noteq> CHR ''/'') (drop 2 rest);
                    path = dropWhile (\<lambda>c. c \<noteq> CHR ''/'') (drop 2 rest)
                in case parse_authority authority of
                     None \<Rightarrow> None
                   | Some (user, host) \<Rightarrow>
                       map_option (\<lambda>p. u\<lparr>url_user := user, url_host := host, url_path := p\<rparr>) (unescape UPath path))
             else map_option (\<lambda>p. u\<lparr>url_path := p\<rparr>) (unescape UPath rest))"

definition parse_url :: "string \<Rightarrow> url option" where
  "parse_url raw =
     (let (bare, fragment) = cut (CHR ''#'') raw
      in case parse_bare_url bare of
           None \<Rightarrow> None
         | Some u \<Rightarrow> if fragment \<noteq> [] \<and> unescape UFragment fragment = None then None else Some u)"

section \<open>Queries\<close>

text \<open>A map from keys to lists of values; \<open>Get\<close> is the first value of a key, \<open>Set\<close> replaces its values.\<close>

type_synonym url_values = "(string \<times> string list) list"

definition values_get :: "string \<Rightarrow> url_values \<Rightarrow> string" where
  "values_get key vs = (case map_of vs key of Some (v # rest) \<Rightarrow> v | _ \<Rightarrow> [])"

definition values_set :: "string \<Rightarrow> string \<Rightarrow> url_values \<Rightarrow> url_values" where
  "values_set key value vs = (key, [value]) # filter (\<lambda>e. fst e \<noteq> key) vs"

definition values_add :: "string \<times> string \<Rightarrow> url_values \<Rightarrow> url_values" where
  "values_add kv vs =
     (let (key, value) = kv
      in (key, (case map_of vs key of None \<Rightarrow> [] | Some xs \<Rightarrow> xs) @ [value]) # filter (\<lambda>e. fst e \<noteq> key) vs)"

text \<open>\<open>Query\<close>: the parts that cannot be read are left out.\<close>

definition query_pair :: "string \<Rightarrow> (string \<times> string) option" where
  "query_pair part =
     (if part = [] \<or> CHR '';'' \<in> set part then None
      else let (k, v) = cut (CHR ''='') part
        in case (unescape UQuery k, unescape UQuery v) of
             (Some key, Some value) \<Rightarrow> Some (key, value)
           | _ \<Rightarrow> None)"

definition url_query :: "string \<Rightarrow> url_values" where
  "url_query q = fold values_add (List.map_filter query_pair (split_on (CHR ''&'') q)) []"

text \<open>\<open>Encode\<close>: the keys in the order of their bytes.\<close>

definition url_encode :: "url_values \<Rightarrow> string" where
  "url_encode vs =
     join ''&'' (concat (map (\<lambda>(k, xs). map (\<lambda>x. url_escape UQuery k @ ''='' @ url_escape UQuery x) xs)
       (sort_key fst vs)))"

section \<open>Lemmas: escaping\<close>

lemma is_letter_graph: "is_letter c \<Longrightarrow> graph_char c"
  by (auto simp: is_letter_def graph_char_def Let_def)

lemma hex_val_upper: "n < 16 \<Longrightarrow> hex_val (upper_hex n) = Some n"
proof -
  have "list_all (\<lambda>n. hex_val (upper_hex n) = Some n) [0..<16]" by code_simp
  then show "n < 16 \<Longrightarrow> hex_val (upper_hex n) = Some n" by (simp add: list_all_iff)
qed

lemma upper_hex_plain: "n < 16 \<Longrightarrow> is_letter (upper_hex n) \<or> is_digit (upper_hex n)"
proof -
  have "list_all (\<lambda>n. is_letter (upper_hex n) \<or> is_digit (upper_hex n)) [0..<16]" by code_simp
  then show "n < 16 \<Longrightarrow> is_letter (upper_hex n) \<or> is_digit (upper_hex n)" by (simp add: list_all_iff)
qed

lemma nibbles: "(of_char c :: nat) div 16 < 16" "(of_char c :: nat) mod 16 < 16"
proof -
  have "(of_char c :: nat) < 256" by simp
  then show "(of_char c :: nat) div 16 < 16" by linarith
qed simp

lemma unescape_char:
  assumes "part \<notin> {UHost, UZone}"
  shows "unescape part (escape_char part c @ s) = map_option ((#) c) (unescape part s)"
proof (cases "should_escape part c")
  case True
  then show ?thesis
    using assms nibbles [of c] by (simp add: escape_char_def hex_val_upper escape_refused_def Let_def)
next
  case False
  then have "c \<noteq> CHR ''%''" "\<not> (c = CHR ''+'' \<and> part = UQuery)"
    using assms by (auto simp: should_escape_def is_letter_def is_digit_def split: if_splits)
  with False assms show ?thesis by (auto simp: escape_char_def)
qed

lemma unescape_escape [roundtrip]: "part \<notin> {UHost, UZone} \<Longrightarrow> unescape part (url_escape part s) = Some s"
  by (induction s) (simp_all add: url_escape_def unescape_char)

lemma unescape_parts:
  "\<lbrakk>part \<notin> {UHost, UZone, UQuery}; part' \<notin> {UHost, UZone, UQuery}\<rbrakk> \<Longrightarrow> unescape part s = unescape part' s"
  by (induction part s rule: unescape.induct) (auto simp: escape_refused_def split: list.splits option.splits)

lemma unescape_same:
  assumes "CHR ''%'' \<notin> set s" "part = UQuery \<Longrightarrow> CHR ''+'' \<notin> set s"
    "part \<in> {UHost, UZone} \<Longrightarrow> \<forall>c \<in> set s. \<not> should_escape part c"
  shows "unescape part s = Some s"
  using assms by (induction s) auto

text \<open>The characters of an escaped text are not escaped themselves, but for the signs of the escaping.\<close>

lemma escaped_chars:
  assumes "c \<in> set (url_escape part s)"
  shows "c = CHR ''%'' \<or> c = CHR ''+'' \<or> \<not> should_escape part c"
proof -
  obtain d where "c \<in> set (escape_char part d)" using assms by (auto simp: url_escape_def)
  then show ?thesis
    using upper_hex_plain [OF nibbles(1) [of d]] upper_hex_plain [OF nibbles(2) [of d]]
    by (auto simp: escape_char_def Let_def should_escape_def [of part "upper_hex _"] split: if_splits)
qed

lemma path_roundtrip [roundtrip]: "unescape UPath (path_escape s) = Some s"
  using unescape_parts [of UPath USegment] by (simp add: path_escape_def roundtrip)

lemma path_escape_no_slash: "CHR ''/'' \<notin> set (path_escape s)"
  using escaped_chars [of "CHR ''/''" USegment s]
  by (auto simp: path_escape_def should_escape_def is_letter_def is_digit_def)

section \<open>Lemmas: reading a printed URL\<close>

lemma cut_absent: "c \<notin> set s \<Longrightarrow> cut c s = (s, [])"
  by (simp add: cut_def gostr)

lemma cut_append: "c \<notin> set a \<Longrightarrow> cut c (a @ c # b) = (a, b)"
  by (simp add: cut_def gostr)

lemma scan_scheme_letters: "list_all is_letter s \<Longrightarrow> scan_scheme pre (s @ t) = scan_scheme (pre @ s) t"
  by (induction s arbitrary: pre) auto

lemma get_scheme_text: "\<lbrakk>list_all is_letter s; s \<noteq> []\<rbrakk> \<Longrightarrow> get_scheme (s @ CHR '':'' # t) = Some (s, t)"
  by (simp add: get_scheme_def scan_scheme_letters is_letter_def is_digit_def)

definition url_text :: "string \<Rightarrow> string \<Rightarrow> string \<Rightarrow> string \<Rightarrow> string" where
  "url_text scheme authority path query =
     scheme @ ''://'' @ authority @ path @ (if query = [] then [] else CHR ''?'' # query)"

lemma parse_url_text:
  assumes scheme: "list_all is_letter scheme" "scheme \<noteq> []"
    and auth: "set authority \<inter> {CHR ''/'', CHR ''?'', CHR ''#''} = {}" "parse_authority authority = Some (user, host)"
    and path: "path = [] \<or> hd path = CHR ''/''" "set path \<inter> {CHR ''?'', CHR ''#''} = {}" "unescape UPath path = Some p"
    and query: "CHR ''#'' \<notin> set query"
    and graphic: "graphic authority" "graphic path" "graphic query"
  shows "parse_url (url_text scheme authority path query) =
    Some \<lparr>url_scheme = to_lower scheme, url_opaque = [], url_user = user, url_host = host, url_path = p,
          url_raw_query = query\<rparr>"
proof -
  let ?q = "if query = [] then [] else CHR ''?'' # query"
  let ?raw = "url_text scheme authority path query"
  have letter: "c \<noteq> CHR ''#'' \<and> graph_char c" if "c \<in> set scheme" for c
    using scheme(1) that is_letter_graph by (auto simp: list_all_iff is_letter_def Let_def)
  have "CHR ''#'' \<notin> set ?raw" using letter auth(1) path(2) query by (auto simp: url_text_def)
  then have whole: "cut (CHR ''#'') ?raw = (?raw, [])" by (rule cut_absent)
  have "graphic ?raw"
    using letter graphic by (auto simp: url_text_def graphic_def list_all_iff graph_char_def)
  then have ctl: "\<not> list_ex (\<lambda>c. (of_char c :: nat) < 0x20 \<or> c = CHR 0x7F) ?raw"
    by (auto simp: graphic_def list_all_iff list_ex_iff graph_char_def)
  have star: "?raw \<noteq> ''*''" using scheme(2) by (cases scheme) (auto simp: url_text_def)
  have gs: "get_scheme ?raw = Some (scheme, ''//'' @ authority @ path @ ?q)"
    using get_scheme_text [OF scheme] by (simp add: url_text_def)
  have "CHR ''?'' \<notin> set (''//'' @ authority @ path)" using auth(1) path(2) by auto
  then have rest: "cut (CHR ''?'') (''//'' @ authority @ path @ ?q) = (''//'' @ authority @ path, query)"
    using cut_absent [of "CHR ''?''" "''//'' @ authority @ path"] cut_append [of "CHR ''?''" "''//'' @ authority @ path" query]
    by (cases "query = []") simp_all
  have split: "takeWhile (\<lambda>c. c \<noteq> CHR ''/'') (authority @ path) = authority"
    "dropWhile (\<lambda>c. c \<noteq> CHR ''/'') (authority @ path) = path"
  proof -
    have "\<forall>c \<in> set authority. c \<noteq> CHR ''/''" using auth(1) by auto
    then show "takeWhile (\<lambda>c. c \<noteq> CHR ''/'') (authority @ path) = authority"
      "dropWhile (\<lambda>c. c \<noteq> CHR ''/'') (authority @ path) = path"
      using path(1) by (cases path; simp add: takeWhile_eq_all_conv dropWhile_eq_Nil_conv)+
  qed
  have "to_lower scheme \<noteq> []" using scheme(2) by (simp add: to_lower_def)
  with gs rest split auth(2) path(3) ctl star have "parse_bare_url ?raw =
      Some \<lparr>url_scheme = to_lower scheme, url_opaque = [], url_user = user, url_host = host, url_path = p,
          url_raw_query = query\<rparr>"
    by (simp add: parse_bare_url_def no_url_def Let_def)
  with whole show ?thesis by (simp add: parse_url_def)
qed

text \<open>An authority with user, password, a host name and a port.\<close>

definition host_name :: "string \<Rightarrow> bool" where
  "host_name h \<longleftrightarrow> h \<noteq> [] \<and> list_all (\<lambda>c. is_letter c \<or> is_digit c \<or> c \<in> set ''-.'') h"

definition host_port :: "string \<Rightarrow> nat \<Rightarrow> string" where
  "host_port h port = h @ CHR '':'' # dec port"

definition authority_text :: "string \<Rightarrow> string \<Rightarrow> string \<Rightarrow> nat \<Rightarrow> string" where
  "authority_text user pass h port =
     url_escape UUser user @ CHR '':'' # url_escape UUser pass @ CHR ''@'' # host_port h port"

lemma host_port_chars:
  assumes "host_name h" "c \<in> set (host_port h port)"
  shows "is_letter c \<or> is_digit c \<or> c \<in> set ''-.:''"
  using assms dec_set by (auto simp: host_name_def host_port_def list_all_iff)

lemma plain_char:
  assumes "is_letter c \<or> is_digit c"
  shows "c \<notin> set ''-_.~!$&()*+,;=:[]<>/?@#%'' \<and> graph_char c"
proof -
  have "list_all (\<lambda>c. \<not> is_letter c \<and> \<not> is_digit c) ''-_.~!$&()*+,;=:[]<>/?@#%''" by code_simp
  then have "\<forall>d \<in> set ''-_.~!$&()*+,;=:[]<>/?@#%''. \<not> is_letter d \<and> \<not> is_digit d" unfolding list_all_iff .
  with assms show ?thesis using is_letter_graph is_digit_graph by blast
qed

lemma host_char_facts:
  assumes "is_letter c \<or> is_digit c \<or> c \<in> set ''-.:''"
  shows "c \<notin> set ''@/?#[%+'' \<and> graph_char c \<and> \<not> should_escape UHost c"
proof (cases "is_letter c \<or> is_digit c")
  case True
  with plain_char [OF this] show ?thesis by (auto simp: should_escape_def)
next
  case False
  have "list_all (\<lambda>c. c \<notin> set ''@/?#[%+'' \<and> graph_char c \<and> \<not> should_escape UHost c) ''-.:''" by code_simp
  with False assms show ?thesis unfolding list_all_iff by blast
qed

lemma user_char_facts:
  assumes "c \<in> set (url_escape UUser s)"
  shows "c \<notin> set ''@/?#:'' \<and> graph_char c \<and>
    (is_letter c \<or> is_digit c \<or> c \<in> set ([CHR 0x27] @ ''-._:~!$&()*+,;=%@''))"
proof (cases "is_letter c \<or> is_digit c")
  case True
  with plain_char [OF this] show ?thesis by auto
next
  case False
  then have "c \<in> set ''%+-_.~$&,;=''"
    using escaped_chars [OF assms] by (auto simp: should_escape_def split: if_splits)
  moreover have "list_all (\<lambda>c. c \<notin> set ''@/?#:'' \<and> graph_char c \<and>
      c \<in> set ([CHR 0x27] @ ''-._:~!$&()*+,;=%@'')) ''%+-_.~$&,;=''" by code_simp
  ultimately show ?thesis unfolding list_all_iff by blast
qed

lemma parse_host_name:
  assumes "host_name h"
  shows "parse_url_host (host_port h port) = Some (host_port h port)"
proof -
  note facts = host_char_facts [OF host_port_chars [OF assms]]
  have "CHR ''['' \<notin> set (host_port h port)" using facts by fastforce
  then have "\<not> has_prefix (host_port h port) ''[''" by (cases "host_port h port") (auto simp: has_prefix_def)
  moreover have "last_index_byte (CHR '':'') (host_port h port) = Some (length h)"
    unfolding host_port_def by (rule last_index_byte_append) (use dec_set in \<open>fastforce simp: is_digit_def\<close>)
  moreover have "valid_optional_port (drop (length h) (host_port h port))"
    by (simp add: host_port_def valid_optional_port_def dec_digits)
  moreover have "unescape UHost (host_port h port) = Some (host_port h port)"
    by (rule unescape_same) (use facts in auto)
  ultimately show ?thesis
    unfolding parse_url_host_def by (simp only: if_False option.case not_True_eq_False)
qed

lemma parse_authority_text:
  assumes "host_name h"
  shows "parse_authority (authority_text user pass h port) = Some (Some (user, Some pass), host_port h port)"
proof -
  let ?ui = "url_escape UUser user @ CHR '':'' # url_escape UUser pass"
  have eq: "authority_text user pass h port = ?ui @ CHR ''@'' # host_port h port" by (simp add: authority_text_def)
  have "CHR ''@'' \<notin> set (host_port h port)" using host_char_facts [OF host_port_chars [OF assms]] by fastforce
  then have "last_index_byte (CHR ''@'') (authority_text user pass h port) = Some (length ?ui)"
    unfolding eq by (rule last_index_byte_append)
  moreover have "valid_userinfo ?ui" using user_char_facts by (fastforce simp: valid_userinfo_def list_all_iff)
  moreover have "CHR '':'' \<notin> set (url_escape UUser user)" using user_char_facts by fastforce
  then have "split_2 (CHR '':'') ?ui = Some (url_escape UUser user, url_escape UUser pass)" by (simp add: gostr)
  ultimately show ?thesis
    unfolding eq parse_authority_def by (simp add: parse_host_name [OF assms] roundtrip)
qed

lemma authority_text_chars:
  assumes "host_name h"
  shows "set (authority_text user pass h port) \<inter> {CHR ''/'', CHR ''?'', CHR ''#''} = {}"
    "graphic (authority_text user pass h port)"
proof -
  have "c \<notin> {CHR ''/'', CHR ''?'', CHR ''#''} \<and> graph_char c" if "c \<in> set (authority_text user pass h port)" for c
  proof -
    consider "c \<in> set (url_escape UUser user)" | "c \<in> set (url_escape UUser pass)" | "c \<in> set (host_port h port)"
      | "c \<in> {CHR '':'', CHR ''@''}" using \<open>c \<in> _\<close> by (auto simp: authority_text_def)
    then show ?thesis
      using user_char_facts host_char_facts [OF host_port_chars [OF assms]] by cases (auto simp: graph_char_def)
  qed
  then show "set (authority_text user pass h port) \<inter> {CHR ''/'', CHR ''?'', CHR ''#''} = {}"
    "graphic (authority_text user pass h port)" by (auto simp: graphic_def list_all_iff)
qed

text \<open>A query of one parameter.\<close>

lemma query_char_facts:
  assumes "c \<in> set (url_escape UQuery s)"
  shows "c \<notin> set ''&;=#'' \<and> graph_char c"
proof (cases "is_letter c \<or> is_digit c")
  case True
  with plain_char [OF this] show ?thesis by auto
next
  case False
  then have "c \<in> set ''%+-_.~''"
    using escaped_chars [OF assms] by (auto simp: should_escape_def split: if_splits)
  moreover have "list_all (\<lambda>c. c \<notin> set ''&;=#'' \<and> graph_char c) ''%+-_.~''" by code_simp
  ultimately show ?thesis unfolding list_all_iff by blast
qed

lemma segment_char_facts:
  assumes "c \<in> set (path_escape s)"
  shows "c \<notin> set ''/?#'' \<and> graph_char c"
proof (cases "is_letter c \<or> is_digit c")
  case True
  with plain_char [OF this] show ?thesis by auto
next
  case False
  then have "c \<in> set ''%+-_.~$&:=@''"
    using escaped_chars [OF assms [unfolded path_escape_def]] by (auto simp: should_escape_def split: if_splits)
  moreover have "list_all (\<lambda>c. c \<notin> set ''/?#'' \<and> graph_char c) ''%+-_.~$&:=@''" by code_simp
  ultimately show ?thesis unfolding list_all_iff by blast
qed

lemma url_query_one: "k \<noteq> [] \<Longrightarrow> url_query (url_escape UQuery k @ CHR ''='' # url_escape UQuery v) = [(k, [v])]"
proof -
  let ?q = "url_escape UQuery k @ CHR ''='' # url_escape UQuery v"
  have no: "CHR ''&'' \<notin> set ?q" "CHR '';'' \<notin> set ?q" "CHR ''='' \<notin> set (url_escape UQuery k)"
    using query_char_facts by fastforce+
  then have "query_pair ?q = Some (k, v)" by (simp add: query_pair_def cut_append roundtrip)
  then show ?thesis
    unfolding url_query_def split_on_absent [OF no(1)] by (simp add: List.map_filter_simps values_add_def)
qed

lemma url_query_Nil [simp]: "url_query [] = []"
  by (simp add: url_query_def query_pair_def List.map_filter_simps)

text \<open>The values that a query is made of.\<close>

lemma values_get_set: "values_get key (values_set key v vs) = v"
  "key \<noteq> key' \<Longrightarrow> values_get key' (values_set key v vs) = values_get key' vs"
proof -
  show "values_get key (values_set key v vs) = v" by (simp add: values_get_def values_set_def)
  assume "key \<noteq> key'"
  then have "map_of (filter (\<lambda>e. fst e \<noteq> key) vs) key' = map_of vs key'" by (induction vs) auto
  with \<open>key \<noteq> key'\<close> show "values_get key' (values_set key v vs) = values_get key' vs"
    by (simp add: values_get_def values_set_def)
qed

end
