(* ===== verification/Storage.thy ===== *)
theory Storage
  imports Sql_Repo Redis_Repo Go_Url
begin

text \<open>
  The \<open>storage\<close> package: the reading of the data source name, the repository it selects,
  and that repository as one interface over both backends.
\<close>

section \<open>Addresses\<close>

text \<open>\<open>net.SplitHostPort\<close>: the host and the port, or an error.\<close>

definition split_host_port :: "string \<Rightarrow> (string \<times> string) option" where
  "split_host_port hostport =
     (case last_index_byte (CHR '':'') hostport of
        None \<Rightarrow> None
      | Some i \<Rightarrow>
          let port = drop (i + 1) hostport
          in if has_prefix hostport ''['' then
               (case index_byte (CHR '']'') hostport of
                  None \<Rightarrow> None
                | Some e \<Rightarrow>
                    if e + 1 \<noteq> i then None
                    else if CHR ''['' \<in> set (drop 1 hostport) \<or> CHR '']'' \<in> set (drop (e + 1) hostport) then None
                    else Some (drop 1 (take e hostport), port))
             else let host = take i hostport
               in if CHR '':'' \<in> set host then None
                  else if CHR ''['' \<in> set hostport \<or> CHR '']'' \<in> set hostport then None
                  else Some (host, port))"

section \<open>Data source names\<close>

record parsed_dsn =
  dsn_backend :: string
  dsn_dialect :: string
  dsn_sql :: string
  dsn_redis :: redis_options

definition no_redis :: redis_options where
  "no_redis = \<lparr>opt_addr = [], opt_password = [], opt_prefix = [], opt_db = 0\<rparr>"

definition sql_dsn :: "string \<Rightarrow> string \<Rightarrow> parsed_dsn" where
  "sql_dsn dialect dsn =
     \<lparr>dsn_backend = ''sql'', dsn_dialect = dialect, dsn_sql = dsn, dsn_redis = no_redis\<rparr>"

definition redis_dsn :: "redis_options \<Rightarrow> parsed_dsn" where
  "redis_dsn opt = \<lparr>dsn_backend = ''redis'', dsn_dialect = [], dsn_sql = [], dsn_redis = opt\<rparr>"

definition sqlite_dsn_from_url :: "url \<Rightarrow> string" where
  "sqlite_dsn_from_url u =
     (let base = (if url_opaque u \<noteq> [] then url_opaque u else url_path u);
          base = (if base = ''/:memory:'' then '':memory:'' else base)
      in if url_raw_query u \<noteq> [] then
           (if CHR ''?'' \<in> set base then base @ ''&'' @ url_raw_query u else base @ ''?'' @ url_raw_query u)
         else base)"

definition parse_sqlite_dsn :: "url \<Rightarrow> error + parsed_dsn" where
  "parse_sqlite_dsn u =
     (let d = trim_space (sqlite_dsn_from_url u)
      in if d = [] then Inl ErrSQLitePathMissing else Inr (sql_dsn ''sqlite'' d))"

definition parse_postgres_dsn :: "url \<Rightarrow> string \<Rightarrow> error + parsed_dsn" where
  "parse_postgres_dsn u dsn =
     (if url_host u = [] then Inl ErrPostgresURLRequired else Inr (sql_dsn ''postgres'' dsn))"

definition extract_user_info :: "(string \<times> string option) option \<Rightarrow> string \<times> string" where
  "extract_user_info user =
     (case user of
        None \<Rightarrow> ([], [])
      | Some (name, pass) \<Rightarrow> (name, case pass of None \<Rightarrow> [] | Some p \<Rightarrow> p))"

definition ensure_mysql_port :: "string \<Rightarrow> string" where
  "ensure_mysql_port host =
     (case split_host_port host of
        None \<Rightarrow> if CHR '':'' \<notin> set host then host @ '':3306'' else host
      | Some hp \<Rightarrow> host)"

definition build_mysql_query :: "url_values \<Rightarrow> string" where
  "build_mysql_query q =
     (let q = (if values_get ''parseTime'' q = [] then values_set ''parseTime'' ''true'' q else q)
      in url_encode q)"

definition mysql_dsn_from_url :: "url \<Rightarrow> error + string" where
  "mysql_dsn_from_url u =
     (if url_opaque u \<noteq> [] then Inr (url_opaque u)
      else if url_host u = [] then Inl ErrMySQLHostMissing
      else let db_name = trim_prefix (url_path u) ''/''
        in if trim_space db_name = [] then Inl ErrMySQLDBMissing
           else let (user, pass) = extract_user_info (url_user u)
             in if user = [] then Inl ErrMySQLUserMissing
                else let host_port = ensure_mysql_port (url_host u);
                         raw_query = build_mysql_query (url_query (url_raw_query u));
                         creds = (if pass \<noteq> [] then user @ '':'' @ pass else user);
                         dsn = creds @ ''@tcp('' @ host_port @ '')/'' @ db_name
                  in Inr (if raw_query \<noteq> [] then dsn @ ''?'' @ raw_query else dsn))"

definition parse_mysql_dsn :: "url \<Rightarrow> error + parsed_dsn" where
  "parse_mysql_dsn u =
     (case mysql_dsn_from_url u of
        Inl err \<Rightarrow> Inl err
      | Inr d \<Rightarrow> Inr (sql_dsn ''mysql'' d))"

definition ensure_redis_port :: "string \<Rightarrow> string" where
  "ensure_redis_port host =
     (if host = [] then []
      else case split_host_port host of
             None \<Rightarrow> if CHR '':'' \<notin> set host then host @ '':6379'' else host
           | Some hp \<Rightarrow> host)"

definition extract_redis_db :: "string \<Rightarrow> error + int" where
  "extract_redis_db path =
     (let db_str = trim_set path ''/''
      in if db_str = [] then Inr 0
         else case parse_int64 db_str of
                None \<Rightarrow> Inl ErrRedisDBInvalid
              | Some n \<Rightarrow> if sint n < 0 then Inl ErrRedisDBInvalid else Inr (sint n))"

definition parse_redis_url :: "url \<Rightarrow> error + redis_options" where
  "parse_redis_url u =
     (if \<not> equal_fold (url_scheme u) ''redis'' then Inl (ErrUnsupportedScheme (url_scheme u))
      else if url_user u \<noteq> None \<and> fst (the (url_user u)) \<noteq> [] then Inl ErrRedisUserUnsupported
      else let addr = ensure_redis_port (url_host u)
        in if addr = [] then Inl ErrRedisHostMissing
           else let (user, password) = extract_user_info (url_user u)
             in case extract_redis_db (url_path u) of
                  Inl err \<Rightarrow> Inl err
                | Inr db \<Rightarrow>
                    Inr \<lparr>opt_addr = addr, opt_password = password,
                         opt_prefix = trim_space (values_get ''prefix'' (url_query (url_raw_query u))),
                         opt_db = db\<rparr>)"

definition parse_redis_dsn :: "url \<Rightarrow> error + parsed_dsn" where
  "parse_redis_dsn u =
     (case parse_redis_url u of
        Inl err \<Rightarrow> Inl err
      | Inr opt \<Rightarrow> Inr (redis_dsn opt))"

definition parse_dsn :: "string \<Rightarrow> error + parsed_dsn" where
  "parse_dsn dsn0 =
     (let dsn = trim_space dsn0
      in if dsn = [] then Inl ErrDSNRequired
         else case parse_url dsn of
                None \<Rightarrow> Inl ErrInvalidDSN
              | Some u \<Rightarrow>
                  if url_scheme u = [] then Inl ErrSchemeRequired
                  else let scheme = to_lower (url_scheme u)
                    in if scheme = ''sqlite'' then parse_sqlite_dsn u
                       else if scheme = ''postgres'' \<or> scheme = ''postgresql'' then parse_postgres_dsn u dsn
                       else if scheme = ''mysql'' \<or> scheme = ''mariadb'' then parse_mysql_dsn u
                       else if scheme = ''redis'' then parse_redis_dsn u
                       else Inl (ErrUnsupportedScheme (url_scheme u)))"

definition detect :: "string \<Rightarrow> error + string" where
  "detect dsn =
     (case parse_dsn dsn of
        Inl err \<Rightarrow> Inl err
      | Inr p \<Rightarrow> Inr (dsn_backend p))"

section \<open>The repository behind a name\<close>

text \<open>The value behind the \<open>RecordRepository\<close> interface: a SQL database, or a Redis client with its prefix.\<close>

datatype ('d, 'e) store = SqlStore 'd | RedisStore string 'e

record ('d, 'e) backends =
  bk_drivers :: "'d drivers"
  bk_redis :: "'e redis_ops"
  bk_connect :: "string \<Rightarrow> string \<Rightarrow> int \<Rightarrow> 'e"

definition open_storage :: "('d, 'e) backends \<Rightarrow> string \<Rightarrow> error + (('d, 'e) store \<times> string)" where
  "open_storage bk dsn =
     (case parse_dsn dsn of
        Inl err \<Rightarrow> Inl err
      | Inr p \<Rightarrow>
          if dsn_backend p = ''sql'' then
            (case sql_new_repository (bk_drivers bk) (dsn_dialect p) (dsn_sql p) of
               Inl err \<Rightarrow> Inl err
             | Inr d \<Rightarrow> Inr (SqlStore d, dsn_backend p))
          else if dsn_backend p = ''redis'' then
            (case redis_new_repository (bk_redis bk) (bk_connect bk) (dsn_redis p) of
               Inl err \<Rightarrow> Inl err
             | Inr (prefix, c) \<Rightarrow> Inr (RedisStore prefix c, dsn_backend p))
          else Inl ErrUnsupportedBackend)"

text \<open>The dynamic dispatch of the interface.\<close>

definition either_repo :: "'d repo_ops \<Rightarrow> (string \<Rightarrow> 'e repo_ops) \<Rightarrow> ('d, 'e) store repo_ops" where
  "either_repo a b =
     \<lparr>repo_find = (\<lambda>st. case st of SqlStore d \<Rightarrow> repo_find a d | RedisStore p c \<Rightarrow> repo_find (b p) c),
      repo_find_by_domain = (\<lambda>dn st. case st of
          SqlStore d \<Rightarrow> repo_find_by_domain a dn d
        | RedisStore p c \<Rightarrow> repo_find_by_domain (b p) dn c),
      repo_create = (\<lambda>now ro st. case st of
          SqlStore d \<Rightarrow> apsnd SqlStore (repo_create a now ro d)
        | RedisStore p c \<Rightarrow> apsnd (RedisStore p) (repo_create (b p) now ro c)),
      repo_delete = (\<lambda>dn st. case st of
          SqlStore d \<Rightarrow> apsnd SqlStore (repo_delete a dn d)
        | RedisStore p c \<Rightarrow> apsnd (RedisStore p) (repo_delete (b p) dn c)),
      repo_delete_by_instance_id = (\<lambda>i st. case st of
          SqlStore d \<Rightarrow> apsnd SqlStore (repo_delete_by_instance_id a i d)
        | RedisStore p c \<Rightarrow> apsnd (RedisStore p) (repo_delete_by_instance_id (b p) i c)),
      repo_close = (\<lambda>st. case st of
          SqlStore d \<Rightarrow> apsnd SqlStore (repo_close a d)
        | RedisStore p c \<Rightarrow> apsnd (RedisStore p) (repo_close (b p) c))\<rparr>"

definition storage_repo :: "'d db_ops \<Rightarrow> 'e redis_ops \<Rightarrow> time_codec \<Rightarrow> ('d, 'e) store repo_ops" where
  "storage_repo db rds tc = either_repo (sql_repo db) (redis_repo rds tc)"

section \<open>Lemmas: names\<close>

lemma split_host_port_no_colon:
  assumes "CHR '':'' \<notin> set h"
  shows "split_host_port h = None"
proof -
  have *: "last_index_byte (CHR '':'') h = None" using assms by simp
  show ?thesis unfolding split_host_port_def * by simp
qed

text \<open>A port is added exactly to the hosts without a colon; the split never decides.\<close>

lemma ensure_port_eq:
  "ensure_mysql_port h = (if CHR '':'' \<in> set h then h else h @ '':3306'')"
  "ensure_redis_port h = (if h = [] then [] else if CHR '':'' \<in> set h then h else h @ '':6379'')"
  by (auto simp: ensure_mysql_port_def ensure_redis_port_def split_host_port_no_colon split: option.splits)

lemma split_host_port_join:
  assumes "set h \<inter> {CHR '':'', CHR ''['', CHR '']''} = {}" "set p \<inter> {CHR '':'', CHR ''['', CHR '']''} = {}"
  shows "split_host_port (h @ '':'' @ p) = Some (h, p)"
proof -
  have "last_index_byte (CHR '':'') (h @ '':'' @ p) = Some (length h)"
    using assms(2) last_index_byte_append [of "CHR '':''" p h] by simp
  moreover have "\<not> has_prefix (h @ '':'' @ p) ''[''" using assms(1) by (cases h) auto
  ultimately show ?thesis using assms by (simp add: split_host_port_def Let_def)
qed

text \<open>What a name that is accepted selects.\<close>

definition dsn_ok :: "parsed_dsn \<Rightarrow> bool" where
  "dsn_ok p \<longleftrightarrow>
     dsn_backend p = ''sql'' \<and> dsn_dialect p \<in> {''sqlite'', ''postgres'', ''mysql''} \<and> dsn_sql p \<noteq> [] \<or>
     dsn_backend p = ''redis'' \<and> CHR '':'' \<in> set (opt_addr (dsn_redis p)) \<and> 0 \<le> opt_db (dsn_redis p)"

lemma extract_redis_db_nonneg: "extract_redis_db path = Inr n \<Longrightarrow> 0 \<le> n"
  by (auto simp: extract_redis_db_def Let_def split: if_splits option.splits)

lemma parse_redis_url_ok: "parse_redis_url u = Inr opt \<Longrightarrow> CHR '':'' \<in> set (opt_addr opt) \<and> 0 \<le> opt_db opt"
  by (auto simp: parse_redis_url_def Let_def ensure_port_eq split: if_splits sum.splits prod.splits
      dest: extract_redis_db_nonneg)

lemma mysql_dsn_nonempty: "mysql_dsn_from_url u = Inr d \<Longrightarrow> d \<noteq> []"
  by (auto simp: mysql_dsn_from_url_def Let_def split: if_splits prod.splits)

lemma dsn_ok_sql: "dsn_ok (sql_dsn dialect dsn) \<longleftrightarrow> dialect \<in> {''sqlite'', ''postgres'', ''mysql''} \<and> dsn \<noteq> []"
  and dsn_ok_redis: "dsn_ok (redis_dsn opt) \<longleftrightarrow> CHR '':'' \<in> set (opt_addr opt) \<and> 0 \<le> opt_db opt"
  by (auto simp: dsn_ok_def sql_dsn_def redis_dsn_def)

lemma parse_dsn_accepts: "parse_dsn dsn = Inr p \<Longrightarrow> dsn_ok p"
  by (auto simp: parse_dsn_def parse_sqlite_dsn_def parse_postgres_dsn_def parse_mysql_dsn_def parse_redis_dsn_def
      Let_def dsn_ok_sql dsn_ok_redis mysql_dsn_nonempty parse_redis_url_ok
      split: if_splits option.splits sum.splits)

text \<open>A printed name is read back.\<close>

lemma dropWhile_none: "\<forall>c \<in> set s. \<not> P c \<Longrightarrow> dropWhile P s = s"
  by (cases s) auto

lemma trim_slash: "CHR ''/'' \<notin> set s \<Longrightarrow> trim_set (CHR ''/'' # s) ''/'' = s"
proof -
  assume "CHR ''/'' \<notin> set s"
  then have "dropWhile (\<lambda>c. c = CHR ''/'') s = s" "dropWhile (\<lambda>c. c = CHR ''/'') (rev s) = rev s"
    by (intro dropWhile_none; auto)+
  then show ?thesis by (simp add: trim_set_def)
qed

lemma extract_redis_db_dec: "n < 2 ^ 63 \<Longrightarrow> extract_redis_db (''/'' @ dec n) = Inr (int n)"
proof -
  assume n: "n < 2 ^ 63"
  have "CHR ''/'' \<notin> set (dec n)" using dec_set by (fastforce simp: is_digit_def)
  then have trim: "trim_set (''/'' @ dec n) ''/'' = dec n" using trim_slash by simp
  have "sint (of_nat n :: int64) = int n"
    using n by (simp add: signed_of_nat signed_take_bit_int_eq_self)
  moreover have "is_digit (hd (dec n))" by (rule dec_set [of _ n]) simp
  then have "parse_int64 (dec n) = Some (of_nat n)"
    using n by (simp add: parse_int64_digits parse_uint_dec)
  ultimately show ?thesis unfolding extract_redis_db_def trim by simp
qed

lemma dsn_text_trimmed:
  assumes "host_name h" "graphic scheme" "graphic path" "graphic query"
  shows "trim_space (url_text scheme (authority_text user pass h port) path query) =
    url_text scheme (authority_text user pass h port) path query"
  using assms authority_text_chars(2) [OF assms(1)]
  by (intro trim_space_graphic) (simp add: url_text_def graph_char_def)

lemma redis_name_read:
  assumes h: "host_name h" and db: "db < 2 ^ 63"
  shows "parse_dsn (url_text ''redis'' (authority_text [] pass h port) (''/'' @ dec db)
      (''prefix='' @ url_escape UQuery prefix)) =
    Inr (redis_dsn \<lparr>opt_addr = host_port h port, opt_password = pass, opt_prefix = trim_space prefix, opt_db = int db\<rparr>)"
proof -
  let ?q = "''prefix='' @ url_escape UQuery prefix"
  let ?dsn = "url_text ''redis'' (authority_text [] pass h port) (''/'' @ dec db) ?q"
  have query: "graphic ?q" "CHR ''#'' \<notin> set ?q"
    using query_char_facts by (fastforce simp: graphic_def list_all_iff graph_char_def)+
  have path: "graphic (''/'' @ dec db)" "CHR ''%'' \<notin> set (''/'' @ dec db)"
    "set (''/'' @ dec db) \<inter> {CHR ''?'', CHR ''#''} = {}"
    using dec_set by (fastforce simp: is_digit_def graph_char_def)+
  have "unescape UPath (''/'' @ dec db) = Some (''/'' @ dec db)" by (rule unescape_same) (use path(2) in simp_all)
  moreover have "list_all is_letter ''redis''" by code_simp
  ultimately have url: "parse_url ?dsn = Some \<lparr>url_scheme = to_lower ''redis'', url_opaque = [],
      url_user = Some ([], Some pass), url_host = host_port h port, url_path = ''/'' @ dec db, url_raw_query = ?q\<rparr>"
    using authority_text_chars [OF h] parse_authority_text [OF h] path query
    by (intro parse_url_text) (simp_all del: append.simps append_Cons)
  have escape: "url_escape UQuery ''prefix'' = ''prefix''" by code_simp
  have "values_get ''prefix'' (url_query ?q) = prefix"
    using url_query_one [of "''prefix''" prefix] by (simp add: escape values_get_def)
  moreover have "CHR '':'' \<in> set (host_port h port)" by (simp add: host_port_def)
  moreover have "to_lower ''redis'' = ''redis''" "to_lower (to_lower ''redis'') = ''redis''"
    "equal_fold ''redis'' ''redis''" by code_simp+
  moreover have "trim_space ?dsn = ?dsn"
    using path(1) query(1) by (intro dsn_text_trimmed [OF h]) (simp_all add: graph_char_def)
  moreover have "?dsn \<noteq> []" by (simp add: url_text_def)
  ultimately show ?thesis
    using extract_redis_db_dec [OF db] url
    by (simp add: parse_dsn_def parse_redis_dsn_def parse_redis_url_def extract_user_info_def ensure_port_eq
      host_port_def Let_def)
qed

lemma mysql_name_read:
  assumes h: "host_name h" and user: "user \<noteq> []" and name: "trim_space name \<noteq> []"
  shows "parse_dsn (url_text ''mysql'' (authority_text user pass h port) (''/'' @ path_escape name) []) =
    Inr (sql_dsn ''mysql'' (user @ (if pass = [] then [] else '':'' @ pass) @ ''@tcp('' @ host_port h port @ '')/'' @ name
      @ ''?parseTime=true''))"
proof -
  let ?dsn = "url_text ''mysql'' (authority_text user pass h port) (''/'' @ path_escape name) []"
  have path: "graphic (''/'' @ path_escape name)" "set (''/'' @ path_escape name) \<inter> {CHR ''?'', CHR ''#''} = {}"
    using segment_char_facts by (fastforce simp: graphic_def list_all_iff graph_char_def)+
  have "unescape UPath (''/'' @ path_escape name) = Some (''/'' @ name)" by (simp add: roundtrip)
  moreover have "list_all is_letter ''mysql''" by code_simp
  ultimately have url: "parse_url ?dsn = Some \<lparr>url_scheme = to_lower ''mysql'', url_opaque = [],
      url_user = Some (user, Some pass), url_host = host_port h port, url_path = ''/'' @ name, url_raw_query = []\<rparr>"
    using authority_text_chars [OF h] parse_authority_text [OF h] path
    by (intro parse_url_text) (simp_all del: append.simps append_Cons)
  have "build_mysql_query [] = ''parseTime=true''" by code_simp
  moreover have "CHR '':'' \<in> set (host_port h port)" "host_port h port \<noteq> []" by (simp_all add: host_port_def)
  moreover have "to_lower ''mysql'' = ''mysql''" "to_lower (to_lower ''mysql'') = ''mysql''" by code_simp+
  moreover have "trim_space ?dsn = ?dsn"
    using path(1) by (intro dsn_text_trimmed [OF h]) (simp_all add: graph_char_def)
  moreover have "?dsn \<noteq> []" by (simp add: url_text_def)
  moreover have "trim_prefix (''/'' @ name) ''/'' = name" by (simp add: trim_prefix_def)
  ultimately show ?thesis
    using user name url
    by (simp add: parse_dsn_def parse_mysql_dsn_def mysql_dsn_from_url_def extract_user_info_def ensure_port_eq Let_def)
qed

section \<open>Lemmas: the repository of both backends\<close>

definition store_cases :: "('d \<Rightarrow> 'a) \<Rightarrow> (string \<Rightarrow> 'e \<Rightarrow> 'a) \<Rightarrow> ('d, 'e) store \<Rightarrow> 'a" where
  "store_cases f g st = (case st of SqlStore d \<Rightarrow> f d | RedisStore p c \<Rightarrow> g p c)"

lemma store_cases_simps [simp]:
  "store_cases f g (SqlStore d) = f d" "store_cases f g (RedisStore p c) = g p c"
  by (simp_all add: store_cases_def)

lemma apsnd_eqD: "apsnd f xy = (a, b) \<Longrightarrow> \<exists>y. xy = (a, y) \<and> b = f y"
  by (cases xy) auto

lemma either_repo_ops [simp]:
  "repo_find (either_repo a b) st = store_cases (repo_find a) (\<lambda>p. repo_find (b p)) st"
  "repo_find_by_domain (either_repo a b) dn st =
     store_cases (repo_find_by_domain a dn) (\<lambda>p. repo_find_by_domain (b p) dn) st"
  "repo_create (either_repo a b) now ro st =
     store_cases (\<lambda>d. apsnd SqlStore (repo_create a now ro d))
       (\<lambda>p c. apsnd (RedisStore p) (repo_create (b p) now ro c)) st"
  "repo_delete (either_repo a b) dn st =
     store_cases (\<lambda>d. apsnd SqlStore (repo_delete a dn d))
       (\<lambda>p c. apsnd (RedisStore p) (repo_delete (b p) dn c)) st"
  "repo_delete_by_instance_id (either_repo a b) i st =
     store_cases (\<lambda>d. apsnd SqlStore (repo_delete_by_instance_id a i d))
       (\<lambda>p c. apsnd (RedisStore p) (repo_delete_by_instance_id (b p) i c)) st"
  by (cases st; simp add: either_repo_def)+

text \<open>If both backends keep the contract, so does their sum.\<close>

lemma either_record_repository:
  assumes a: "record_repository a ca ia sa" and b: "\<And>p. record_repository (b p) (cb p) (ib p) sb"
  shows "record_repository (either_repo a b) (store_cases ca cb) (store_cases ia ib) (\<lambda>t. sa t \<and> sb t)"
proof (unfold_locales, goal_cases)
  case (1 st rs)
  then show ?case
    using record_repository.find_content [OF a] record_repository.find_content [OF b] by (cases st) simp_all
next
  case (2 st d x)
  then show ?case
    using record_repository.find_by_domain_content [OF a] record_repository.find_by_domain_content [OF b]
    by (cases st) simp_all
next
  case (3 now st)
  show ?case
    using record_repository.create_nil [OF a] record_repository.create_nil [OF b] by (cases st) simp_all
next
  case (4 x now st)
  then show ?case
    using record_repository.create_blank [OF a] record_repository.create_blank [OF b] by (cases st) simp_all
next
  case (5 st x now x' st')
  then have "list_all sa (rec_targets x)" "list_all sb (rec_targets x)" by (auto simp: list_all_iff)
  with 5 show ?case
    using record_repository.create_content [OF a] record_repository.create_content [OF b]
    by (cases st) (auto dest!: apsnd_eqD)
next
  case (6 st d st')
  then show ?case
    using record_repository.delete_content [OF a] record_repository.delete_content [OF b]
    by (cases st) (auto dest!: apsnd_eqD)
next
  case (7 st i st')
  then show ?case
    using record_repository.delete_by_instance_content [OF a] record_repository.delete_by_instance_content [OF b]
    by (cases st) (auto dest!: apsnd_eqD)
next
  case (8 st now xo)
  then show ?case
    using record_repository.create_invar [OF a] record_repository.create_invar [OF b]
    by (cases st) (simp_all add: apsnd_def map_prod_def case_prod_unfold)
next
  case (9 st d)
  then show ?case
    using record_repository.delete_invar [OF a] record_repository.delete_invar [OF b]
    by (cases st) (simp_all add: apsnd_def map_prod_def case_prod_unfold)
next
  case (10 st i)
  then show ?case
    using record_repository.delete_by_instance_invar [OF a] record_repository.delete_by_instance_invar [OF b]
    by (cases st) (simp_all add: apsnd_def map_prod_def case_prod_unfold)
qed

text \<open>The repository that \<open>Open\<close> gives, over any database and any Redis server with the documented laws.\<close>

definition store_content ::
  "('d \<Rightarrow> row list) \<Rightarrow> ('e \<Rightarrow> keyspace) \<Rightarrow> ('d, 'e) store \<Rightarrow> string \<Rightarrow> entry option" where
  "store_content rows keys = store_cases (\<lambda>d. sql_content (rows d)) (\<lambda>p c. redis_content p (keys c))"

definition store_invar :: "('d \<Rightarrow> row list) \<Rightarrow> ('e \<Rightarrow> keyspace) \<Rightarrow> ('d, 'e) store \<Rightarrow> bool" where
  "store_invar rows keys = store_cases (\<lambda>d. sql_invar (rows d)) (\<lambda>p c. redis_invar p (keys c))"

theorem storage_record_repository:
  assumes "sql_laws db rows" "redis_laws rds keys"
  shows "record_repository (storage_repo db rds tc) (store_content rows keys) (store_invar rows keys)
           (\<lambda>t. storable_target t \<and> redis_storable t)"
  unfolding storage_repo_def store_content_def store_invar_def
  by (rule either_record_repository [OF sql_record_repository [OF assms(1)] redis_record_repository [OF assms(2)]])

interpretation storage_mem: record_repository "storage_repo table_db mem_redis tc"
    "store_content tbl_rows mem_store" "store_invar tbl_rows mem_store"
    "\<lambda>t. storable_target t \<and> redis_storable t" for tc
  by (rule storage_record_repository [OF table_laws mem_laws])

end
