(* ===== verification/Wire.thy ===== *)
theory Wire
  imports Core_Types Go_Json
begin

text \<open>
  What the admin API and its client write to each other: the body of an upsert, the JSON of
  records and of errors, and how \<open>encoding/json\<close> reads them into the types of the code.
  A field of a structure is found by its name without regard to case; null leaves it as it
  was; a value of another type is an error. A repeated field is decoded over the first one.
\<close>

section \<open>Decoding into a type\<close>

definition json_int64 :: "int64 \<Rightarrow> json \<Rightarrow> int64 option" where
  "json_int64 old v = (case v of JNum n \<Rightarrow> parse_int64 n | JNull \<Rightarrow> Some old | _ \<Rightarrow> None)"

definition json_int32 :: "int32 \<Rightarrow> json \<Rightarrow> int32 option" where
  "json_int32 old v =
     (case v of
        JNum n \<Rightarrow>
          (case parse_int64 n of
             None \<Rightarrow> None
           | Some i \<Rightarrow> if - (2 ^ 31) \<le> sint i \<and> sint i < 2 ^ 31 then Some (ucast i) else None)
      | JNull \<Rightarrow> Some old
      | _ \<Rightarrow> None)"

text \<open>
  A slice is its backing array and its length. An array is decoded over the elements of the
  backing array, also those behind the length, and a fresh element is \<open>z\<close>.
\<close>

type_synonym 'a slice = "'a list \<times> nat"

fun decode_elements :: "('a \<Rightarrow> json \<Rightarrow> 'a option) \<Rightarrow> 'a \<Rightarrow> 'a list \<Rightarrow> json list \<Rightarrow> 'a list option" where
  "decode_elements f z backing [] = Some backing"
| "decode_elements f z [] (v # vs) =
     (case f z v of None \<Rightarrow> None | Some x \<Rightarrow> map_option ((#) x) (decode_elements f z [] vs))"
| "decode_elements f z (old # backing) (v # vs) =
     (case f old v of None \<Rightarrow> None | Some x \<Rightarrow> map_option ((#) x) (decode_elements f z backing vs))"

definition json_slice :: "('a \<Rightarrow> json \<Rightarrow> 'a option) \<Rightarrow> 'a \<Rightarrow> 'a slice \<Rightarrow> json \<Rightarrow> 'a slice option" where
  "json_slice f z old v =
     (case v of
        JNull \<Rightarrow> Some ([], 0)
      | JArr [] \<Rightarrow> Some ([], 0)
      | JArr vs \<Rightarrow> map_option (\<lambda>b. (b, length vs)) (decode_elements f z (fst old) vs)
      | _ \<Rightarrow> None)"

definition slice_list :: "'a slice \<Rightarrow> 'a list" where
  "slice_list sl = take (snd sl) (fst sl)"

text \<open>The members of an object, one after the other.\<close>

fun decode_members :: "(string \<times> json \<Rightarrow> 's \<Rightarrow> 's option) \<Rightarrow> (string \<times> json) list \<Rightarrow> 's \<Rightarrow> 's option" where
  "decode_members f [] st = Some st"
| "decode_members f (m # ms) st = (case f m st of None \<Rightarrow> None | Some st \<Rightarrow> decode_members f ms st)"

section \<open>The body of an upsert\<close>

record upsert_request =
  rq_domain :: string
  rq_targets :: "string list"
  rq_instance_id :: int64
  rq_port :: int32

type_synonym upsert_state = "string \<times> string slice \<times> int64 \<times> int32"

text \<open>A field of another name is an error, as \<open>DisallowUnknownFields\<close> asks.\<close>

definition upsert_member :: "string \<times> json \<Rightarrow> upsert_state \<Rightarrow> upsert_state option" where
  "upsert_member m st =
     (let (key, v) = m; (d, ts, i, p) = st
      in if equal_fold key ''domain'' then map_option (\<lambda>d. (d, ts, i, p)) (json_string d v)
         else if equal_fold key ''targets'' then map_option (\<lambda>ts. (d, ts, i, p)) (json_slice json_string [] ts v)
         else if equal_fold key ''instance_id'' then map_option (\<lambda>i. (d, ts, i, p)) (json_int64 i v)
         else if equal_fold key ''port'' then map_option (\<lambda>p. (d, ts, i, p)) (json_int32 p v)
         else None)"

definition upsert_of :: "upsert_state \<Rightarrow> upsert_request" where
  "upsert_of st =
     (let (d, ts, i, p) = st
      in \<lparr>rq_domain = d, rq_targets = slice_list ts, rq_instance_id = i, rq_port = p\<rparr>)"

text \<open>
  \<open>decodeJSON\<close> of a body: the first value in its first \<open>limit\<close> bytes. The text after it is
  not read; a null at the end must be followed by a byte or by the end of the body.
\<close>

definition decode_upsert :: "nat \<Rightarrow> string \<Rightarrow> upsert_request option" where
  "decode_upsert limit b =
     (case json_value max_nesting_depth (skip_space (take limit b)) of
        Some (JNull, t) \<Rightarrow>
          if t \<noteq> [] \<or> length b \<le> limit then Some (upsert_of ([], ([], 0), 0, 0)) else None
      | Some (JObj ms, t) \<Rightarrow> map_option upsert_of (decode_members upsert_member ms ([], ([], 0), 0, 0))
      | _ \<Rightarrow> None)"

text \<open>\<open>json.Marshal\<close> of the client's payload, a map, whose keys it sorts.\<close>

definition upsert_payload :: "tsrecord \<Rightarrow> string" where
  "upsert_payload r =
     encode_json (JObj
       [(''domain'', json_str (rec_domain r)),
        (''instance_id'', JNum (itoa (sint (rec_instance_id r)))),
        (''targets'', JArr (map (\<lambda>tp. json_str (addr_port_string tp)) (rec_targets r)))])"

section \<open>Records\<close>

text \<open>\<open>MarshalText\<close> and \<open>UnmarshalText\<close> of \<open>netip.AddrPort\<close>.\<close>

definition marshal_addr_port :: "addr_port \<Rightarrow> string" where
  "marshal_addr_port tp = (if is_valid (fst tp) then addr_port_string tp else [])"

definition unmarshal_addr_port :: "string \<Rightarrow> addr_port option" where
  "unmarshal_addr_port s = (if s = [] then Some (AddrZero, 0) else parse_addr_port s)"

text \<open>
  A nil slice is null and an empty one an empty array; whether a record without targets has
  the one or the other depends on where it comes from, and is the argument \<open>nil\<close>.
\<close>

definition record_json :: "time_codec \<Rightarrow> bool \<Rightarrow> tsrecord \<Rightarrow> json" where
  "record_json tc nil r =
     JObj
       ([(''created_at'', json_str (tc_format tc (rec_created_at r))),
         (''updated_at'', json_str (tc_format tc (rec_updated_at r)))]
        @ (case rec_deleted_at r of None \<Rightarrow> [] | Some t \<Rightarrow> [(''deleted_at'', json_str (tc_format tc t))])
        @ [(''domain'', json_str (rec_domain r)),
           (''targets'',
              if rec_targets r = [] \<and> nil then JNull
              else JArr (map (\<lambda>tp. json_str (marshal_addr_port tp)) (rec_targets r))),
           (''id'', JNum (itoa (sint (rec_id r)))),
           (''instance_id'', JNum (itoa (sint (rec_instance_id r))))])"

definition records_json :: "time_codec \<Rightarrow> bool \<Rightarrow> (tsrecord \<Rightarrow> bool) \<Rightarrow> tsrecord list \<Rightarrow> json" where
  "records_json tc nil_list nil rs =
     (if rs = [] \<and> nil_list then JNull else JArr (map (\<lambda>r. record_json tc (nil r) r) rs))"

text \<open>A time is read from the text between the quotes.\<close>

definition json_time :: "time_codec \<Rightarrow> time \<Rightarrow> json \<Rightarrow> time option" where
  "json_time tc old v = (case v of JStr raw s \<Rightarrow> tc_parse tc raw | JNull \<Rightarrow> Some old | _ \<Rightarrow> None)"

definition json_addr_port :: "addr_port \<Rightarrow> json \<Rightarrow> addr_port option" where
  "json_addr_port old v = (case v of JStr raw s \<Rightarrow> unmarshal_addr_port s | JNull \<Rightarrow> Some old | _ \<Rightarrow> None)"

type_synonym record_state = "tsrecord \<times> addr_port slice"

definition record_member :: "time_codec \<Rightarrow> string \<times> json \<Rightarrow> record_state \<Rightarrow> record_state option" where
  "record_member tc m st =
     (let (key, v) = m; (r, ts) = st
      in if equal_fold key ''created_at'' then
           map_option (\<lambda>t. (r\<lparr>rec_created_at := t\<rparr>, ts)) (json_time tc (rec_created_at r) v)
         else if equal_fold key ''updated_at'' then
           map_option (\<lambda>t. (r\<lparr>rec_updated_at := t\<rparr>, ts)) (json_time tc (rec_updated_at r) v)
         else if equal_fold key ''deleted_at'' then
           (case v of
              JNull \<Rightarrow> Some (r\<lparr>rec_deleted_at := None\<rparr>, ts)
            | _ \<Rightarrow> map_option (\<lambda>t. (r\<lparr>rec_deleted_at := Some t\<rparr>, ts)) (json_time tc 0 v))
         else if equal_fold key ''domain'' then
           map_option (\<lambda>d. (r\<lparr>rec_domain := d\<rparr>, ts)) (json_string (rec_domain r) v)
         else if equal_fold key ''targets'' then
           map_option (Pair r) (json_slice json_addr_port (AddrZero, 0) ts v)
         else if equal_fold key ''id'' then
           map_option (\<lambda>i. (r\<lparr>rec_id := i\<rparr>, ts)) (json_int64 (rec_id r) v)
         else if equal_fold key ''instance_id'' then
           map_option (\<lambda>i. (r\<lparr>rec_instance_id := i\<rparr>, ts)) (json_int64 (rec_instance_id r) v)
         else Some st)"

text \<open>An element of a list of pointers to records; null is the nil pointer.\<close>

definition decode_record :: "time_codec \<Rightarrow> json \<Rightarrow> tsrecord option option" where
  "decode_record tc v =
     (case v of
        JNull \<Rightarrow> Some None
      | JObj ms \<Rightarrow>
          map_option (\<lambda>(r, ts). Some (r\<lparr>rec_targets := slice_list ts\<rparr>))
            (decode_members (record_member tc) ms (new_record 0 [] [], ([], 0)))
      | _ \<Rightarrow> None)"

definition decode_records :: "time_codec \<Rightarrow> string \<Rightarrow> tsrecord option list option" where
  "decode_records tc b =
     (case json_value max_nesting_depth (skip_space b) of
        Some (JNull, t) \<Rightarrow> Some []
      | Some (JArr vs, t) \<Rightarrow> map_result (decode_record tc) vs
      | _ \<Rightarrow> None)"

section \<open>Errors\<close>

definition error_json :: "string \<Rightarrow> json" where
  "error_json msg = JObj [(''error'', json_str msg)]"

definition error_member :: "string \<times> json \<Rightarrow> string \<Rightarrow> string option" where
  "error_member m old = (if equal_fold (fst m) ''error'' then json_string old (snd m) else Some old)"

definition decode_error_body :: "string \<Rightarrow> string option" where
  "decode_error_body b =
     (case json_value max_nesting_depth (skip_space b) of
        Some (JNull, t) \<Rightarrow> Some []
      | Some (JObj ms, t) \<Rightarrow> decode_members error_member ms []
      | _ \<Rightarrow> None)"

section \<open>Lemmas\<close>

lemma json_value_body: "json_ok max_nesting_depth v \<Longrightarrow> json_stop t \<Longrightarrow>
   json_value max_nesting_depth (skip_space (encode_json v @ t)) = Some (v, t)"
  using encode_json_start [of max_nesting_depth v]
  by (subst skip_space_start) (auto simp: value_start_def json_value_encoded)

text \<open>The elements of a fresh slice.\<close>

lemma decode_elements_fresh: "decode_elements f z [] vs = map_result (f z) vs"
  by (induction vs) (auto split: option.splits)

lemma json_slice_fresh:
  assumes "\<And>x. x \<in> set xs \<Longrightarrow> f z (g x) = Some x"
  shows "\<exists>sl. json_slice f z ([], 0) (JArr (map g xs)) = Some sl \<and> slice_list sl = xs"
proof (cases xs)
  case (Cons x ys)
  then have "decode_elements f z [] (map g xs) = Some xs"
    unfolding decode_elements_fresh using map_result_map [of xs "f z" g "\<lambda>x. x"] assms by simp
  with Cons show ?thesis by (simp add: json_slice_def slice_list_def)
qed (simp add: json_slice_def slice_list_def)

lemma key_folds:
  "equal_fold ''domain'' ''domain''" "equal_fold ''targets'' ''targets''" "equal_fold ''instance_id'' ''instance_id''"
  "\<not> equal_fold ''targets'' ''domain''" "\<not> equal_fold ''instance_id'' ''domain''" "\<not> equal_fold ''instance_id'' ''targets''"
  by code_simp+

lemma addr_text_json: "\<lbrakk>is_valid (fst tp); zoneless (fst tp)\<rbrakk> \<Longrightarrow> json_text (addr_port_string tp)"
proof -
  assume "is_valid (fst tp)" "zoneless (fst tp)"
  then have "\<forall>c \<in> set (addr_port_string tp). addr_char c" using addr_text_chars [of "fst tp" "snd tp"] by simp
  then show ?thesis by (intro json_text_ascii) (auto simp: addr_char_def Let_def list_all_iff)
qed

text \<open>The API reads what the client writes.\<close>

lemma decode_upsert_payload [roundtrip]:
  assumes d: "json_text (rec_domain r)" and len: "length (upsert_payload r) \<le> limit"
    and ts: "list_all (\<lambda>tp. is_valid (fst tp) \<and> zoneless (fst tp)) (rec_targets r)"
  shows "decode_upsert limit (upsert_payload r) =
    Some \<lparr>rq_domain = rec_domain r, rq_targets = map addr_port_string (rec_targets r),
          rq_instance_id = rec_instance_id r, rq_port = 0\<rparr>"
proof -
  let ?ms = "[(''domain'', json_str (rec_domain r)), (''instance_id'', JNum (itoa (sint (rec_instance_id r)))),
        (''targets'', JArr (map json_str (map addr_port_string (rec_targets r))))]"
  have keys: "json_text ''domain''" "json_text ''instance_id''" "json_text ''targets''"
    by (rule json_text_ascii, simp)+
  have "json_ok max_nesting_depth (JObj ?ms)"
    using d ts addr_text_json keys by (auto simp: max_nesting_depth_def list_all_iff)
  moreover have p: "upsert_payload r = encode_json (JObj ?ms)" by (simp add: upsert_payload_def comp_def)
  ultimately have val: "json_value max_nesting_depth (skip_space (take limit (upsert_payload r))) = Some (JObj ?ms, [])"
    using json_value_body [of "JObj ?ms" "[]"] len by simp
  obtain sl where sl: "json_slice json_string [] ([], 0) (JArr (map json_str (map addr_port_string (rec_targets r)))) = Some sl"
    "slice_list sl = map addr_port_string (rec_targets r)"
    using json_slice_fresh [of "map addr_port_string (rec_targets r)" json_string "[]" json_str]
    by (auto simp: json_string_def)
  have "decode_members upsert_member ?ms ([], ([], 0), 0, 0) = Some (rec_domain r, sl, rec_instance_id r, 0)"
    using sl(1) by (simp add: upsert_member_def key_folds json_string_def json_int64_def parse_int64_itoa)
  with val sl(2) show ?thesis by (simp add: decode_upsert_def upsert_of_def)
qed

text \<open>The client reads the records and the errors that the API writes.\<close>

definition record_text_ok :: "time_codec \<Rightarrow> tsrecord \<Rightarrow> bool" where
  "record_text_ok tc r \<longleftrightarrow> json_text (rec_domain r) \<and>
     list_all (\<lambda>tp. is_valid (fst tp) \<and> zoneless (fst tp)) (rec_targets r) \<and>
     list_all (\<lambda>t. json_text (tc_format tc t) \<and> tc_parse tc (escape_text (tc_format tc t)) = Some t)
       ([rec_created_at r, rec_updated_at r] @ (case rec_deleted_at r of None \<Rightarrow> [] | Some t \<Rightarrow> [t]))"

lemma record_keys:
  "json_text ''created_at'' \<and> json_text ''updated_at'' \<and> json_text ''deleted_at'' \<and> json_text ''domain'' \<and>
   json_text ''targets'' \<and> json_text ''id'' \<and> json_text ''instance_id''"
  by (intro conjI; rule json_text_ascii; simp)

lemma record_json_ok:
  assumes "record_text_ok tc r" "2 \<le> d"
  shows "json_ok d (record_json tc nil r)"
proof -
  obtain e where d: "d = Suc (Suc e)" using assms(2) by (metis Suc_le_D numeral_2_eq_2 Suc_le_mono)
  have targets: "json_text (marshal_addr_port tp)" if "tp \<in> set (rec_targets r)" for tp
    using assms(1) that addr_text_json [of tp] by (auto simp: record_text_ok_def marshal_addr_port_def list_all_iff)
  show ?thesis
    using assms(1) record_keys targets
    by (cases "rec_deleted_at r") (auto simp: record_json_def record_text_ok_def d)
qed

lemma record_key_folds:
  "\<not> equal_fold ''updated_at'' ''created_at''" "\<not> equal_fold ''deleted_at'' ''created_at''"
  "\<not> equal_fold ''deleted_at'' ''updated_at''" "equal_fold ''created_at'' ''created_at''"
  "equal_fold ''updated_at'' ''updated_at''" "equal_fold ''deleted_at'' ''deleted_at''" "equal_fold ''id'' ''id''"
  "\<not> equal_fold ''domain'' ''created_at''" "\<not> equal_fold ''domain'' ''updated_at''" "\<not> equal_fold ''domain'' ''deleted_at''"
  "\<not> equal_fold ''targets'' ''created_at''" "\<not> equal_fold ''targets'' ''updated_at''" "\<not> equal_fold ''targets'' ''deleted_at''"
  "\<not> equal_fold ''id'' ''created_at''" "\<not> equal_fold ''id'' ''updated_at''" "\<not> equal_fold ''id'' ''deleted_at''"
  "\<not> equal_fold ''id'' ''domain''" "\<not> equal_fold ''id'' ''targets''"
  "\<not> equal_fold ''instance_id'' ''created_at''" "\<not> equal_fold ''instance_id'' ''updated_at''"
  "\<not> equal_fold ''instance_id'' ''deleted_at''" "\<not> equal_fold ''instance_id'' ''id''"
  by code_simp+

lemma record_member_simps:
  "record_member tc (''created_at'', v) (r, ts) =
     map_option (\<lambda>t. (r\<lparr>rec_created_at := t\<rparr>, ts)) (json_time tc (rec_created_at r) v)"
  "record_member tc (''updated_at'', v) (r, ts) =
     map_option (\<lambda>t. (r\<lparr>rec_updated_at := t\<rparr>, ts)) (json_time tc (rec_updated_at r) v)"
  "record_member tc (''deleted_at'', json_str x) (r, ts) =
     map_option (\<lambda>t. (r\<lparr>rec_deleted_at := Some t\<rparr>, ts)) (json_time tc 0 (json_str x))"
  "record_member tc (''domain'', v) (r, ts) = map_option (\<lambda>d. (r\<lparr>rec_domain := d\<rparr>, ts)) (json_string (rec_domain r) v)"
  "record_member tc (''targets'', v) (r, ts) = map_option (Pair r) (json_slice json_addr_port (AddrZero, 0) ts v)"
  "record_member tc (''id'', v) (r, ts) = map_option (\<lambda>i. (r\<lparr>rec_id := i\<rparr>, ts)) (json_int64 (rec_id r) v)"
  "record_member tc (''instance_id'', v) (r, ts) =
     map_option (\<lambda>i. (r\<lparr>rec_instance_id := i\<rparr>, ts)) (json_int64 (rec_instance_id r) v)"
  by (simp_all only: record_member_def record_key_folds key_folds if_True if_False Let_def prod.case json.case)

lemma decode_record_json:
  assumes "record_text_ok tc r"
  shows "decode_record tc (record_json tc nil r) = Some (Some r)"
proof -
  have time: "json_time tc old (json_str (tc_format tc t)) = Some t"
    if "t \<in> set ([rec_created_at r, rec_updated_at r] @ (case rec_deleted_at r of None \<Rightarrow> [] | Some t \<Rightarrow> [t]))" for t old
    using assms that by (auto simp: json_time_def record_text_ok_def list_all_iff)
  have target: "json_addr_port (AddrZero, 0) (json_str (marshal_addr_port tp)) = Some tp" if "tp \<in> set (rec_targets r)" for tp
    using assms that
    by (cases tp) (auto simp: json_addr_port_def marshal_addr_port_def unmarshal_addr_port_def record_text_ok_def
      list_all_iff roundtrip)
  define ts where "ts = (if rec_targets r = [] \<and> nil then JNull
      else JArr (map (\<lambda>tp. json_str (marshal_addr_port tp)) (rec_targets r)))"
  have "\<exists>sl. json_slice json_addr_port (AddrZero, 0) ([], 0) ts = Some sl \<and> slice_list sl = rec_targets r"
    unfolding ts_def
    using json_slice_fresh [of "rec_targets r" json_addr_port "(AddrZero, 0)" "\<lambda>tp. json_str (marshal_addr_port tp)"] target
    by (auto simp: json_slice_def slice_list_def)
  then obtain sl where sl: "json_slice json_addr_port (AddrZero, 0) ([], 0) ts = Some sl" "slice_list sl = rec_targets r"
    by blast
  have num: "json_int64 old (JNum (itoa (sint i))) = Some i" for old i
    by (simp add: json_int64_def parse_int64_itoa)
  have str: "json_string old (json_str x) = Some x" for old x by (simp add: json_string_def)
  show ?thesis
  proof (cases "rec_deleted_at r")
    case None
    then show ?thesis
      using time sl unfolding record_json_def ts_def [symmetric]
      by (simp add: decode_record_def record_member_simps num str new_record_def)
  next
    case (Some t)
    then show ?thesis
      using time sl unfolding record_json_def ts_def [symmetric]
      by (simp add: decode_record_def record_member_simps num str new_record_def)
  qed
qed

lemma decode_records_json [roundtrip]:
  assumes "list_all (record_text_ok tc) rs" "json_stop t"
  shows "decode_records tc (encode_json (records_json tc nil_list nil rs) @ t) = Some (map Some rs)"
proof -
  have "json_ok max_nesting_depth (records_json tc nil_list nil rs)"
    using assms(1) record_json_ok [of tc _ 9999] by (auto simp: records_json_def max_nesting_depth_def list_all_iff)
  note val = json_value_body [OF this assms(2)]
  have "map_result (decode_record tc) (map (\<lambda>r. record_json tc (nil r) r) rs) = Some (map Some rs)"
    using assms(1) decode_record_json by (intro map_result_map) (auto simp: list_all_iff)
  with val show ?thesis by (simp add: decode_records_def) (auto simp: records_json_def)
qed

lemma decode_error_json:
  assumes "json_text msg" "json_stop t"
  shows "decode_error_body (encode_json (error_json msg) @ t) = Some msg"
proof -
  have "json_text ''error''" by (rule json_text_ascii) simp
  with assms(1) have "json_ok max_nesting_depth (error_json msg)" by (simp add: error_json_def max_nesting_depth_def)
  note val = json_value_body [OF this assms(2)]
  have "equal_fold ''error'' ''error''" by code_simp
  then show ?thesis
    using val by (simp add: decode_error_body_def error_json_def error_member_def json_string_def)
qed

end
