(* ===== verification/Cli.thy ===== *)
theory Cli
  imports Importer Config Storage Wire
begin

text \<open>
  The commands of \<open>internal/cli\<close> that work on records: \<open>records add\<close>, \<open>delete\<close> and
  \<open>list\<close>, on the storage directly or through the admin API, \<open>import tsdns-ini\<close> and
  \<open>migrate\<close>. The flags are the arguments of the definitions.
\<close>

section \<open>The environment of a command\<close>

text \<open>
  A request as the HTTP client sends it: \<open>hq_authorization\<close> is empty when the header is not
  set. Of a response the code reads the status code, the status line and the body.
\<close>

record http_request =
  hq_method :: string
  hq_url :: string
  hq_authorization :: string
  hq_content_type :: string
  hq_body :: string

record http_response =
  hs_code :: nat
  hs_status :: string
  hs_body :: string

text \<open>
  \<open>env_http\<close> performs a request, over the Unix socket when one is given; \<open>env_times\<close> reads
  the times in JSON, \<open>env_open\<close> opens a file.
\<close>

record ('d, 'e, 'h) cli_env =
  env_os :: os
  env_yaml :: yaml
  env_backends :: "('d, 'e) backends"
  env_repo :: "('d, 'e) store repo_ops"
  env_http :: "string option \<Rightarrow> http_request \<Rightarrow> 'h \<Rightarrow> (error + http_response) \<times> 'h"
  env_times :: time_codec
  env_open :: "string \<Rightarrow> error + reader"

section \<open>The client of the API\<close>

text \<open>\<open>cl_socket\<close> is the socket the custom transport dials, if there is one.\<close>

record api_client =
  cl_socket :: "string option"
  cl_base_url :: string
  cl_token :: string

definition new_api_client :: "string \<Rightarrow> string \<Rightarrow> api_client" where
  "new_api_client base_url token =
     \<lparr>cl_socket = None, cl_base_url = trim_right_set base_url ''/'', cl_token = token\<rparr>"

definition resolve_api_client :: "os \<Rightarrow> config \<Rightarrow> string \<Rightarrow> string \<Rightarrow> api_client" where
  "resolve_api_client os cfg api_url_flag token_flag =
     (let api_url = trim_space api_url_flag;
          api_url = (if api_url = [] then trim_space (cfg_api_url (cfg_api cfg)) else api_url);
          token = trim_space token_flag;
          token = (if token = [] then trim_space (cfg_api_token (cfg_api cfg)) else token)
      in if cfg_api_socket (cfg_api cfg) \<noteq> [] \<and> os_exists os (cfg_api_socket (cfg_api cfg)) then
           \<lparr>cl_socket = Some (cfg_api_socket (cfg_api cfg)), cl_base_url = ''http://unix'', cl_token = []\<rparr>
         else new_api_client api_url token)"

definition set_auth_headers :: "string \<Rightarrow> http_request \<Rightarrow> http_request" where
  "set_auth_headers token0 req =
     (let token = trim_space token0
      in if token = [] then req else req\<lparr>hq_authorization := ''Bearer '' @ token\<rparr>)"

definition decode_api_error :: "http_response \<Rightarrow> error" where
  "decode_api_error resp =
     (case decode_error_body (hs_body resp) of
        Some e \<Rightarrow> if e \<noteq> [] then ErrAPIError ('' ('' @ hs_status resp @ ''): '' @ e)
                  else ErrAPIError ('': '' @ hs_status resp)
      | None \<Rightarrow> ErrAPIError ('': '' @ hs_status resp))"

definition success_status :: "nat \<Rightarrow> bool" where
  "success_status code \<longleftrightarrow> 200 \<le> code \<and> code < 300"

definition upsert_record_via_api ::
  "('d, 'e, 'h) cli_env \<Rightarrow> api_client \<Rightarrow> tsrecord \<Rightarrow> 'h \<Rightarrow> (error + unit) \<times> 'h" where
  "upsert_record_via_api env c r h =
     (if cl_base_url c = [] then (Inl ErrAPIRequired, h)
      else let req = \<lparr>hq_method = ''POST'', hq_url = cl_base_url c @ ''/api/v1/records'', hq_authorization = [],
                      hq_content_type = ''application/json'', hq_body = upsert_payload r\<rparr>
        in case env_http env (cl_socket c) (set_auth_headers (cl_token c) req) h of
             (Inl err, h) \<Rightarrow> (Inl err, h)
           | (Inr resp, h) \<Rightarrow>
               if success_status (hs_code resp) then (Inr (), h)
               else (Inl (decode_api_error resp), h))"

definition delete_record_via_api ::
  "('d, 'e, 'h) cli_env \<Rightarrow> api_client \<Rightarrow> string \<Rightarrow> 'h \<Rightarrow> (error + unit) \<times> 'h" where
  "delete_record_via_api env c domain h =
     (if cl_base_url c = [] then (Inl ErrAPIRequired, h)
      else let req = \<lparr>hq_method = ''DELETE'',
                      hq_url = cl_base_url c @ ''/api/v1/records/'' @ path_escape domain, hq_authorization = [],
                      hq_content_type = [], hq_body = []\<rparr>
        in case env_http env (cl_socket c) (set_auth_headers (cl_token c) req) h of
             (Inl err, h) \<Rightarrow> (Inl err, h)
           | (Inr resp, h) \<Rightarrow>
               if success_status (hs_code resp) then (Inr (), h)
               else (Inl (decode_api_error resp), h))"

definition list_records_via_api ::
  "('d, 'e, 'h) cli_env \<Rightarrow> api_client \<Rightarrow> 'h \<Rightarrow> (error + tsrecord option list) \<times> 'h" where
  "list_records_via_api env c h =
     (if cl_base_url c = [] then (Inl ErrAPIRequired, h)
      else let req = \<lparr>hq_method = ''GET'', hq_url = cl_base_url c @ ''/api/v1/records'', hq_authorization = [],
                      hq_content_type = [], hq_body = []\<rparr>
        in case env_http env (cl_socket c) (set_auth_headers (cl_token c) req) h of
             (Inl err, h) \<Rightarrow> (Inl err, h)
           | (Inr resp, h) \<Rightarrow>
               if hs_code resp \<noteq> 200 then (Inl (decode_api_error resp), h)
               else (case decode_records (env_times env) (hs_body resp) of
                       None \<Rightarrow> (Inl (ErrExternal ''decode''), h)
                     | Some rs \<Rightarrow> (Inr rs, h)))"

section \<open>The storage, directly\<close>

text \<open>
  The store of the result is the one the command opened, as it left it: \<open>defer\<close> closes it,
  and the error of the closing is dropped.
\<close>

definition with_store ::
  "('d, 'e, 'h) cli_env \<Rightarrow> string \<Rightarrow> (('d, 'e) store \<Rightarrow> (error + 'a) \<times> ('d, 'e) store) \<Rightarrow>
   (error + 'a) \<times> ('d, 'e) store option" where
  "with_store env dsn f =
     (case open_storage (env_backends env) dsn of
        Inl err \<Rightarrow> (Inl err, None)
      | Inr (repo, backend) \<Rightarrow>
          let (res, repo) = f repo in (res, Some (snd (repo_close (env_repo env) repo))))"

definition upsert_record_direct ::
  "('d, 'e, 'h) cli_env \<Rightarrow> config \<Rightarrow> time \<Rightarrow> tsrecord \<Rightarrow> (error + tsrecord) \<times> ('d, 'e) store option" where
  "upsert_record_direct env cfg now r =
     with_store env (cfg_dsn (cfg_storage cfg)) (repo_create (env_repo env) now (Some r))"

definition delete_record_direct ::
  "('d, 'e, 'h) cli_env \<Rightarrow> config \<Rightarrow> string \<Rightarrow> (error + unit) \<times> ('d, 'e) store option" where
  "delete_record_direct env cfg domain =
     with_store env (cfg_dsn (cfg_storage cfg)) (repo_delete (env_repo env) domain)"

definition list_records_direct ::
  "('d, 'e, 'h) cli_env \<Rightarrow> config \<Rightarrow> (error + tsrecord list) \<times> ('d, 'e) store option" where
  "list_records_direct env cfg =
     with_store env (cfg_dsn (cfg_storage cfg)) (\<lambda>repo. (repo_find (env_repo env) repo, repo))"

section \<open>The commands\<close>

record records_options =
  ro_config_path :: string
  ro_api_url :: string
  ro_token :: string
  ro_direct :: bool

text \<open>One target of \<open>--target\<close>: the flag \<open>--port\<close> is cut to 16 bits.\<close>

definition flag_target :: "int32 \<Rightarrow> string \<Rightarrow> addr_port option" where
  "flag_target port p =
     (case parse_addr_port p of
        Some tp \<Rightarrow> Some tp
      | None \<Rightarrow>
          (case parse_addr (trim_set p ''[] '') of
             None \<Rightarrow> None
           | Some a \<Rightarrow> Some (a, ucast port)))"

fun flag_targets :: "int32 \<Rightarrow> string list \<Rightarrow> error + addr_port list" where
  "flag_targets port [] = Inr []"
| "flag_targets port (p # ps) =
     (case flag_target port p of
        None \<Rightarrow> Inl (ErrInvalidTarget p)
      | Some tp \<Rightarrow>
          (case flag_targets port ps of
             Inl err \<Rightarrow> Inl err
           | Inr tps \<Rightarrow> Inr (tp # tps)))"

definition validate_record_input :: "tsrecord option \<Rightarrow> error + unit" where
  "validate_record_input ro =
     (case ro of
        None \<Rightarrow> Inl ErrRecordNil
      | Some r \<Rightarrow>
          if trim_space (rec_domain r) = [] then Inl ErrDomainRequired
          else if sint (rec_instance_id r) < 0 then Inl ErrInvalidInstanceID
          else Inr ())"

definition add_targets :: "int32 \<Rightarrow> string \<Rightarrow> error + addr_port list" where
  "add_targets port target_str =
     (if target_str \<noteq> [] \<and> \<not> equal_fold target_str ''NORESPONSE''
      then flag_targets port (str_fields (replace_all '','' '' '' target_str)) else Inr [])"

text \<open>The last component of the results is what the command did to the storage, if it opened it.\<close>

definition run_add_record ::
  "('d, 'e, 'h) cli_env \<Rightarrow> records_options \<Rightarrow> time \<Rightarrow> string \<Rightarrow> string \<Rightarrow> int32 \<Rightarrow> int64 \<Rightarrow> 'h \<Rightarrow>
   (error + unit) \<times> 'h \<times> ('d, 'e) store option" where
  "run_add_record env opts now domain target_str port instance_id h =
     (case load_config (env_os env) (env_yaml env) (ro_config_path opts) of
        Inl err \<Rightarrow> (Inl err, h, None)
      | Inr cfg \<Rightarrow>
          (case add_targets port target_str of
             Inl err \<Rightarrow> (Inl err, h, None)
           | Inr targets \<Rightarrow>
               let rec = new_record instance_id domain targets
               in case validate_record_input (Some rec) of
                    Inl err \<Rightarrow> (Inl err, h, None)
                  | Inr u \<Rightarrow>
                      if ro_direct opts then
                        (case upsert_record_direct env cfg now rec of
                           (Inl err, repo) \<Rightarrow> (Inl err, h, repo)
                         | (Inr r, repo) \<Rightarrow> (Inr (), h, repo))
                      else
                        let client = resolve_api_client (env_os env) cfg (ro_api_url opts) (ro_token opts);
                            (res, h) = upsert_record_via_api env client rec h
                        in (res, h, None)))"

definition run_delete_record ::
  "('d, 'e, 'h) cli_env \<Rightarrow> records_options \<Rightarrow> string \<Rightarrow> 'h \<Rightarrow> (error + unit) \<times> 'h \<times> ('d, 'e) store option" where
  "run_delete_record env opts domain h =
     (case load_config (env_os env) (env_yaml env) (ro_config_path opts) of
        Inl err \<Rightarrow> (Inl err, h, None)
      | Inr cfg \<Rightarrow>
          if trim_space domain = [] then (Inl ErrDomainRequired, h, None)
          else if ro_direct opts then
            let (res, repo) = delete_record_direct env cfg domain in (res, h, repo)
          else
            let client = resolve_api_client (env_os env) cfg (ro_api_url opts) (ro_token opts);
                (res, h) = delete_record_via_api env client domain h
            in (res, h, None))"

text \<open>The result of the list is what \<open>printJSON\<close> prints; a null in the answer is a nil pointer.\<close>

definition run_list_records ::
  "('d, 'e, 'h) cli_env \<Rightarrow> records_options \<Rightarrow> 'h \<Rightarrow> (error + tsrecord option list) \<times> 'h \<times> ('d, 'e) store option" where
  "run_list_records env opts h =
     (case load_config (env_os env) (env_yaml env) (ro_config_path opts) of
        Inl err \<Rightarrow> (Inl err, h, None)
      | Inr cfg \<Rightarrow>
          if ro_direct opts then
            (case list_records_direct env cfg of
               (Inl err, repo) \<Rightarrow> (Inl err, h, repo)
             | (Inr recs, repo) \<Rightarrow> (Inr (map Some recs), h, repo))
          else
            let client = resolve_api_client (env_os env) cfg (ro_api_url opts) (ro_token opts)
            in case list_records_via_api env client h of
                 (Inl err, h) \<Rightarrow> (Inl err, h, None)
               | (Inr recs, h) \<Rightarrow> (Inr recs, h, None))"

text \<open>\<open>import tsdns-ini\<close>; \<open>clock k\<close> is the time of the \<open>k\<close>-th creation.\<close>

definition parse_file :: "('d, 'e, 'h) cli_env \<Rightarrow> string \<Rightarrow> error + parse_result" where
  "parse_file env path =
     (case env_open env (path_clean path) of
        Inl err \<Rightarrow> Inl err
      | Inr f \<Rightarrow>
          (case parse_ini (Some f) of
             Inl ReaderNil \<Rightarrow> Inl ErrReaderNil
           | Inl err \<Rightarrow> Inl ErrScan
           | Inr res \<Rightarrow> Inr res))"

definition run_import ::
  "('d, 'e, 'h) cli_env \<Rightarrow> (nat \<Rightarrow> time) \<Rightarrow> string \<Rightarrow> string \<Rightarrow> string \<Rightarrow> int64 \<Rightarrow> bool \<Rightarrow>
   (error + string) \<times> ('d, 'e) store option" where
  "run_import env clock config_path input_path dsn_flag instance_id dry_run =
     (if input_path = [] then (Inl ErrInputRequired, None)
      else case load_config (env_os env) (env_yaml env) config_path of
             Inl err \<Rightarrow> (Inl err, None)
           | Inr cfg \<Rightarrow>
               let dsn = (if dsn_flag = [] then cfg_dsn (cfg_storage cfg) else dsn_flag)
               in if dsn = [] then (Inl ErrStorageRequired, None)
                  else case parse_file env input_path of
                         Inl err \<Rightarrow> (Inl err, None)
                       | Inr res \<Rightarrow>
                           if dry_run then
                             (Inr (''parsed '' @ itoa (int (length (res_entries res))) @ '' entries (skipped ''
                                   @ itoa (int (res_skipped res)) @ '')''), None)
                           else with_store env dsn (\<lambda>repo.
                             case import_entries (env_repo env) clock instance_id 0 (res_entries res) repo of
                               (Inl err, repo) \<Rightarrow> (Inl err, repo)
                             | (Inr imported, repo) \<Rightarrow>
                                 (Inr (''imported '' @ itoa (int imported) @ '' records (skipped ''
                                       @ itoa (int (res_skipped res)) @ '')''), repo)))"

definition run_migrate ::
  "('d, 'e, 'h) cli_env \<Rightarrow> string \<Rightarrow> string \<Rightarrow> (error + unit) \<times> ('d, 'e) store option" where
  "run_migrate env config_path dsn_flag =
     (case (if dsn_flag = [] then
              (case load_config (env_os env) (env_yaml env) config_path of
                 Inl err \<Rightarrow> Inl err
               | Inr cfg \<Rightarrow> Inr (cfg_dsn (cfg_storage cfg)))
            else Inr dsn_flag) of
        Inl err \<Rightarrow> (Inl err, None)
      | Inr dsn \<Rightarrow>
          if dsn = [] then (Inl ErrStorageRequired, None)
          else case open_storage (env_backends env) dsn of
                 Inl err \<Rightarrow> (Inl err, None)
               | Inr (repo, backend) \<Rightarrow>
                   let (res, repo) = repo_close (env_repo env) repo in (res, Some repo))"

end
