(* ===== verification/Api.thy ===== *)
theory Api
  imports Refresh Wire
begin

text \<open>
  The admin HTTP API: the token check, the routes, the handlers over the record manager and
  the listeners.
\<close>

section \<open>Requests and responses\<close>

text \<open>
  What the handlers read of an \<open>http.Request\<close>: \<open>req_segments\<close> are the unescaped segments
  of the path, on which the mux matches its patterns, and \<open>req_path\<close>, which they determine, is
  \<open>URL.Path\<close>; \<open>req_header\<close> is \<open>Header.Get\<close>, which gives the empty string for a missing header.
  A path that is not clean is redirected by the mux to the clean one.
\<close>

record request =
  req_method :: string
  req_segments :: "string list"
  req_remote_addr :: string
  req_header :: "string \<Rightarrow> string"
  req_body :: string

definition req_path :: "request \<Rightarrow> string" where
  "req_path r = concat (map (\<lambda>seg. ''/'' @ seg) (req_segments r))"

text \<open>\<open>FailureJSON err\<close> is the object with the text of \<open>err\<close>, \<open>OtherBody\<close> one that a library wrote.\<close>

datatype body =
    NoBody
  | TextBody string
  | ErrorJSON string
  | FailureJSON error
  | RecordJSON tsrecord
  | ListJSON "tsrecord list"
  | OtherBody string

record response =
  resp_status :: nat
  resp_body :: body

definition respond :: "nat \<Rightarrow> body \<Rightarrow> response" where
  "respond status b = \<lparr>resp_status = status, resp_body = b\<rparr>"

text \<open>
  The bytes of a body. \<open>writeJSON\<close> is an \<open>Encoder\<close>, which ends the text with a line feed; the
  error texts are an argument, and so is whether empty slices are nil.
\<close>

definition body_text ::
  "time_codec \<Rightarrow> (error \<Rightarrow> string) \<Rightarrow> bool \<Rightarrow> (tsrecord \<Rightarrow> bool) \<Rightarrow> body \<Rightarrow> string" where
  "body_text tc error_text nil_list nil b =
     (case b of
        NoBody \<Rightarrow> []
      | TextBody s \<Rightarrow> s
      | ErrorJSON msg \<Rightarrow> encode_json (error_json msg) @ [CHR 0x0A]
      | FailureJSON err \<Rightarrow> encode_json (error_json (error_text err)) @ [CHR 0x0A]
      | RecordJSON r \<Rightarrow> encode_json (record_json tc (nil r) r) @ [CHR 0x0A]
      | ListJSON rs \<Rightarrow> encode_json (records_json tc nil_list nil rs) @ [CHR 0x0A]
      | OtherBody s \<Rightarrow> s)"

definition write_error :: "nat \<Rightarrow> string \<Rightarrow> response" where
  "write_error status msg = respond status (ErrorJSON msg)"

section \<open>The record manager\<close>

text \<open>
  The interface \<open>RecordManager\<close>; the record a successful \<open>UpsertRecord\<close> gives is the one
  behind the caller's pointer.
\<close>

record 'm manager =
  mgr_list :: "'m \<Rightarrow> (error + tsrecord list) \<times> 'm"
  mgr_get :: "string \<Rightarrow> 'm \<Rightarrow> (error + tsrecord) \<times> 'm"
  mgr_upsert :: "tsrecord \<Rightarrow> 'm \<Rightarrow> (error + tsrecord) \<times> 'm"
  mgr_delete :: "string \<Rightarrow> 'm \<Rightarrow> (error + unit) \<times> 'm"
  mgr_delete_instance :: "int64 \<Rightarrow> 'm \<Rightarrow> (error + unit) \<times> 'm"

text \<open>The TSDNS server as the manager, at the time \<open>now\<close>.\<close>

definition core_manager :: "'r repo_ops \<Rightarrow> 'x regexp \<Rightarrow> time \<Rightarrow> (('r, 'x) server) manager" where
  "core_manager ops eng now =
     \<lparr>mgr_list = list_records ops, mgr_get = get_record ops,
      mgr_upsert = (\<lambda>r. upsert_record ops eng now (Some r)), mgr_delete = delete_record ops eng,
      mgr_delete_instance = delete_instance_records ops eng\<rparr>"

section \<open>The handlers\<close>

definition handle_healthz :: response where
  "handle_healthz = respond 200 (TextBody (''ok'' @ [CHR 0x0A]))"

definition handle_records_list :: "'m manager \<Rightarrow> 'm \<Rightarrow> response \<times> 'm" where
  "handle_records_list mgr m =
     (case mgr_list mgr m of
        (Inl err, m) \<Rightarrow> (respond 500 (FailureJSON err), m)
      | (Inr records, m) \<Rightarrow> (respond 200 (ListJSON records), m))"

definition validate_upsert_request :: "upsert_request \<Rightarrow> error + unit" where
  "validate_upsert_request r =
     (if trim_space (rq_domain r) = [] then Inl ErrDomainRequired
      else if sint (rq_port r) < 0 \<or> 65535 < sint (rq_port r) then Inl ErrInvalidPort
      else if sint (rq_instance_id r) < 0 then Inl ErrInvalidInstanceID
      else Inr ())"

text \<open>The loop over the targets; \<open>Inl t\<close> is the target that cannot be read.\<close>

fun request_targets :: "int32 \<Rightarrow> string list \<Rightarrow> string + addr_port list" where
  "request_targets port [] = Inr []"
| "request_targets port (t # ts) =
     (if equal_fold t ''NORESPONSE'' then request_targets port ts
      else case parse_addr_port t of
             Some tp \<Rightarrow>
               (case request_targets port ts of Inl e \<Rightarrow> Inl e | Inr tps \<Rightarrow> Inr (tp # tps))
           | None \<Rightarrow>
               (case parse_addr (trim_set t ''[] '') of
                  None \<Rightarrow> Inl t
                | Some a \<Rightarrow>
                    (case request_targets port ts of
                       Inl e \<Rightarrow> Inl e
                     | Inr tps \<Rightarrow> Inr ((a, ucast port) # tps))))"

definition max_body_size :: nat where
  "max_body_size = 2 ^ 20"

definition handle_records_upsert :: "'m manager \<Rightarrow> request \<Rightarrow> 'm \<Rightarrow> response \<times> 'm" where
  "handle_records_upsert mgr r m =
     (case decode_upsert max_body_size (req_body r) of
        None \<Rightarrow> (write_error 400 ''invalid json'', m)
      | Some req \<Rightarrow>
          (case validate_upsert_request req of
             Inl err \<Rightarrow> (respond 400 (FailureJSON err), m)
           | Inr u \<Rightarrow>
               (case request_targets (rq_port req) (rq_targets req) of
                  Inl t \<Rightarrow> (respond 400 (FailureJSON (ErrInvalidTarget t)), m)
                | Inr targets \<Rightarrow>
                    (case mgr_upsert mgr (new_record (rq_instance_id req) (rq_domain req) targets) m of
                       (Inl err, m) \<Rightarrow> (respond 500 (FailureJSON err), m)
                     | (Inr rec, m) \<Rightarrow>
                         (case mgr_get mgr (rq_domain req) m of
                            (Inl err, m) \<Rightarrow> (respond 201 (RecordJSON rec), m)
                          | (Inr stored, m) \<Rightarrow> (respond 201 (RecordJSON stored), m))))))"

definition handle_record_get :: "'m manager \<Rightarrow> string \<Rightarrow> 'm \<Rightarrow> response \<times> 'm" where
  "handle_record_get mgr segment m =
     (let domain = trim_space segment
      in if domain = [] \<or> CHR ''/'' \<in> set domain then (write_error 400 ''invalid domain'', m)
         else case mgr_get mgr domain m of
                (Inl err, m) \<Rightarrow> (write_error 404 ''record not found'', m)
              | (Inr rec, m) \<Rightarrow> (respond 200 (RecordJSON rec), m))"

definition handle_record_delete :: "'m manager \<Rightarrow> string \<Rightarrow> 'm \<Rightarrow> response \<times> 'm" where
  "handle_record_delete mgr segment m =
     (let domain = trim_space segment
      in if domain = [] \<or> CHR ''/'' \<in> set domain then (write_error 400 ''invalid domain'', m)
         else case mgr_delete mgr domain m of
                (Inl err, m) \<Rightarrow> (respond 500 (FailureJSON err), m)
              | (Inr u, m) \<Rightarrow> (respond 204 NoBody, m))"

definition handle_record_path_invalid :: response where
  "handle_record_path_invalid = write_error 400 ''invalid domain''"

definition handle_instance_records_delete :: "'m manager \<Rightarrow> string \<Rightarrow> 'm \<Rightarrow> response \<times> 'm" where
  "handle_instance_records_delete mgr segment m =
     (case parse_int64 (trim_space segment) of
        None \<Rightarrow> (write_error 400 ''invalid instance id'', m)
      | Some instance_id \<Rightarrow>
          if sint instance_id < 0 then (write_error 400 ''invalid instance id'', m)
          else case mgr_delete_instance mgr instance_id m of
                 (Inl err, m) \<Rightarrow> (respond 500 (FailureJSON err), m)
               | (Inr u, m) \<Rightarrow> (respond 204 NoBody, m))"

section \<open>The routes\<close>

datatype route =
    Healthz | MetricsPage | RecordsList | RecordsUpsert
  | RecordGet string | RecordDelete string | RecordPathInvalid | InstanceRecordsDelete string

text \<open>
  The pattern that matches: the patterns for GET match HEAD too, a single-segment wildcard
  does not match an empty segment, and of two patterns that match the more specific wins.
\<close>

definition api_route :: "string \<Rightarrow> string list \<Rightarrow> route option" where
  "api_route meth segments =
     (let get = meth = ''GET'' \<or> meth = ''HEAD''; delete = meth = ''DELETE''
      in case segments of
           [] \<Rightarrow> None
         | s # rest \<Rightarrow>
             if s = ''healthz'' \<and> rest = [] then (if get then Some Healthz else None)
             else if s = ''metrics'' \<and> rest = [] then (if get then Some MetricsPage else None)
             else if take 3 segments = [''api'', ''v1'', ''records''] then
               (case drop 3 segments of
                  [] \<Rightarrow> if get then Some RecordsList
                        else if meth = ''POST'' then Some RecordsUpsert else None
                | d # others \<Rightarrow>
                    if others = [] \<and> d \<noteq> [] then
                      (if get then Some (RecordGet d) else if delete then Some (RecordDelete d) else None)
                    else if get \<or> delete then Some RecordPathInvalid else None)
             else if take 3 segments = [''api'', ''v1'', ''instances''] then
               (case drop 3 segments of
                  [i, r] \<Rightarrow> if i \<noteq> [] \<and> r = ''records'' \<and> delete then Some (InstanceRecordsDelete i) else None
                | _ \<Rightarrow> None)
             else None)"

text \<open>
  The API server: its token, the metrics page, and the replies that the mux gives itself to
  requests that no pattern matches.
\<close>

record api_server =
  api_addr :: string
  api_socket :: string
  api_token :: string
  api_metrics_page :: response
  api_fallback :: "request \<Rightarrow> response"

definition new_api_server :: "response \<Rightarrow> (request \<Rightarrow> response) \<Rightarrow> string \<Rightarrow> string \<Rightarrow> string \<Rightarrow> api_server" where
  "new_api_server metrics_page fallback addr socket token =
     \<lparr>api_addr = addr, api_socket = socket, api_token = token, api_metrics_page = metrics_page, api_fallback = fallback\<rparr>"

definition api_mux :: "api_server \<Rightarrow> 'm manager \<Rightarrow> request \<Rightarrow> 'm \<Rightarrow> response \<times> 'm" where
  "api_mux api mgr r m =
     (case api_route (req_method r) (req_segments r) of
        None \<Rightarrow> (api_fallback api r, m)
      | Some Healthz \<Rightarrow> (handle_healthz, m)
      | Some MetricsPage \<Rightarrow> (api_metrics_page api, m)
      | Some RecordsList \<Rightarrow> handle_records_list mgr m
      | Some RecordsUpsert \<Rightarrow> handle_records_upsert mgr r m
      | Some (RecordGet d) \<Rightarrow> handle_record_get mgr d m
      | Some (RecordDelete d) \<Rightarrow> handle_record_delete mgr d m
      | Some RecordPathInvalid \<Rightarrow> (handle_record_path_invalid, m)
      | Some (InstanceRecordsDelete i) \<Rightarrow> handle_instance_records_delete mgr i m)"

section \<open>The token\<close>

definition extract_token :: "request \<Rightarrow> string" where
  "extract_token r =
     (let v = trim_space (req_header r ''X-Api-Token'')
      in if v \<noteq> [] then v
         else let auth = trim_space (req_header r ''Authorization'')
           in if auth = [] then []
              else case cut_prefix auth ''Bearer '' of
                     Some after \<Rightarrow> trim_space after
                   | None \<Rightarrow> [])"

definition auth_middleware ::
  "string \<Rightarrow> (request \<Rightarrow> 'm \<Rightarrow> response \<times> 'm) \<Rightarrow> request \<Rightarrow> 'm \<Rightarrow> response \<times> 'm" where
  "auth_middleware token handler =
     (if trim_space token = [] then handler
      else (\<lambda>r m.
        if req_path r = ''/healthz'' then handler r m
        else if CHR '':'' \<notin> set (req_remote_addr r) then handler r m
        else if extract_token r \<noteq> token then (write_error 401 ''unauthorized'', m)
        else handler r m))"

text \<open>The handler of the HTTP server that \<open>New\<close> makes.\<close>

definition serve_http :: "api_server \<Rightarrow> 'm manager \<Rightarrow> request \<Rightarrow> 'm \<Rightarrow> response \<times> 'm" where
  "serve_http api mgr = auth_middleware (api_token api) (api_mux api mgr)"

section \<open>Listening\<close>

text \<open>
  What \<open>ListenAndServe\<close> does to the file system, on its state \<open>'f\<close>: \<open>so_remove\<close> removes a file,
  \<open>so_listen\<close> binds a Unix socket to a path, \<open>so_chmod\<close> gives it the mode 0666.
\<close>

record 'f socket_ops =
  so_remove :: "string \<Rightarrow> 'f \<Rightarrow> (error + unit) \<times> 'f"
  so_listen :: "string \<Rightarrow> 'f \<Rightarrow> (error + unit) \<times> 'f"
  so_chmod :: "string \<Rightarrow> 'f \<Rightarrow> (error + unit) \<times> 'f"

text \<open>
  \<open>ListenAndServe\<close> up to the wait for the first error of a listener: the flags say which
  listeners serve; after an error the one for TCP serves too, if there is an address.
  \<open>ErrExternal\<close> of \<open>''http: Server closed''\<close> is \<open>http.ErrServerClosed\<close>.
\<close>

definition listen_and_serve :: "'f socket_ops \<Rightarrow> api_server \<Rightarrow> 'f \<Rightarrow> (error + bool \<times> bool) \<times> 'f" where
  "listen_and_serve so api f =
     (if trim_space (api_addr api) = [] \<and> trim_space (api_socket api) = []
      then (Inl (ErrExternal ''http: Server closed''), f)
      else let tcp = trim_space (api_addr api) \<noteq> []
        in if trim_space (api_socket api) \<noteq> [] then
             (let f = snd (so_remove so (api_socket api) f)
              in case so_listen so (api_socket api) f of
                   (Inl err, f) \<Rightarrow> (Inl err, f)
                 | (Inr u, f) \<Rightarrow>
                     (case so_chmod so (api_socket api) f of
                        (Inl err, f) \<Rightarrow> (Inl err, f)
                      | (Inr u, f) \<Rightarrow> (Inr (tcp, True), f)))
           else (Inr (tcp, False), f))"

text \<open>
  A socket file that an earlier process left behind is no obstacle: the listeners serve
  whenever the path can be bound once it is removed.
\<close>

lemma listen_and_serve_stale_socket:
  assumes "trim_space (api_socket api) \<noteq> []"
    "is_ok (fst (so_listen so (api_socket api) (snd (so_remove so (api_socket api) f))))"
    "\<And>g. is_ok (fst (so_chmod so (api_socket api) g))"
  shows "fst (listen_and_serve so api f) = Inr (trim_space (api_addr api) \<noteq> [], True)"
proof -
  obtain g where g: "so_listen so (api_socket api) (snd (so_remove so (api_socket api) f)) = (Inr (), g)"
    using assms(2) by (metis is_okE old.unit.exhaust prod.collapse)
  obtain h where "so_chmod so (api_socket api) g = (Inr (), h)"
    using assms(3) [of g] by (metis is_okE old.unit.exhaust prod.collapse)
  with g assms(1) show ?thesis by (simp add: listen_and_serve_def Let_def)
qed

text \<open>Sockets that can always be bound.\<close>

definition free_sockets :: "'f socket_ops" where
  "free_sockets =
     \<lparr>so_remove = (\<lambda>p f. (Inr (), f)), so_listen = (\<lambda>p f. (Inr (), f)), so_chmod = (\<lambda>p f. (Inr (), f))\<rparr>"

section \<open>Lemmas: routes and token\<close>

lemma respond_simps [simp]: "resp_status (respond c b) = c" "resp_body (respond c b) = b"
  "resp_status (write_error c msg) = c"
  by (simp_all add: respond_def write_error_def)

lemma healthz_path: "req_path r = ''/healthz'' \<longleftrightarrow> req_segments r = [''healthz'']"
proof
  assume path: "req_path r = ''/healthz''"
  have slashes: "length (filter (\<lambda>c. c = CHR ''/'') (req_path r)) = 1" by (simp add: path)
  show "req_segments r = [''healthz'']"
  proof (cases "req_segments r")
    case Nil
    with path show ?thesis by (simp add: req_path_def)
  next
    case (Cons a rest)
    with slashes have "rest = []" by (cases rest) (auto simp: req_path_def)
    with Cons path show ?thesis by (simp add: req_path_def)
  qed
qed (simp add: req_path_def)

text \<open>Which methods reach the handlers that change records.\<close>

lemma api_route_method:
  "api_route meth segs = Some RecordsUpsert \<Longrightarrow> meth = ''POST''"
  "api_route meth segs = Some (RecordDelete d) \<Longrightarrow> meth = ''DELETE''"
  "api_route meth segs = Some (InstanceRecordsDelete i) \<Longrightarrow> meth = ''DELETE''"
  by (auto simp: api_route_def Let_def split: list.splits if_splits)

lemma api_route_healthz: "api_route meth [''healthz''] = None \<or> api_route meth [''healthz''] = Some Healthz"
  by (simp add: api_route_def)

lemma extract_token_trimmed: "trim_space (extract_token r) = extract_token r"
  by (simp add: extract_token_def Let_def split: option.splits)

text \<open>What a request must show to reach the handlers that are not public.\<close>

definition admitted :: "api_server \<Rightarrow> request \<Rightarrow> bool" where
  "admitted api r \<longleftrightarrow>
     trim_space (api_token api) = [] \<or> CHR '':'' \<notin> set (req_remote_addr r) \<or> extract_token r = api_token api"

lemma serve_http_admitted: "admitted api r \<Longrightarrow> serve_http api mgr r m = api_mux api mgr r m"
  by (auto simp: serve_http_def auth_middleware_def admitted_def)

lemma serve_http_refused:
  "\<not> admitted api r \<Longrightarrow> req_segments r \<noteq> [''healthz''] \<Longrightarrow>
   serve_http api mgr r m = (write_error 401 ''unauthorized'', m)"
  by (simp add: serve_http_def auth_middleware_def admitted_def healthz_path)

text \<open>The header by which a client shows a token.\<close>

lemma extract_token_bearer:
  assumes "trim_space (req_header r ''X-Api-Token'') = []" "req_header r ''Authorization'' = ''Bearer '' @ tok"
    "trim_space tok = tok" "tok \<noteq> []"
  shows "extract_token r = tok"
proof -
  have "trim_space (''Bearer '' @ tok) = ''Bearer '' @ tok"
    by (rule trim_space_ascii_append) (use assms in \<open>auto simp: graph_char_def\<close>)
  moreover have "cut_prefix (''Bearer '' @ tok) ''Bearer '' = Some tok" by (simp add: cut_prefix_def has_prefix_iff)
  ultimately show ?thesis using assms by (simp add: extract_token_def Let_def)
qed

section \<open>Lemmas: upserts\<close>

text \<open>What an answer 201 tells, for every manager.\<close>

lemma upsert_created:
  assumes h: "handle_records_upsert mgr r m = (resp, m')" "resp_status resp = 201"
  obtains req targets x m1 where "decode_upsert max_body_size (req_body r) = Some req"
    "validate_upsert_request req = Inr ()" "request_targets (rq_port req) (rq_targets req) = Inr targets"
    "mgr_upsert mgr (new_record (rq_instance_id req) (rq_domain req) targets) m = (Inr x, m1)"
    "m' = snd (mgr_get mgr (rq_domain req) m1)"
    "resp_body resp = RecordJSON (case fst (mgr_get mgr (rq_domain req) m1) of Inl e \<Rightarrow> x | Inr y \<Rightarrow> y)"
proof -
  obtain req where req: "decode_upsert max_body_size (req_body r) = Some req"
    using h by (cases "decode_upsert max_body_size (req_body r)") (auto simp: handle_records_upsert_def)
  then have val: "validate_upsert_request req = Inr ()"
    using h by (cases "validate_upsert_request req") (auto simp: handle_records_upsert_def)
  obtain targets where ts: "request_targets (rq_port req) (rq_targets req) = Inr targets"
    using h req val
    by (cases "request_targets (rq_port req) (rq_targets req)") (auto simp: handle_records_upsert_def)
  obtain res m1 where up: "mgr_upsert mgr (new_record (rq_instance_id req) (rq_domain req) targets) m = (res, m1)"
    by fastforce
  obtain x where x: "res = Inr x"
    using h req val ts up by (cases res) (auto simp: handle_records_upsert_def)
  obtain got m2 where get: "mgr_get mgr (rq_domain req) m1 = (got, m2)" by fastforce
  have "m' = m2 \<and> resp_body resp = RecordJSON (case got of Inl e \<Rightarrow> x | Inr y \<Rightarrow> y)"
    using h req val ts up x get by (cases got) (auto simp: handle_records_upsert_def)
  with req val ts up x get that show thesis by simp
qed

section \<open>The contract of the manager\<close>

text \<open>What the handlers may rely on: the manager is a map from domains to instances and targets.\<close>

locale record_manager =
  fixes mgr :: "'m manager"
    and content :: "'m \<Rightarrow> string \<Rightarrow> entry option"
    and invar :: "'m \<Rightarrow> bool"
    and storable :: "addr_port \<Rightarrow> bool"
  assumes list_laws: "\<lbrakk>invar m; mgr_list mgr m = (lres, m')\<rbrakk> \<Longrightarrow> invar m' \<and> content m' = content m \<and>
      (\<forall>rs. lres = Inr rs \<longrightarrow> distinct (map rec_domain rs) \<and> entries_of rs = content m)"
    and get_laws: "\<lbrakk>invar m; mgr_get mgr d m = (gres, m')\<rbrakk> \<Longrightarrow> invar m' \<and> content m' = content m \<and>
      (\<forall>r. gres = Inr r \<longrightarrow> rec_domain r = d \<and> content m d = Some (rec_entry r))"
    and upsert_laws: "\<lbrakk>invar m; mgr_upsert mgr x m = (gres, m')\<rbrakk> \<Longrightarrow> invar m' \<and>
      (\<forall>x'. gres = Inr x' \<and> list_all storable (rec_targets x) \<longrightarrow>
         content m' = (content m)(rec_domain x \<mapsto> rec_entry x) \<and> rec_domain x' = rec_domain x \<and>
         rec_entry x' = rec_entry x)"
    and delete_laws: "\<lbrakk>invar m; mgr_delete mgr d m = (res, m')\<rbrakk> \<Longrightarrow> invar m' \<and>
      (res = Inr () \<longrightarrow> content m d \<noteq> None \<and> content m' = (content m)(d := None))"
    and delete_instance_laws: "\<lbrakk>invar m; mgr_delete_instance mgr i m = (res, m')\<rbrakk> \<Longrightarrow> invar m' \<and>
      (res = Inr () \<longrightarrow>
         content m' = (\<lambda>d. case content m d of None \<Rightarrow> None | Some e \<Rightarrow> if fst e = i then None else Some e))"
begin

text \<open>The answers of the handlers that mean success, and what they did.\<close>

lemma list_200:
  assumes "invar m" "handle_records_list mgr m = (resp, m')" "resp_status resp = 200"
  shows "\<exists>rs. resp_body resp = ListJSON rs \<and> distinct (map rec_domain rs) \<and> entries_of rs = content m"
  using assms(2,3) list_laws [OF assms(1)]
  by (cases "mgr_list mgr m"; cases "fst (mgr_list mgr m)") (auto simp: handle_records_list_def)

lemma get_200:
  assumes "invar m" "handle_record_get mgr seg m = (resp, m')" "resp_status resp = 200"
  shows "\<exists>x. resp_body resp = RecordJSON x \<and> rec_domain x = trim_space seg \<and>
    content m (trim_space seg) = Some (rec_entry x)"
  using assms(2,3) get_laws [OF assms(1)]
  by (cases "mgr_get mgr (trim_space seg) m"; cases "fst (mgr_get mgr (trim_space seg) m)")
     (auto simp: handle_record_get_def Let_def split: if_splits)

lemma delete_204:
  assumes "invar m" "handle_record_delete mgr seg m = (resp, m')" "resp_status resp = 204"
  shows "content m (trim_space seg) \<noteq> None \<and> content m' = (content m)(trim_space seg := None)"
  using assms(2,3) delete_laws [OF assms(1)]
  by (cases "mgr_delete mgr (trim_space seg) m"; cases "fst (mgr_delete mgr (trim_space seg) m)")
     (auto simp: handle_record_delete_def Let_def split: if_splits)

lemma delete_instance_204:
  assumes "invar m" "handle_instance_records_delete mgr seg m = (resp, m')" "resp_status resp = 204"
  shows "\<exists>i. parse_int64 (trim_space seg) = Some i \<and> 0 \<le> sint i \<and>
    content m' = (\<lambda>d. case content m d of None \<Rightarrow> None | Some e \<Rightarrow> if fst e = i then None else Some e)"
proof (cases "parse_int64 (trim_space seg)")
  case None
  with assms(2,3) show ?thesis by (auto simp: handle_instance_records_delete_def)
next
  case (Some i)
  then show ?thesis
    using assms(2,3) delete_instance_laws [OF assms(1), of i]
    by (cases "mgr_delete_instance mgr i m"; cases "fst (mgr_delete_instance mgr i m)")
       (auto simp: handle_instance_records_delete_def split: if_splits)
qed

lemma upsert_201:
  assumes inv: "invar m" and h: "handle_records_upsert mgr r m = (resp, m')" "resp_status resp = 201"
  obtains req targets where "decode_upsert max_body_size (req_body r) = Some req" "validate_upsert_request req = Inr ()"
    "request_targets (rq_port req) (rq_targets req) = Inr targets"
    "list_all storable targets \<Longrightarrow>
       content m' = (content m)(rq_domain req \<mapsto> (rq_instance_id req, targets)) \<and>
       (\<exists>x. resp_body resp = RecordJSON x \<and> rec_domain x = rq_domain req \<and>
            rec_entry x = (rq_instance_id req, targets))"
proof -
  obtain req targets x m1 where u: "decode_upsert max_body_size (req_body r) = Some req"
    "validate_upsert_request req = Inr ()" "request_targets (rq_port req) (rq_targets req) = Inr targets"
    "mgr_upsert mgr (new_record (rq_instance_id req) (rq_domain req) targets) m = (Inr x, m1)"
    "m' = snd (mgr_get mgr (rq_domain req) m1)"
    "resp_body resp = RecordJSON (case fst (mgr_get mgr (rq_domain req) m1) of Inl e \<Rightarrow> x | Inr y \<Rightarrow> y)"
    using h by (rule upsert_created)
  note laws = upsert_laws [OF inv u(4)] get_laws [OF _ prod.collapse [symmetric], of m1 "rq_domain req"]
  have "content m' = (content m)(rq_domain req \<mapsto> (rq_instance_id req, targets)) \<and>
      (\<exists>x. resp_body resp = RecordJSON x \<and> rec_domain x = rq_domain req \<and>
           rec_entry x = (rq_instance_id req, targets))" if "list_all storable targets"
    using that laws u(5,6) by (cases "fst (mgr_get mgr (rq_domain req) m1)") auto
  with u(1-3) that show thesis by blast
qed

text \<open>Every answer keeps the invariant.\<close>

lemma op_invar:
  assumes "invar m"
  shows "invar (snd (mgr_list mgr m))" "invar (snd (mgr_get mgr d m))" "invar (snd (mgr_upsert mgr x m))"
    "invar (snd (mgr_delete mgr d m))" "invar (snd (mgr_delete_instance mgr i m))"
  using list_laws [OF assms prod.collapse [symmetric]] get_laws [OF assms prod.collapse [symmetric]]
    upsert_laws [OF assms prod.collapse [symmetric]] delete_laws [OF assms prod.collapse [symmetric]]
    delete_instance_laws [OF assms prod.collapse [symmetric]] by simp_all

lemma handler_invar:
  assumes "invar m"
  shows "invar (snd (handle_records_list mgr m))" "invar (snd (handle_record_get mgr seg m))"
    "invar (snd (handle_record_delete mgr seg m))" "invar (snd (handle_instance_records_delete mgr seg m))"
proof -
  note ops = op_invar [OF assms]
  show "invar (snd (handle_records_list mgr m))"
    using ops(1) by (cases "mgr_list mgr m"; cases "fst (mgr_list mgr m)") (simp_all add: handle_records_list_def)
  show "invar (snd (handle_record_get mgr seg m))"
    using assms ops(2) [of "trim_space seg"]
    by (cases "mgr_get mgr (trim_space seg) m"; cases "fst (mgr_get mgr (trim_space seg) m)")
       (simp_all add: handle_record_get_def Let_def)
  show "invar (snd (handle_record_delete mgr seg m))"
    using assms ops(4) [of "trim_space seg"]
    by (cases "mgr_delete mgr (trim_space seg) m"; cases "fst (mgr_delete mgr (trim_space seg) m)")
       (simp_all add: handle_record_delete_def Let_def)
  show "invar (snd (handle_instance_records_delete mgr seg m))"
  proof (cases "parse_int64 (trim_space seg)")
    case (Some i)
    then show ?thesis
      using assms ops(5) [of i]
      by (cases "mgr_delete_instance mgr i m"; cases "fst (mgr_delete_instance mgr i m)")
         (simp_all add: handle_instance_records_delete_def)
  qed (simp add: handle_instance_records_delete_def assms)
qed

lemma upsert_invar:
  assumes "invar m"
  shows "invar (snd (handle_records_upsert mgr r m))"
proof (cases "decode_upsert max_body_size (req_body r)")
  case (Some req)
  show ?thesis
  proof (cases "validate_upsert_request req")
    case (Inr u)
    show ?thesis
    proof (cases "request_targets (rq_port req) (rq_targets req)")
      case ts: (Inr targets)
      obtain res m1 where up: "mgr_upsert mgr (new_record (rq_instance_id req) (rq_domain req) targets) m = (res, m1)"
        by fastforce
      then have "invar m1" using op_invar(3) [OF assms] by (metis snd_conv)
      then have "invar (snd (mgr_get mgr (rq_domain req) m1))" by (rule op_invar(2))
      with \<open>invar m1\<close> Some Inr ts up show ?thesis
        by (cases res; cases "mgr_get mgr (rq_domain req) m1"; cases "fst (mgr_get mgr (rq_domain req) m1)")
           (simp_all add: handle_records_upsert_def)
    qed (simp add: handle_records_upsert_def Some Inr assms)
  qed (simp add: handle_records_upsert_def Some assms)
qed (simp add: handle_records_upsert_def assms)

lemma serve_invar:
  assumes "invar m"
  shows "invar (snd (serve_http api mgr r m))"
proof -
  have "invar (snd (api_mux api mgr r m))"
    using assms handler_invar [OF assms] upsert_invar [OF assms]
    by (simp add: api_mux_def split: option.splits route.splits)
  then show ?thesis
    using assms by (simp add: serve_http_def auth_middleware_def)
qed

end

section \<open>The TSDNS server as the manager\<close>

lemma core_manager_ops:
  "mgr_list (core_manager ops eng now) = list_records ops"
  "mgr_get (core_manager ops eng now) = get_record ops"
  "mgr_upsert (core_manager ops eng now) x = upsert_record ops eng now (Some x)"
  "mgr_delete (core_manager ops eng now) = delete_record ops eng"
  "mgr_delete_instance (core_manager ops eng now) = delete_instance_records ops eng"
  by (simp_all add: core_manager_def)

lemma list_records_state:
  "srv_repository (snd (list_records ops s)) = srv_repository s \<and> same_tables (snd (list_records ops s)) s"
  by (simp add: list_records_def same_tables_def split: sum.splits)

lemma get_record_state:
  "srv_repository (snd (get_record ops d s)) = srv_repository s \<and> same_tables (snd (get_record ops d s)) s"
  by (simp add: get_record_def same_tables_def split: sum.splits)

text \<open>Whatever the reload does, the repository is as the operation left it.\<close>

lemma operation_repository:
  "srv_repository (snd (upsert_record ops eng now (Some x) s)) = snd (repo_create ops now (Some x) (srv_repository s))"
  "srv_repository (snd (delete_record ops eng d s)) = snd (repo_delete ops d (srv_repository s))"
  "srv_repository (snd (delete_instance_records ops eng i s)) =
     snd (repo_delete_by_instance_id ops i (srv_repository s))"
proof -
  have load: "srv_repository (snd (load_cache ops eng (log_metric mt (s\<lparr>srv_repository := r\<rparr>)))) = r" for mt r
    by (simp add: load_cache_repository)
  show "srv_repository (snd (upsert_record ops eng now (Some x) s)) =
      snd (repo_create ops now (Some x) (srv_repository s))"
  proof (cases "repo_create ops now (Some x) (srv_repository s)")
    case (Pair res repo)
    show ?thesis
    proof (cases res)
      case (Inr x')
      have "snd (case l of (Inl err, s) \<Rightarrow> (Inl err, s) | (Inr u, s) \<Rightarrow> (Inr x', s)) = snd l"
        for l :: "(error + unit) \<times> ('a, 'b) server"
        by (cases l; cases "fst l") simp_all
      with Pair Inr load show ?thesis by (simp add: upsert_record_def Let_def)
    qed (simp add: upsert_record_def Pair)
  qed
  show "srv_repository (snd (delete_record ops eng d s)) = snd (repo_delete ops d (srv_repository s))"
    using load by (cases "repo_delete ops d (srv_repository s)"; cases "fst (repo_delete ops d (srv_repository s))")
      (simp_all add: delete_record_def)
  show "srv_repository (snd (delete_instance_records ops eng i s)) =
      snd (repo_delete_by_instance_id ops i (srv_repository s))"
    using load by (cases "repo_delete_by_instance_id ops i (srv_repository s)";
        cases "fst (repo_delete_by_instance_id ops i (srv_repository s))") (simp_all add: delete_instance_records_def)
qed

text \<open>A repository that keeps its contract makes the server a manager that keeps its own.\<close>

sublocale record_repository \<subseteq> manager: record_manager "core_manager ops eng now"
    "\<lambda>s. content (srv_repository s)" "\<lambda>s. invar (srv_repository s)" storable for eng now
proof (unfold_locales, goal_cases)
  case (1 s lres s')
  then show ?case
    using list_records_state [of ops s] find_content [OF 1(1)]
    by (auto simp: core_manager_ops list_records_def split: sum.splits)
next
  case (2 s d gres s')
  then show ?case
    using get_record_state [of ops d s] find_by_domain_content [OF 2(1)]
    by (auto simp: core_manager_ops get_record_def split: sum.splits)
next
  case (3 s x gres s')
  have "invar (srv_repository s')"
    using 3 create_invar [OF 3(1), of now "Some x"] operation_repository(1) [of ops eng now x s]
    by (simp add: core_manager_ops)
  moreover have "content (srv_repository s') = (content (srv_repository s))(rec_domain x \<mapsto> rec_entry x) \<and>
      rec_domain x' = rec_domain x \<and> rec_entry x' = rec_entry x"
    if "gres = Inr x'" "list_all storable (rec_targets x)" for x'
    using upsert_effect(1,4) [OF 3(1) that(2), of eng now x' s'] 3(2) that(1) by (simp add: core_manager_ops)
  ultimately show ?case by blast
next
  case (4 s d res s')
  have "invar (srv_repository s')"
    using 4 delete_invar [OF 4(1), of d] operation_repository(2) [of ops eng d s] by (simp add: core_manager_ops)
  with delete_effect(1,2) [OF 4(1), of eng d] 4(2) show ?case by (auto simp: core_manager_ops)
next
  case (5 s i res s')
  have "invar (srv_repository s')"
    using 5 delete_by_instance_invar [OF 5(1), of i] operation_repository(3) [of ops eng i s]
    by (simp add: core_manager_ops)
  with delete_instance_effect(1) [OF 5(1), of eng i] 5(2) show ?case by (auto simp: core_manager_ops)
qed

context record_repository
begin

lemma core_record_manager:
  "record_manager (core_manager ops eng now) (\<lambda>s. content (srv_repository s)) (\<lambda>s. invar (srv_repository s)) storable"
  by unfold_locales

text \<open>A deletion over the API that is answered 204 is in the repository and in the tables.\<close>

lemma serve_delete:
  assumes inv: "invar (srv_repository s)"
    and h: "handle_record_delete (core_manager ops eng now) seg s = (resp, s')" "resp_status resp = 204"
  shows "content (srv_repository s) (trim_space seg) \<noteq> None"
    and "content (srv_repository s') = (content (srv_repository s))(trim_space seg := None)"
    and "current content eng s'" and "invar (srv_repository s')"
proof -
  have "delete_record ops eng (trim_space seg) s = (Inr (), s')"
    using h by (cases "delete_record ops eng (trim_space seg) s"; cases "fst (delete_record ops eng (trim_space seg) s)")
      (auto simp: handle_record_delete_def core_manager_ops Let_def split: if_splits)
  from delete_effect [OF inv this] show
    "content (srv_repository s) (trim_space seg) \<noteq> None"
    "content (srv_repository s') = (content (srv_repository s))(trim_space seg := None)"
    "current content eng s'" "invar (srv_repository s')" by simp_all
qed

lemma serve_delete_instance:
  assumes inv: "invar (srv_repository s)"
    and h: "handle_instance_records_delete (core_manager ops eng now) seg s = (resp, s')" "resp_status resp = 204"
  shows "current content eng s'"
proof -
  obtain i where "delete_instance_records ops eng i s = (Inr (), s')"
    using h by (auto simp: handle_instance_records_delete_def core_manager_ops
      split: option.splits if_splits prod.splits sum.splits)
  from delete_instance_effect(2) [OF inv this] show ?thesis .
qed

text \<open>An upsert over the API that is answered 201 is in the repository and in the tables.\<close>

lemma serve_upsert:
  assumes inv: "invar (srv_repository s)"
    and h: "handle_records_upsert (core_manager ops eng now) r s = (resp, s')" "resp_status resp = 201"
    and st: "\<And>req targets. \<lbrakk>decode_upsert max_body_size (req_body r) = Some req;
       request_targets (rq_port req) (rq_targets req) = Inr targets\<rbrakk> \<Longrightarrow> list_all storable targets"
  obtains req targets where "decode_upsert max_body_size (req_body r) = Some req"
    "request_targets (rq_port req) (rq_targets req) = Inr targets"
    "content (srv_repository s') = (content (srv_repository s))(rq_domain req \<mapsto> (rq_instance_id req, targets))"
    "current content eng s'" "invar (srv_repository s')"
proof -
  obtain req targets x s1 where u: "decode_upsert max_body_size (req_body r) = Some req"
    "request_targets (rq_port req) (rq_targets req) = Inr targets"
    "upsert_record ops eng now (Some (new_record (rq_instance_id req) (rq_domain req) targets)) s = (Inr x, s1)"
    "s' = snd (get_record ops (rq_domain req) s1)"
    using upsert_created [OF h] unfolding core_manager_ops by metis
  have storable: "list_all storable (rec_targets (new_record (rq_instance_id req) (rq_domain req) targets))"
    using st [OF u(1,2)] by simp
  have "srv_repository s' = srv_repository s1" "same_tables s' s1"
    using get_record_state [of ops "rq_domain req" s1] u(4) by simp_all
  with upsert_effect(1-3) [OF inv storable u(3)] u(1,2) that current_same show thesis by fastforce
qed

end

section \<open>What a request can change\<close>

text \<open>The handlers that may change records do so only with these answers.\<close>

lemma upsert_answers:
  "handle_records_upsert mgr r m = (resp, m') \<Longrightarrow> m' = m \<or> resp_status resp \<in> {201, 500}"
  by (auto simp: handle_records_upsert_def split: option.splits sum.splits prod.splits)

lemma upsert_statuses: "resp_status (fst (handle_records_upsert mgr r m)) \<in> {201, 400, 500}"
  by (simp add: handle_records_upsert_def split: option.splits sum.splits prod.splits)

lemma delete_statuses: "resp_status (fst (handle_record_delete mgr seg m)) \<in> {204, 400, 500}"
  by (simp add: handle_record_delete_def Let_def split: sum.splits prod.splits)

lemma get_statuses:
  "handle_record_get mgr seg m = (resp, m') \<Longrightarrow>
   resp_status resp = 200 \<or>
   resp_status resp = (if trim_space seg = [] \<or> CHR ''/'' \<in> set (trim_space seg) then 400 else 404)"
  by (auto simp: handle_record_get_def Let_def split: sum.splits prod.splits if_splits)

lemma delete_answers:
  "handle_record_delete mgr seg m = (resp, m') \<Longrightarrow> m' = m \<or> resp_status resp \<in> {204, 500}"
  by (auto simp: handle_record_delete_def Let_def split: sum.splits prod.splits if_splits)

lemma delete_instance_answers:
  "handle_instance_records_delete mgr seg m = (resp, m') \<Longrightarrow> m' = m \<or> resp_status resp \<in> {204, 500}"
  by (auto simp: handle_instance_records_delete_def split: option.splits sum.splits prod.splits if_splits)

definition same_view :: "('r, 'x) server \<Rightarrow> ('r, 'x) server \<Rightarrow> bool" where
  "same_view s' s \<longleftrightarrow> srv_repository s' = srv_repository s \<and> same_tables s' s"

lemma same_view_refl [simp]: "same_view s s"
  by (simp add: same_view_def same_tables_def)

lemma reading_handlers:
  "same_view (snd (handle_records_list (core_manager ops eng now) s)) s"
  "same_view (snd (handle_record_get (core_manager ops eng now) seg s)) s"
proof -
  have "snd (handle_records_list (core_manager ops eng now) s) = snd (list_records ops s)"
    by (simp add: handle_records_list_def core_manager_ops split: prod.splits sum.splits)
  then show "same_view (snd (handle_records_list (core_manager ops eng now) s)) s"
    using list_records_state [of ops s] by (simp add: same_view_def)
  have "snd (handle_record_get (core_manager ops eng now) seg s) \<in> {s, snd (get_record ops (trim_space seg) s)}"
    by (simp add: handle_record_get_def core_manager_ops Let_def split: prod.splits sum.splits)
  then show "same_view (snd (handle_record_get (core_manager ops eng now) seg s)) s"
    using get_record_state [of ops "trim_space seg" s] by (auto simp: same_view_def)
qed

lemma mux_changes:
  assumes "api_mux api (core_manager ops eng now) r s = (resp, s')" "\<not> same_view s' s"
  shows "req_method r \<in> {''POST'', ''DELETE''} \<and> resp_status resp \<in> {201, 204, 500}"
proof (cases "api_route (req_method r) (req_segments r)")
  case None
  with assms show ?thesis by (auto simp: api_mux_def)
next
  case (Some route)
  show ?thesis
  proof (cases route)
    case RecordsList
    with Some assms reading_handlers(1) [of ops eng now s] show ?thesis by (simp add: api_mux_def)
  next
    case RecordsUpsert
    with Some assms upsert_answers api_route_method(1) show ?thesis by (fastforce simp: api_mux_def)
  next
    case (RecordGet d)
    with Some assms reading_handlers(2) [of ops eng now d s] show ?thesis by (simp add: api_mux_def)
  next
    case (RecordDelete d)
    with Some assms delete_answers api_route_method(2) show ?thesis by (fastforce simp: api_mux_def)
  next
    case (InstanceRecordsDelete i)
    with Some assms delete_instance_answers api_route_method(3) show ?thesis by (fastforce simp: api_mux_def)
  qed (use Some assms in \<open>auto simp: api_mux_def\<close>)
qed

lemma serve_changes:
  assumes "serve_http api (core_manager ops eng now) r s = (resp, s')" "\<not> same_view s' s"
  shows "admitted api r \<and> req_method r \<in> {''POST'', ''DELETE''} \<and> resp_status resp \<in> {201, 204, 500}"
proof (cases "admitted api r")
  case True
  with assms mux_changes show ?thesis by (fastforce simp: serve_http_admitted)
next
  case refused: False
  show ?thesis
  proof (cases "req_segments r = [''healthz'']")
    case True
    then have "serve_http api (core_manager ops eng now) r s = api_mux api (core_manager ops eng now) r s"
      by (simp add: serve_http_def auth_middleware_def healthz_path)
    also have "snd \<dots> = s" using api_route_healthz [of "req_method r"] True by (auto simp: api_mux_def)
    finally show ?thesis using assms by simp
  next
    case other: False
    then have "serve_http api (core_manager ops eng now) r s = (write_error 401 ''unauthorized'', s)"
      by (rule serve_http_refused [OF refused])
    with assms show ?thesis by simp
  qed
qed

section \<open>Targets of a request\<close>

lemma request_targets_text:
  "list_all (\<lambda>tp. is_valid (fst tp) \<and> zoneless (fst tp)) tps \<Longrightarrow>
   request_targets port (map addr_port_string tps) = Inr tps"
proof (induction tps)
  case (Cons tp tps)
  then show ?case using addr_text_no_response [of "fst tp" "snd tp"] by (cases tp) (simp add: roundtrip)
qed simp

lemma request_targets_valid: "request_targets port ts = Inr tps \<Longrightarrow> list_all (\<lambda>tp. is_valid (fst tp)) tps"
  by (induction ts arbitrary: tps)
     (auto dest: parse_addr_port_valid parse_addr_valid split: if_splits option.splits sum.splits)

end
