(* ===== verification/Go_Duration.thy ===== *)
theory Go_Duration
  imports Go_Strconv
begin

text \<open>
  \<open>time.ParseDuration\<close>, with the arithmetic of the library: 64-bit integers, whose sum can wrap
  around, and fractions of a unit in double precision.
\<close>

section \<open>Double precision\<close>

text \<open>
  A double is the quotient of two integers. \<open>round_quotient\<close> is the double nearest to
  a quotient, with 53 bits and ties to even.
\<close>

function bit_count :: "int \<Rightarrow> nat" where
  "bit_count n = (if n \<le> 0 then 0 else Suc (bit_count (n div 2)))"
  by pat_completeness auto
termination by (relation "measure nat") auto

declare bit_count.simps [simp del]

definition half_even :: "int \<Rightarrow> int \<Rightarrow> int" where
  "half_even a b =
     (let q = a div b; r = a mod b
      in if b < 2 * r \<or> (2 * r = b \<and> odd q) then q + 1 else q)"

definition round_quotient :: "int \<Rightarrow> int \<Rightarrow> int \<times> int" where
  "round_quotient a b =
     (if a = 0 then (0, 1)
      else let up = 54 + bit_count b - bit_count a; down = bit_count a - (54 + bit_count b);
               num = a * 2 ^ up; den = b * 2 ^ down;
               n = (if num < den * 2 ^ 54 then 1 else 2 :: nat)
           in (half_even num (den * 2 ^ n) * 2 ^ (n + down), 2 ^ up))"

section \<open>Reading a duration\<close>

text \<open>The digits at the front as a number up to \<open>2 ^ 63\<close>, and the text after them.\<close>

fun leading_int :: "int \<Rightarrow> string \<Rightarrow> (int \<times> string) option" where
  "leading_int x [] = Some (x, [])"
| "leading_int x (c # s) =
     (if \<not> is_digit c then Some (x, c # s)
      else if x > 2 ^ 63 div 10 then None
      else if x * 10 + int (digit_val c) > 2 ^ 63 then None
      else leading_int (x * 10 + int (digit_val c)) s)"

text \<open>The digits of a fraction and the power of ten under them; digits that overflow are skipped.\<close>

fun leading_fraction :: "bool \<Rightarrow> int \<Rightarrow> int \<Rightarrow> string \<Rightarrow> int \<times> int \<times> string" where
  "leading_fraction overflow x scale [] = (x, scale, [])"
| "leading_fraction overflow x scale (c # s) =
     (if \<not> is_digit c then (x, scale, c # s)
      else if overflow then leading_fraction True x scale s
      else if x > (2 ^ 63 - 1) div 10 then leading_fraction True x scale s
      else if x * 10 + int (digit_val c) > 2 ^ 63 then leading_fraction True x scale s
      else leading_fraction False (x * 10 + int (digit_val c)) (scale * 10) s)"

definition duration_unit :: "string \<Rightarrow> int option" where
  "duration_unit u =
     (if u = ''ns'' then Some 1
      else if u = ''us'' \<or> u = [CHR 0xC2, CHR 0xB5, CHR ''s''] \<or> u = [CHR 0xCE, CHR 0xBC, CHR ''s''] then Some (10 ^ 3)
      else if u = ''ms'' then Some (10 ^ 6)
      else if u = ''s'' then Some (10 ^ 9)
      else if u = ''m'' then Some (60 * 10 ^ 9)
      else if u = ''h'' then Some (3600 * 10 ^ 9)
      else None)"

text \<open>\<open>uint64(float64(f) * (float64(unit) / scale))\<close>; the double of the unit is exact.\<close>

definition fraction_value :: "int \<Rightarrow> int \<Rightarrow> int \<Rightarrow> int" where
  "fraction_value f unit scale =
     (let (a, b) = round_quotient f 1; (c, d) = round_quotient unit scale;
          (p, q) = round_quotient (a * c) (b * d)
      in p div q)"

definition unit_text :: "string \<Rightarrow> string" where
  "unit_text s = takeWhile (\<lambda>c. c \<noteq> CHR ''.'' \<and> \<not> is_digit c) s"

text \<open>One number with its unit, in nanoseconds.\<close>

definition duration_term :: "string \<Rightarrow> (int \<times> string) option" where
  "duration_term s =
     (case leading_int 0 s of
        None \<Rightarrow> None
      | Some (v, t) \<Rightarrow>
          (let pre = length t \<noteq> length s;
               dot = t \<noteq> [] \<and> hd t = CHR ''.'';
               (f, scale, r) = (if dot then leading_fraction False 0 1 (tl t) else (0, 1, t));
               post = dot \<and> length r \<noteq> length (tl t);
               u = unit_text r
           in if \<not> pre \<and> \<not> post then None
              else if u = [] then None
              else (case duration_unit u of
                      None \<Rightarrow> None
                    | Some unit \<Rightarrow>
                        if v > 2 ^ 63 div unit then None
                        else let n = v * unit + (if f > 0 then fraction_value f unit scale else 0)
                          in if f > 0 \<and> n > 2 ^ 63 then None else Some (n, drop (length u) r))))"

lemma leading_int_shorter: "leading_int x s = Some (v, t) \<Longrightarrow> length t \<le> length s"
  by (induction x s rule: leading_int.induct) (auto split: if_splits)

lemma leading_fraction_shorter: "leading_fraction ov x scale s = (f, sc, t) \<Longrightarrow> length t \<le> length s"
  by (induction ov x scale s rule: leading_fraction.induct) (auto split: if_splits)

lemma duration_term_shorter:
  assumes "duration_term s = Some (n, t)"
  shows "length t < length s"
proof -
  obtain v t1 where t1: "leading_int 0 s = Some (v, t1)"
    using assms by (auto simp: duration_term_def split: option.splits)
  obtain f scale r where r: "(if t1 \<noteq> [] \<and> hd t1 = CHR ''.'' then leading_fraction False 0 1 (tl t1) else (0, 1, t1)) = (f, scale, r)"
    by (metis prod_cases3)
  have "length r \<le> length t1"
    using r leading_fraction_shorter [of False 0 1 "tl t1" f scale r] by (cases t1) (auto split: if_splits)
  moreover have "unit_text r \<noteq> []" "t = drop (length (unit_text r)) r"
    using assms t1 r by (auto simp: duration_term_def Let_def split: if_splits option.splits)
  moreover have "length (unit_text r) \<le> length r" by (simp add: unit_text_def length_takeWhile_le)
  ultimately show ?thesis using leading_int_shorter [OF t1] by (cases "unit_text r") auto
qed

text \<open>The sum of the terms; two terms of \<open>2 ^ 63\<close> wrap around to 0 before the check.\<close>

function duration_terms :: "int \<Rightarrow> string \<Rightarrow> int option" where
  "duration_terms d s =
     (if s = [] then Some d
      else if \<not> (hd s = CHR ''.'' \<or> is_digit (hd s)) then None
      else (case duration_term s of
              None \<Rightarrow> None
            | Some (v, t) \<Rightarrow>
                (let d = (d + v) mod 2 ^ 64 in if d > 2 ^ 63 then None else duration_terms d t)))"
  by pat_completeness auto
termination by (relation "measure (\<lambda>(d, s). length s)") (auto dest: duration_term_shorter)

declare duration_terms.simps [simp del]

definition parse_duration :: "string \<Rightarrow> int option" where
  "parse_duration s =
     (let signed = s \<noteq> [] \<and> (hd s = CHR ''-'' \<or> hd s = CHR ''+'');
          neg = signed \<and> hd s = CHR ''-'';
          s = (if signed then tl s else s)
      in if s = ''0'' then Some 0
         else if s = [] then None
         else (case duration_terms 0 s of
                 None \<Rightarrow> None
               | Some d \<Rightarrow>
                   if neg then Some (- d)
                   else if d > 2 ^ 63 - 1 then None
                   else Some d))"

section \<open>Lemmas\<close>

lemma duration_terms_bound: "\<lbrakk>duration_terms d s = Some n; 0 \<le> d; d \<le> 2 ^ 63\<rbrakk> \<Longrightarrow> 0 \<le> n \<and> n \<le> 2 ^ 63"
proof (induction d s rule: duration_terms.induct)
  case (1 d s)
  show ?case
  proof (cases "s = []")
    case False
    with 1(2) obtain v t where step: "hd s = CHR ''.'' \<or> is_digit (hd s)" "duration_term s = Some (v, t)"
      "(d + v) mod 2 ^ 64 \<le> 2 ^ 63" "duration_terms ((d + v) mod 2 ^ 64) t = Some n"
      by (auto simp: duration_terms.simps [of d s] Let_def not_less split: if_splits option.splits)
    then show ?thesis using 1(1) [OF False _ step(2) refl refl] by simp
  qed (use 1 in \<open>simp add: duration_terms.simps\<close>)
qed

text \<open>The result is a duration of 64 bits.\<close>

lemma parse_duration_range: "parse_duration s = Some d \<Longrightarrow> - (2 ^ 63) \<le> d \<and> d < 2 ^ 63"
  using duration_terms_bound [of 0]
  by (fastforce simp: parse_duration_def Let_def split: if_splits option.splits)

lemma dec_value_mono: "dec_value x s = Some n \<Longrightarrow> x \<le> n"
  by (induction x s rule: dec_value.induct) (auto split: if_splits)

lemma leading_int_dec_value:
  "\<lbrakk>dec_value x s = Some n; int n \<le> 2 ^ 63; t = [] \<or> \<not> is_digit (hd t)\<rbrakk> \<Longrightarrow>
   leading_int (int x) (s @ t) = Some (int n, t)"
proof (induction s arbitrary: x)
  case Nil
  then show ?case by (cases t) auto
next
  case (Cons c s)
  from Cons.prems(1) have step: "is_digit c" "dec_value (x * 10 + digit_val c) s = Some n"
    by (auto simp: mult.commute split: if_splits)
  with dec_value_mono Cons.prems(2) have "int (x * 10 + digit_val c) \<le> 2 ^ 63"
    by (metis of_nat_mono order_trans)
  then have "int x * 10 + int (digit_val c) \<le> 2 ^ 63" by simp
  with step(1) Cons.IH [OF step(2) Cons.prems(2,3)] show ?case by simp
qed

text \<open>A whole number of a unit is read as it is written.\<close>

lemma parse_duration_unit:
  assumes unit: "duration_unit u = Some k" and n: "int n * k < 2 ^ 63"
  shows "parse_duration (dec n @ u) = Some (int n * k)"
proof -
  have u: "u \<noteq> []" "unit_text u = u" "\<not> is_digit (hd u)" "hd u \<noteq> CHR ''.''" "0 < k"
    using unit by (auto simp: duration_unit_def unit_text_def is_digit_def split: if_splits)
  have "int n * 1 \<le> int n * k" using u(5) by (intro mult_left_mono) auto
  then have "int n \<le> int n * k" by simp
  then have lim: "int n \<le> 2 ^ 63" using n by (rule less_imp_le [OF le_less_trans])
  have "leading_int (int 0) (dec n @ u) = Some (int n, u)"
    by (rule leading_int_dec_value [OF dec_value_dec lim]) (use u in simp)
  moreover have "int n \<le> 2 ^ 63 div k"
    using zdiv_mono1 [of "int n * k" "2 ^ 63" k] n u(5) by simp
  ultimately have front: "duration_term (dec n @ u) = Some (int n * k, [])"
    using u unit by (simp add: duration_term_def)
  have "is_digit (hd (dec n))" using dec_set [OF hd_in_set [OF dec_nonempty]] by blast
  then have hd: "is_digit (hd (dec n @ u))" by simp
  then have sign: "hd (dec n @ u) \<noteq> CHR ''-''" "hd (dec n @ u) \<noteq> CHR ''+''" using is_digit_neq by blast+
  have zero: "dec n @ u \<noteq> ''0''"
  proof
    assume "dec n @ u = ''0''"
    with u(1) have "dec n = []" by (cases "dec n") auto
    then show False by simp
  qed
  have "0 \<le> int n * k" using u(5) by simp
  then have "duration_terms 0 (dec n @ u) = Some (int n * k)"
    using hd front n by (subst duration_terms.simps) (simp add: duration_terms.simps [of _ "[]"])
  with sign zero n show ?thesis by (simp add: parse_duration_def)
qed

end
