(* ===== verification/Serve.thy ===== *)
theory Serve
  imports Cli Api Go_Duration
begin

text \<open>
  The \<open>serve\<close> command: the wiring of the configuration, the storage, the TSDNS server and
  the admin API, the end of the process, and the choice of the log handler.
\<close>

section \<open>The logger\<close>

definition log_level_of :: "string \<Rightarrow> log_level" where
  "log_level_of level =
     (let l = to_lower level
      in if l = ''debug'' then LevelDebug
         else if l = ''info'' then LevelInfo
         else if l = ''warn'' then LevelWarn
         else if l = ''error'' then LevelError
         else LevelInfo)"

text \<open>The level and whether the handler writes JSON.\<close>

definition setup_logger :: "log_config \<Rightarrow> logger" where
  "setup_logger cfg = (log_level_of (cfg_level cfg), equal_fold (cfg_format cfg) ''json'')"

section \<open>Starting\<close>

text \<open>\<open>MustBuild\<close>: \<open>Inl\<close> is the error it panics with; \<open>build\<close> itself gives \<open>None\<close> for a nil dereference.\<close>

definition must_build :: "('r, 'x) builder \<Rightarrow> (error + ('r, 'x) server) option" where
  "must_build b =
     (case build b of
        None \<Rightarrow> None
      | Some (Inl err) \<Rightarrow> Some (Inl err)
      | Some (Inr s) \<Rightarrow> Some (Inr s))"

text \<open>How a command ends or goes on: with an error, with a panic, or serving.\<close>

datatype ('r, 'x) outcome =
    Failed error
  | Panicked error
  | Serving "('r, 'x) server" api_server

text \<open>
  What the process is given beside the environment of the commands: \<open>srv_resolve\<close> is
  \<open>net.ResolveTCPAddr\<close>, the rest belongs to the API server.
\<close>

record 'a serve_env =
  srv_resolve :: "string \<Rightarrow> error + 'a"
  srv_metrics_page :: response
  srv_fallback :: "request \<Rightarrow> response"

definition start_admin_api :: "'a serve_env \<Rightarrow> config \<Rightarrow> api_server" where
  "start_admin_api senv cfg =
     new_api_server (srv_metrics_page senv) (srv_fallback senv)
       (cfg_api_listen (cfg_api cfg)) (cfg_api_socket (cfg_api cfg)) (cfg_api_token (cfg_api cfg))"

definition run_serve ::
  "('d, 'e, 'h) cli_env \<Rightarrow> 'a serve_env \<Rightarrow> string \<Rightarrow> (('d, 'e) store, 'x) outcome" where
  "run_serve env senv config_path =
     (case load_config (env_os env) (env_yaml env) config_path of
        Inl err \<Rightarrow> Failed err
      | Inr cfg \<Rightarrow>
          let logger = setup_logger (cfg_log cfg)
          in case open_storage (env_backends env) (cfg_dsn (cfg_storage cfg)) of
               Inl err \<Rightarrow> Failed err
             | Inr (repo, backend) \<Rightarrow>
                 (case parse_duration (cfg_cache_refresh_interval (cfg_tsdns cfg)) of
                    None \<Rightarrow> Failed ErrInvalidInterval
                  | Some cache_interval \<Rightarrow>
                      (case must_build (with_metrics []
                              (with_logger logger
                                (with_cache_refresh_interval cache_interval
                                  (with_repository (Some repo)
                                    (new_server_addr (srv_resolve senv) (cfg_listen (cfg_tsdns cfg))))))) of
                         None \<Rightarrow> Panicked (ErrExternal ''nil'')
                       | Some (Inl err) \<Rightarrow> Panicked err
                       | Some (Inr s) \<Rightarrow> Serving s (start_admin_api senv cfg))))"

text \<open>
  The end of \<open>runServe\<close>: the first of a signal and an error of one of the two servers. The
  shutdown of the API server is waited for and its error dropped.
\<close>

datatype serve_event = Signalled | ServerFailed error

definition serve_end ::
  "'r repo_ops \<Rightarrow> serve_event \<Rightarrow> ('r, 'x) server \<Rightarrow> error + ((error + unit) \<times> ('r, 'x) server)" where
  "serve_end ops ev s =
     (case ev of
        ServerFailed err \<Rightarrow> Inl err
      | Signalled \<Rightarrow> Inr (close_server ops s))"

end
