(* ===== verification/Admin.thy ===== *)
theory Admin
  imports Serve
begin

text \<open>
  The command line against the admin API: how a request of the client arrives at the
  server, and what a command that returns without an error has done to the records and the
  tables of the TSDNS server.
\<close>

section \<open>From the client to the server\<close>

text \<open>
  The request as the server's handlers see it, for a client with the base URL \<open>base\<close> on a
  connection from \<open>remote\<close>.
\<close>

definition deliver :: "string \<Rightarrow> string \<Rightarrow> http_request \<Rightarrow> request" where
  "deliver base remote req =
     \<lparr>req_method = hq_method req,
      req_segments = map (\<lambda>seg. case unescape UPath seg of Some s \<Rightarrow> s | None \<Rightarrow> seg)
        (split_on (CHR ''/'') (drop (length base + 1) (hq_url req))),
      req_remote_addr = remote,
      req_header = (\<lambda>h. if h = ''Authorization'' then hq_authorization req
                        else if h = ''Content-Type'' then hq_content_type req else []),
      req_body = hq_body req\<rparr>"

text \<open>
  The client reaches this API: its answer has the status and the body the server's handler
  gave, for some choice between nil and empty slices, and the state is the handler's. A path with an empty or a dot segment is redirected first.
\<close>

definition clean_segments :: "request \<Rightarrow> bool" where
  "clean_segments r \<longleftrightarrow> list_all (\<lambda>seg. seg \<notin> {[], ''.'', ''..''}) (req_segments r)"

definition reaches ::
  "('d, 'e, 'm) cli_env \<Rightarrow> api_client \<Rightarrow> string \<Rightarrow> api_server \<Rightarrow> 'm manager \<Rightarrow> bool" where
  "reaches env client remote api mgr \<longleftrightarrow>
     (\<forall>req m hr m'. env_http env (cl_socket client) req m = (Inr hr, m') \<and>
          clean_segments (deliver (cl_base_url client) remote req) \<longrightarrow>
        (\<exists>resp error_text nil_list nil.
           serve_http api mgr (deliver (cl_base_url client) remote req) m = (resp, m') \<and>
           hs_code hr = resp_status resp \<and>
           hs_body hr = body_text (env_times env) error_text nil_list nil (resp_body resp)))"

section \<open>Lemmas\<close>

lemma segments_records: "req_segments (deliver base remote req) = [''api'', ''v1'', ''records'']"
  if "hq_url req = base @ ''/api/v1/records''"
proof -
  have "split_on (CHR ''/'') ''api/v1/records'' = [''api'', ''v1'', ''records'']" by simp
  moreover have "drop (length base + 1) (hq_url req) = ''api/v1/records''" by (simp add: that)
  ultimately show ?thesis by (simp add: deliver_def)
qed

lemma segments_record: "req_segments (deliver base remote req) = [''api'', ''v1'', ''records'', d]"
  if "hq_url req = base @ ''/api/v1/records/'' @ path_escape d"
proof -
  have "drop (length base + 1) (hq_url req) =
      ''api'' @ CHR ''/'' # ''v1'' @ CHR ''/'' # ''records'' @ CHR ''/'' # path_escape d"
    by (simp add: that)
  then show ?thesis
    by (simp only: deliver_def split_on_append split_on_absent [OF path_escape_no_slash])
       (simp add: split_on_append split_on_absent [OF path_escape_no_slash] roundtrip)
qed

text \<open>A successful answer comes from the handler of the route.\<close>

lemma set_auth_simps [simp]:
  "hq_method (set_auth_headers t req) = hq_method req" "hq_url (set_auth_headers t req) = hq_url req"
  "hq_body (set_auth_headers t req) = hq_body req" "hq_content_type (set_auth_headers t req) = hq_content_type req"
  by (simp_all add: set_auth_headers_def Let_def)

lemma deliver_simps [simp]:
  "req_method (deliver base remote req) = hq_method req" "req_body (deliver base remote req) = hq_body req"
  "req_remote_addr (deliver base remote req) = remote"
  by (simp_all add: deliver_def)

lemma served_by_mux:
  assumes "serve_http api mgr r m = (resp, m')" "success_status (resp_status resp)" "req_segments r \<noteq> [''healthz'']"
  shows "api_mux api mgr r m = (resp, m')"
proof (cases "admitted api r")
  case False
  have "resp = write_error 401 ''unauthorized''"
    using assms(1) serve_http_refused [OF False assms(3), of mgr m] by simp
  with assms(2) show ?thesis by (simp add: success_status_def)
qed (use assms in \<open>simp add: serve_http_admitted\<close>)

lemma upsert_via_api_served:
  assumes "reaches env client remote api mgr" "upsert_record_via_api env client r m = (Inr (), m')"
  obtains q resp where "handle_records_upsert mgr q m = (resp, m')" "resp_status resp = 201"
    "req_body q = upsert_payload r"
proof -
  define req where "req = set_auth_headers (cl_token client)
      \<lparr>hq_method = ''POST'', hq_url = cl_base_url client @ ''/api/v1/records'', hq_authorization = [],
       hq_content_type = ''application/json'', hq_body = upsert_payload r\<rparr>"
  let ?q = "deliver (cl_base_url client) remote req"
  obtain hr where hr: "env_http env (cl_socket client) req m = (Inr hr, m')" "success_status (hs_code hr)"
    using assms(2) by (auto simp: upsert_record_via_api_def req_def Let_def split: if_splits prod.splits sum.splits)
  have seg: "req_segments ?q = [''api'', ''v1'', ''records'']"
    by (rule segments_records) (simp add: req_def)
  then have "clean_segments ?q" by (simp add: clean_segments_def)
  with hr assms(1) obtain resp where resp: "serve_http api mgr ?q m = (resp, m')" "hs_code hr = resp_status resp"
    unfolding reaches_def by blast
  with hr seg have "api_mux api mgr ?q m = (resp, m')" by (intro served_by_mux) simp_all
  moreover have "api_route (req_method ?q) (req_segments ?q) = Some RecordsUpsert"
    by (simp add: seg api_route_def) (simp add: req_def)
  ultimately have h: "handle_records_upsert mgr ?q m = (resp, m')" by (simp add: api_mux_def)
  with upsert_statuses [of mgr ?q m] hr resp have "resp_status resp = 201"
    by (auto simp: success_status_def)
  with h that show thesis by (simp add: req_def)
qed

lemma delete_via_api_served:
  assumes "reaches env client remote api mgr" "delete_record_via_api env client d m = (Inr (), m')"
    "d \<notin> {[], ''.'', ''..''}"
  obtains resp where "handle_record_delete mgr d m = (resp, m')" "resp_status resp = 204"
proof -
  define req where "req = set_auth_headers (cl_token client)
      \<lparr>hq_method = ''DELETE'', hq_url = cl_base_url client @ ''/api/v1/records/'' @ path_escape d,
       hq_authorization = [], hq_content_type = [], hq_body = []\<rparr>"
  let ?q = "deliver (cl_base_url client) remote req"
  obtain hr where hr: "env_http env (cl_socket client) req m = (Inr hr, m')" "success_status (hs_code hr)"
    using assms(2) by (auto simp: delete_record_via_api_def req_def Let_def split: if_splits prod.splits sum.splits)
  have seg: "req_segments ?q = [''api'', ''v1'', ''records'', d]"
    by (rule segments_record) (simp add: req_def)
  with assms(3) have "clean_segments ?q" by (simp add: clean_segments_def)
  with hr assms(1) obtain resp where resp: "serve_http api mgr ?q m = (resp, m')" "hs_code hr = resp_status resp"
    unfolding reaches_def by blast
  with hr seg have "api_mux api mgr ?q m = (resp, m')" by (intro served_by_mux) simp_all
  moreover have "api_route (req_method ?q) (req_segments ?q) = Some (RecordDelete d)"
    using assms(3) by (simp add: seg api_route_def) (simp add: req_def)
  ultimately have h: "handle_record_delete mgr d m = (resp, m')" by (simp add: api_mux_def)
  with delete_statuses [of mgr d m] hr resp have "resp_status resp = 204"
    by (auto simp: success_status_def)
  with h that show thesis by blast
qed

lemma list_via_api_served:
  assumes "reaches env client remote api mgr" "list_records_via_api env client m = (Inr out, m')"
  obtains resp error_text nil_list nil where "handle_records_list mgr m = (resp, m')" "resp_status resp = 200"
    "decode_records (env_times env) (body_text (env_times env) error_text nil_list nil (resp_body resp)) = Some out"
proof -
  define req where "req = set_auth_headers (cl_token client)
      \<lparr>hq_method = ''GET'', hq_url = cl_base_url client @ ''/api/v1/records'', hq_authorization = [],
       hq_content_type = [], hq_body = []\<rparr>"
  let ?q = "deliver (cl_base_url client) remote req"
  obtain hr where hr: "env_http env (cl_socket client) req m = (Inr hr, m')" "hs_code hr = 200"
    "decode_records (env_times env) (hs_body hr) = Some out"
    using assms(2)
    by (auto simp: list_records_via_api_def req_def Let_def split: if_splits prod.splits sum.splits option.splits)
  have seg: "req_segments ?q = [''api'', ''v1'', ''records'']"
    by (rule segments_records) (simp add: req_def)
  then have "clean_segments ?q" by (simp add: clean_segments_def)
  with hr(1) assms(1) obtain resp error_text nil_list nil where
    resp: "serve_http api mgr ?q m = (resp, m')" "hs_code hr = resp_status resp"
      "hs_body hr = body_text (env_times env) error_text nil_list nil (resp_body resp)"
    unfolding reaches_def by blast
  with hr(2) seg have "api_mux api mgr ?q m = (resp, m')"
    by (intro served_by_mux) (simp_all add: success_status_def)
  moreover have "api_route (req_method ?q) (req_segments ?q) = Some RecordsList"
    by (simp add: seg api_route_def) (simp add: req_def)
  ultimately have "handle_records_list mgr m = (resp, m')" by (simp add: api_mux_def)
  with resp hr that show thesis by metis
qed

text \<open>The token a client sends is the trimmed one it was given, and a refusal tells it.\<close>

lemma client_token:
  assumes "hq_authorization req = []"
  shows "extract_token (deliver base remote (set_auth_headers token req)) = trim_space token"
proof (cases "trim_space token = []")
  case True
  then show ?thesis using assms by (simp add: extract_token_def deliver_def set_auth_headers_def)
next
  case False
  then show ?thesis
    by (intro extract_token_bearer) (simp_all add: deliver_def set_auth_headers_def Let_def)
qed

lemma refused_client:
  assumes reach: "reaches env client remote api mgr"
    and api: "trim_space (api_token api) \<noteq> []" "CHR '':'' \<in> set remote" "trim_space (cl_token client) \<noteq> api_token api"
    and transport: "is_ok (fst (env_http env (cl_socket client) (set_auth_headers (cl_token client) req) m))"
    and req: "hq_authorization req = []" "clean_segments (deliver (cl_base_url client) remote req)"
      "req_segments (deliver (cl_base_url client) remote req) \<noteq> [''healthz'']"
  obtains hr where "env_http env (cl_socket client) (set_auth_headers (cl_token client) req) m = (Inr hr, m)"
    "hs_code hr = 401" "decode_api_error hr = ErrAPIError ('' ('' @ hs_status hr @ ''): unauthorized'')"
proof -
  let ?q = "deliver (cl_base_url client) remote (set_auth_headers (cl_token client) req)"
  have seg: "req_segments ?q = req_segments (deliver (cl_base_url client) remote req)" by (simp add: deliver_def)
  obtain hr m' where hr: "env_http env (cl_socket client) (set_auth_headers (cl_token client) req) m = (Inr hr, m')"
    using transport by (metis is_okE prod.collapse)
  have "clean_segments ?q" using req(2) by (simp add: clean_segments_def seg)
  with reach hr obtain resp error_text nil_list nil where resp: "serve_http api mgr ?q m = (resp, m')"
    "hs_code hr = resp_status resp" "hs_body hr = body_text (env_times env) error_text nil_list nil (resp_body resp)"
    unfolding reaches_def by blast
  have "\<not> admitted api ?q" using api by (simp add: admitted_def client_token req(1))
  from serve_http_refused [OF this, of mgr m] resp(1) req(3) seg
  have refused: "resp = write_error 401 ''unauthorized''" "m' = m" by simp_all
  have "json_text ''unauthorized''" by (rule json_text_ascii) simp
  moreover have "json_stop [CHR 0x0A]" by (simp add: json_stop_def is_json_space_def)
  ultimately have "decode_error_body (hs_body hr) = Some ''unauthorized''"
    using decode_error_json by (simp add: resp(3) refused body_text_def write_error_def)
  with hr resp(2) refused that show thesis by (simp add: decode_api_error_def)
qed

text \<open>What is listed is what the repository holds, written and read back.\<close>

lemma listed_body:
  assumes "handle_records_list (core_manager ops eng now) s = (resp, s')" "resp_status resp = 200"
    and "repo_find ops (srv_repository s) = Inr rs" "list_all (record_text_ok tc) rs"
    and "decode_records tc (body_text tc error_text nil_list nil (resp_body resp)) = Some out"
  shows "out = map Some rs"
proof -
  have "resp_body resp = ListJSON rs"
    using assms(1-3) by (auto simp: handle_records_list_def core_manager_ops list_records_def split: sum.splits)
  moreover have "json_stop [CHR 0x0A]" by (simp add: json_stop_def is_json_space_def)
  ultimately show ?thesis using assms(4,5) decode_records_json by (simp add: body_text_def)
qed

section \<open>The commands\<close>

lemma flag_targets_valid: "flag_targets port ps = Inr tps \<Longrightarrow> list_all (\<lambda>tp. is_valid (fst tp)) tps"
  by (induction ps arbitrary: tps)
     (auto simp: flag_target_def dest: parse_addr_port_valid parse_addr_valid split: option.splits sum.splits)

lemma add_targets_valid: "add_targets port target_str = Inr tps \<Longrightarrow> list_all (\<lambda>tp. is_valid (fst tp)) tps"
  by (auto simp: add_targets_def dest: flag_targets_valid split: if_splits)

text \<open>The steps of a successful command that goes through the API.\<close>

lemma run_add_okE:
  assumes "run_add_record env opts t domain target_str port inst h = (Inr (), h', st)" "\<not> ro_direct opts"
    "load_config (env_os env) (env_yaml env) (ro_config_path opts) = Inr cfg"
  obtains targets where "add_targets port target_str = Inr targets"
    "trim_space domain \<noteq> []" "0 \<le> sint inst" "st = None"
    "upsert_record_via_api env (resolve_api_client (env_os env) cfg (ro_api_url opts) (ro_token opts))
       (new_record inst domain targets) h = (Inr (), h')"
proof (cases "add_targets port target_str")
  case (Inr targets)
  let ?up = "upsert_record_via_api env (resolve_api_client (env_os env) cfg (ro_api_url opts) (ro_token opts))
       (new_record inst domain targets) h"
  have "validate_record_input (Some (new_record inst domain targets)) = Inr ()"
    using assms Inr by (auto simp: run_add_record_def Let_def split: sum.splits)
  then have dom: "trim_space domain \<noteq> []" "0 \<le> sint inst"
    by (auto simp: validate_record_input_def split: if_splits)
  obtain res h1 where up: "?up = (res, h1)" by fastforce
  with assms Inr dom have "res = Inr ()" "h1 = h'" "st = None"
    by (auto simp: run_add_record_def validate_record_input_def Let_def)
  with up dom Inr that show thesis by blast
qed (use assms in \<open>simp add: run_add_record_def\<close>)

lemma run_delete_ok:
  assumes "run_delete_record env opts domain h = (Inr (), h', st)" "\<not> ro_direct opts"
    "load_config (env_os env) (env_yaml env) (ro_config_path opts) = Inr cfg"
  shows "trim_space domain \<noteq> [] \<and> st = None \<and>
    delete_record_via_api env (resolve_api_client (env_os env) cfg (ro_api_url opts) (ro_token opts)) domain h
      = (Inr (), h')"
  using assms by (auto simp: run_delete_record_def Let_def split: if_splits prod.splits)

lemma run_list_ok:
  assumes "run_list_records env opts h = (Inr out, h', st)" "\<not> ro_direct opts"
    "load_config (env_os env) (env_yaml env) (ro_config_path opts) = Inr cfg"
  shows "list_records_via_api env (resolve_api_client (env_os env) cfg (ro_api_url opts) (ro_token opts)) h
    = (Inr out, h')"
  using assms by (auto simp: run_list_records_def Let_def split: prod.splits sum.splits)

context record_repository
begin

lemma add_reaches_server:
  assumes inv: "invar (srv_repository s)"
    and cfg: "load_config (env_os env) (env_yaml env) (ro_config_path opts) = Inr cfg" "\<not> ro_direct opts"
    and reach: "reaches env (resolve_api_client (env_os env) cfg (ro_api_url opts) (ro_token opts)) remote api
        (core_manager ops eng now)"
    and run: "run_add_record env opts t domain target_str port inst s = (Inr (), s', st)"
    and ts: "add_targets port target_str = Inr targets"
      "list_all (\<lambda>tp. storable tp \<and> zoneless (fst tp)) targets"
    and payload: "json_text domain" "length (upsert_payload (new_record inst domain targets)) \<le> max_body_size"
  shows "content (srv_repository s') = (content (srv_repository s))(domain \<mapsto> (inst, targets))"
    and "current content eng s'" and "invar (srv_repository s')"
proof -
  let ?r = "new_record inst domain targets"
  let ?client = "resolve_api_client (env_os env) cfg (ro_api_url opts) (ro_token opts)"
  have "upsert_record_via_api env ?client ?r s = (Inr (), s')"
    using run cfg(2,1) by (rule run_add_okE) (use ts(1) in auto)
  with reach obtain q resp where q: "handle_records_upsert (core_manager ops eng now) q s = (resp, s')"
    "resp_status resp = 201" "req_body q = upsert_payload ?r"
    by (rule upsert_via_api_served)
  have valid: "list_all (\<lambda>tp. is_valid (fst tp) \<and> zoneless (fst tp)) targets"
    using add_targets_valid [OF ts(1)] ts(2) by (simp add: list_all_iff)
  then have dec: "decode_upsert max_body_size (req_body q) =
      Some \<lparr>rq_domain = domain, rq_targets = map addr_port_string targets, rq_instance_id = inst, rq_port = 0\<rparr>"
    using decode_upsert_payload [of ?r max_body_size] payload q(3) by simp
  have read: "request_targets 0 (map addr_port_string targets) = Inr targets"
    by (rule request_targets_text [OF valid])
  obtain req targets' where st: "decode_upsert max_body_size (req_body q) = Some req"
    "request_targets (rq_port req) (rq_targets req) = Inr targets'"
    "content (srv_repository s') = (content (srv_repository s))(rq_domain req \<mapsto> (rq_instance_id req, targets'))"
    "current content eng s'" "invar (srv_repository s')"
    by (rule serve_upsert [OF inv q(1,2)]) (use dec read ts(2) in \<open>auto simp: list_all_iff\<close>)
  then show "content (srv_repository s') = (content (srv_repository s))(domain \<mapsto> (inst, targets))"
    "current content eng s'" "invar (srv_repository s')"
    using dec read by auto
qed

lemma delete_reaches_server:
  assumes inv: "invar (srv_repository s)"
    and cfg: "load_config (env_os env) (env_yaml env) (ro_config_path opts) = Inr cfg" "\<not> ro_direct opts"
    and reach: "reaches env (resolve_api_client (env_os env) cfg (ro_api_url opts) (ro_token opts)) remote api
        (core_manager ops eng now)"
    and run: "run_delete_record env opts domain s = (Inr (), s', st)" "domain \<notin> {''.'', ''..''}"
  shows "content (srv_repository s) (trim_space domain) \<noteq> None"
    and "content (srv_repository s') = (content (srv_repository s))(trim_space domain := None)"
    and "current content eng s'"
proof -
  let ?client = "resolve_api_client (env_os env) cfg (ro_api_url opts) (ro_token opts)"
  have del: "delete_record_via_api env ?client domain s = (Inr (), s')" and "domain \<noteq> []"
    using run_delete_ok [OF run(1) cfg(2,1)] by auto
  with run(2) have "domain \<notin> {[], ''.'', ''..''}" by simp
  with reach del obtain resp where "handle_record_delete (core_manager ops eng now) domain s = (resp, s')"
    "resp_status resp = 204"
    by (rule delete_via_api_served)
  from serve_delete [OF inv this] show "content (srv_repository s) (trim_space domain) \<noteq> None"
    "content (srv_repository s') = (content (srv_repository s))(trim_space domain := None)"
    "current content eng s'" by simp_all
qed

text \<open>What a query for a stored name is answered, once the tables are current.\<close>

lemma current_answer:
  assumes "current content eng s" "content (srv_repository s) host = Some (i, targets)" "targets \<noteq> []"
    and "conn_read c = Inr bytes" "\<not> conn_write_fails c"
    and "parse_query (trim_space (take max_query_size bytes)) = (host, q)" "host \<noteq> []"
  shows "conn_written (snd (handle_query eng s c)) = conn_written c @ join '' '' (map (target_text q) targets)"
proof -
  obtain r where r: "lookup_record eng s host = Some r" "rec_entry r = (i, targets)"
    using current_exact [OF assms(1,2)] by blast
  have "trim_space (take max_query_size bytes) \<noteq> []"
    using assms(6,7) by (auto simp: parse_query_def)
  then show ?thesis
    using assms r by (auto simp: handle_query_outcome query_outcome_def rec_entry_def Let_def)
qed

end

end
