(* ===== verification/Admin_Fixtures.thy ===== *)
theory Admin_Fixtures
  imports Admin Fixtures
begin

text \<open>
  A concrete environment for the properties of the administration: an API with a token over
  both storages in memory, and a command line whose requests its handler answers.
\<close>

section \<open>The API over both storages\<close>

abbreviation test_ops :: "(table, mem) store repo_ops" where
  "test_ops \<equiv> storage_repo table_db mem_redis test_codec"

interpretation test_manager: record_manager "core_manager (storage_repo table_db mem_redis tc) eng now"
    "\<lambda>s. store_content tbl_rows mem_store (srv_repository s)"
    "\<lambda>s. store_invar tbl_rows mem_store (srv_repository s)"
    "\<lambda>t. storable_target t \<and> redis_storable t" for tc eng now
  by (rule record_repository.core_record_manager [OF storage_record_repository [OF table_laws mem_laws]])

definition test_api :: "string \<Rightarrow> api_server" where
  "test_api token =
     \<lparr>api_addr = ''127.0.0.1:8080'', api_socket = [], api_token = token,
      api_metrics_page = respond 200 (OtherBody []), api_fallback = (\<lambda>r. respond 404 (OtherBody []))\<rparr>"

definition test_manager_ops :: "(((table, mem) store, rx_item list) server) manager" where
  "test_manager_ops = core_manager test_ops frag_regexp 7"

definition test_request :: "string \<Rightarrow> string list \<Rightarrow> string \<Rightarrow> string \<Rightarrow> request" where
  "test_request meth segs auth bdy =
     \<lparr>req_method = meth, req_segments = segs, req_remote_addr = ''10.0.0.9:5000'',
      req_header = (\<lambda>h. if h = ''Authorization'' then auth else []), req_body = bdy\<rparr>"

text \<open>A server over the Redis storage, and one over the table.\<close>

definition redis_server :: "((table, mem) store, rx_item list) server" where
  "redis_server = test_server (RedisStore ''tsdns'' [])"

definition sql_server :: "((table, mem) store, rx_item list) server" where
  "sql_server = test_server (SqlStore wild_table)"

lemma store_invar_servers:
  "store_invar tbl_rows mem_store (srv_repository redis_server)"
  "store_invar tbl_rows mem_store (srv_repository sql_server)"
  by (simp_all add: redis_server_def sql_server_def store_invar_def redis_invar_empty sql_invar_wild)

section \<open>The command line\<close>

definition test_os :: os where
  "test_os =
     \<lparr>os_read_file = (\<lambda>p. Inl (ErrExternal p)), os_exists = (\<lambda>p. False),
      os_getenv = (\<lambda>v. if v = ''TSDNS_API_TOKEN'' then ''secret'' else [])\<rparr>"

definition test_backends :: "(table, mem) backends" where
  "test_backends =
     \<lparr>bk_drivers = \<lparr>drv_mkdir_all = (\<lambda>p. Inr ()), drv_open = (\<lambda>k p. Inr empty_table),
                    drv_migrate = Inr, drv_indexes = (\<lambda>d. d), drv_inet = (\<lambda>d. d)\<rparr>,
      bk_redis = mem_redis, bk_connect = (\<lambda>a p n. [])\<rparr>"

definition test_env ::
  "string \<Rightarrow> string \<Rightarrow> (table, mem, ((table, mem) store, rx_item list) server) cli_env" where
  "test_env base token =
     \<lparr>env_os = test_os, env_yaml = (\<lambda>b c. None), env_backends = test_backends,
      env_repo = test_ops,
      env_http = (\<lambda>sock req s.
        let (resp, s') = serve_http (test_api token) test_manager_ops (deliver base ''10.0.0.9:5000'' req) s
        in (Inr \<lparr>hs_code = resp_status resp, hs_status = [],
            hs_body = body_text test_codec (\<lambda>e. ''error'') False (\<lambda>r. False) (resp_body resp)\<rparr>, s')),
      env_times = test_codec,
      env_open = (\<lambda>p. Inl (ErrExternal p))\<rparr>"

definition test_opts :: records_options where
  "test_opts = \<lparr>ro_config_path = [], ro_api_url = [], ro_token = [], ro_direct = False\<rparr>"

definition test_config :: config where
  "test_config = apply_env test_os default_config"

lemma test_config_loads: "load_config test_os (\<lambda>b c. None) [] = Inr test_config"
proof -
  have "validate_config test_config = Inr ()" unfolding test_config_def by code_simp
  then show ?thesis by (simp add: load_config_def file_config_def test_config_def Let_def)
qed

lemma test_client: "resolve_api_client test_os test_config [] [] =
    \<lparr>cl_socket = None, cl_base_url = ''http://127.0.0.1:8080'', cl_token = ''secret''\<rparr>"
  by code_simp

lemma test_reaches: "reaches (test_env ''http://127.0.0.1:8080'' token) (resolve_api_client test_os test_config [] [])
    ''10.0.0.9:5000'' (test_api token) (core_manager test_ops frag_regexp 7)"
  by (auto simp: reaches_def test_client test_env_def test_manager_ops_def Let_def case_prod_unfold)
     (metis prod.collapse)

end
