(* ===== verification/Admin_Properties.thy ===== *)
theory Admin_Properties
  imports Admin_Fixtures
begin

text \<open>
  The properties of the administration: the configuration, the storage names, the API, the
  command line against the API, and the start of the process.
\<close>

section \<open>The configuration\<close>



section \<open>Storage names\<close>



text \<open>
  C33: A Redis name printed from a password, a host name, a port, a database number and a
  prefix is read back as these, whatever bytes password and prefix have; a MySQL name
  printed from a user, a password, a host and a database becomes the name for the driver
  with these parts and \<open>parseTime\<close>.
\<close>

theorem dsn_roundtrip:
  assumes "host_name h" "db < 2 ^ 63" "user \<noteq> []" "trim_space name \<noteq> []"
  shows "parse_dsn (url_text ''redis'' (authority_text [] pass h port) (''/'' @ dec db)
        (''prefix='' @ url_escape UQuery prefix)) =
      Inr (redis_dsn \<lparr>opt_addr = host_port h port, opt_password = pass, opt_prefix = trim_space prefix, opt_db = int db\<rparr>) \<and>
    parse_dsn (url_text ''mysql'' (authority_text user pass h port) (''/'' @ path_escape name) []) =
      Inr (sql_dsn ''mysql'' (user @ (if pass = [] then [] else '':'' @ pass) @ ''@tcp('' @ host_port h port @ '')/'' @ name
        @ ''?parseTime=true''))"
  using redis_name_read [OF assms(1,2)] mysql_name_read [OF assms(1,3,4)] by blast

theorem dsn_roundtrip_witness:
  "parse_dsn (url_text ''redis'' (authority_text [] ''p@ss/#1'' ''redis.local'' 6380) ''/2''
      (''prefix='' @ url_escape UQuery ''ts dns'')) =
    Inr (redis_dsn \<lparr>opt_addr = ''redis.local:6380'', opt_password = ''p@ss/#1'', opt_prefix = ''ts dns'', opt_db = 2\<rparr>)"
proof -
  have "host_name ''redis.local''" "''root'' \<noteq> []" "trim_space ''tsdns'' \<noteq> []" by code_simp+
  from conjunct1 [OF dsn_roundtrip [OF this(1) _ this(2,3), of 2 "''p@ss/#1''" 6380 "''ts dns''"]]
  have "parse_dsn (url_text ''redis'' (authority_text [] ''p@ss/#1'' ''redis.local'' 6380) (''/'' @ dec 2)
      (''prefix='' @ url_escape UQuery ''ts dns'')) =
    Inr (redis_dsn \<lparr>opt_addr = host_port ''redis.local'' 6380, opt_password = ''p@ss/#1'',
      opt_prefix = trim_space ''ts dns'', opt_db = int 2\<rparr>)" by simp
  moreover have "dec 2 = ''2''" "host_port ''redis.local'' 6380 = ''redis.local:6380''" "trim_space ''ts dns'' = ''ts dns''"
    by code_simp+
  ultimately show ?thesis by simp
qed

text \<open>
  Of a name in the style of the MySQL driver, \<open>mysql:user:pass@tcp(host)/db?params\<close>,
  the parameters are lost: the parser of URLs has split them off the opaque part, and only
  that part is passed on, so that \<open>parseTime\<close> is not set. And the default port is not added
  to an IPv6 host in brackets, which has colons of its own: \<open>SplitHostPort\<close> refuses the
  address that the client is given.
\<close>

lemma dsn_defects:
  "parse_dsn ''mysql:u:p@tcp(db:3306)/tsdns?parseTime=true'' = Inr (sql_dsn ''mysql'' ''u:p@tcp(db:3306)/tsdns'') \<and>
   parse_dsn ''redis://[::1]/0'' =
     Inr (redis_dsn \<lparr>opt_addr = ''[::1]'', opt_password = [], opt_prefix = [], opt_db = 0\<rparr>) \<and>
   parse_dsn ''mysql://u:p@[::1]/tsdns'' = Inr (sql_dsn ''mysql'' ''u:p@tcp([::1])/tsdns?parseTime=true'') \<and>
   split_host_port ''[::1]'' = None"
  by (intro conjI) code_simp+

end
