(* ===== verification/Api_Properties.thy ===== *)
theory Api_Properties
  imports Admin_Fixtures
begin

text \<open>
  The properties of the admin API over the TSDNS server and the repository of either
  backend: who may change records, and that the answers which mean success are those of a
  map from domains to instances and targets.
\<close>

section \<open>Who may change records\<close>

text \<open>
  C10: A request that changes the repository or the tables of the server was admitted, by
  its token, by the absence of a token in the configuration or by the Unix socket; its
  method was POST or DELETE, and it was answered 201, 204 or 500: no refusal and no read
  changes anything.
\<close>

theorem api_changes:
  assumes "serve_http api (core_manager ops eng now) r s = (resp, s')"
    "srv_repository s' \<noteq> srv_repository s \<or> \<not> same_tables s' s"
  shows "(trim_space (api_token api) = [] \<or> CHR '':'' \<notin> set (req_remote_addr r) \<or> extract_token r = api_token api) \<and>
    req_method r \<in> {''POST'', ''DELETE''} \<and> resp_status resp \<in> {201, 204, 500}"
  using serve_changes [OF assms(1)] assms(2) by (simp add: same_view_def admitted_def)

definition test_post :: request where
  "test_post = test_request ''POST'' [''api'', ''v1'', ''records''] ''Bearer secret''
     (upsert_payload (new_record 1 ''ts.example'' [test_target]))"

lemma test_post_changes:
  "case serve_http (test_api ''secret'') test_manager_ops test_post redis_server of
     (resp, s') \<Rightarrow> srv_cache s' ''ts.example'' \<noteq> None \<and> resp_status resp = 201"
  by code_simp

theorem api_changes_witness:
  "extract_token test_post = ''secret'' \<and> trim_space ''secret'' \<noteq> [] \<and>
   CHR '':'' \<in> set (req_remote_addr test_post)"
proof -
  obtain resp s' where h: "serve_http (test_api ''secret'') test_manager_ops test_post redis_server = (resp, s')"
    by fastforce
  have "srv_cache s' ''ts.example'' \<noteq> None" using test_post_changes by (simp add: h)
  moreover have "srv_cache redis_server ''ts.example'' = None" by (simp add: redis_server_def test_server_def)
  ultimately have changed: "\<not> same_tables s' redis_server" by (auto simp: same_tables_def)
  have remote: "CHR '':'' \<in> set (req_remote_addr test_post)" by (simp add: test_post_def test_request_def)
  have "trim_space ''secret'' \<noteq> []" by code_simp
  with api_changes [OF h [unfolded test_manager_ops_def]] changed remote show ?thesis
    by (simp add: test_api_def)
qed

text \<open>
  C38: A configured token with blanks around it refuses every request over TCP other than
  the health check, whatever the request shows: the token of a request is trimmed before
  the comparison, the configured one is not.
\<close>

theorem api_token_lockout:
  assumes "trim_space (api_token api) \<notin> {[], api_token api}" "CHR '':'' \<in> set (req_remote_addr r)"
    "req_path r \<noteq> ''/healthz''"
  shows "serve_http api mgr r m = (write_error 401 ''unauthorized'', m)"
proof (rule serve_http_refused)
  show "\<not> admitted api r" using assms extract_token_trimmed [of r] by (auto simp: admitted_def)
  show "req_segments r \<noteq> [''healthz'']" using assms(3) by (simp add: healthz_path)
qed

theorem api_token_lockout_witness:
  "serve_http (test_api '' secret'') test_manager_ops
     (test_request ''GET'' [''api'', ''v1'', ''records''] ''Bearer  secret'' []) redis_server =
   (write_error 401 ''unauthorized'', redis_server)"
proof (rule api_token_lockout)
  show "trim_space (api_token (test_api '' secret'')) \<notin> {[], api_token (test_api '' secret'')}" by code_simp
qed (simp_all add: test_request_def req_path_def)

section \<open>The API as a map\<close>

lemma sql_server_content:
  "store_content tbl_rows mem_store (srv_repository sql_server) = sql_content (tbl_rows wild_table)"
  by (simp add: sql_server_def store_content_def)

lemma serve_route:
  assumes "serve_http api mgr r m = (resp, m')" "api_route (req_method r) (req_segments r) = Some rt"
    "rt \<noteq> Healthz" "resp_status resp \<in> {200, 201, 204}"
  shows "api_mux api mgr r m = (resp, m')"
proof (rule served_by_mux [OF assms(1)])
  show "success_status (resp_status resp)" using assms(4) by (auto simp: success_status_def)
  show "req_segments r \<noteq> [''healthz'']" using assms(2,3) by (auto simp: api_route_def split: if_splits)
qed

text \<open>
  C7: An upsert over the API that is answered 201 has stored the targets of the body for
  its domain, in a database or in Redis, and changed no other domain; the tables are
  current, and the body of the answer is the stored record. Targets with an IPv6 zone are
  excepted, which the text of a target in Redis does not keep apart.
\<close>

theorem api_upsert:
  assumes laws: "sql_laws db rows" "redis_laws rds keys" and inv: "store_invar rows keys (srv_repository s)"
    and serve: "serve_http api (core_manager (storage_repo db rds tc) eng now) r s = (resp, s')"
      "req_method r = ''POST''" "req_segments r = [''api'', ''v1'', ''records'']" "resp_status resp = 201"
    and req: "decode_upsert max_body_size (req_body r) = Some req"
      "request_targets (rq_port req) (rq_targets req) = Inr targets" "list_all (\<lambda>t. zoneless (fst t)) targets"
  shows "store_content rows keys (srv_repository s') =
      (store_content rows keys (srv_repository s))(rq_domain req \<mapsto> (rq_instance_id req, targets)) \<and>
    current (store_content rows keys) eng s' \<and> store_invar rows keys (srv_repository s') \<and>
    (\<exists>x. resp_body resp = RecordJSON x \<and> rec_domain x = rq_domain req \<and> rec_entry x = (rq_instance_id req, targets))"
proof -
  note repo = storage_record_repository [OF laws, of tc]
  have "api_route (req_method r) (req_segments r) = Some RecordsUpsert" by (simp add: serve api_route_def)
  with serve_route [OF serve(1)] serve(4) have h:
    "handle_records_upsert (core_manager (storage_repo db rds tc) eng now) r s = (resp, s')"
    by (simp add: api_mux_def)
  have st: "list_all (\<lambda>t. storable_target t \<and> redis_storable t) targets"
    using request_targets_valid [OF req(2)] req(3) by (simp add: list_all_iff storable_target_def redis_storable_def)
  have "current (store_content rows keys) eng s' \<and> store_invar rows keys (srv_repository s')"
    by (rule record_repository.serve_upsert [OF repo inv h serve(4)]) (use req st in simp_all)
  moreover have "store_content rows keys (srv_repository s') =
      (store_content rows keys (srv_repository s))(rq_domain req \<mapsto> (rq_instance_id req, targets)) \<and>
    (\<exists>x. resp_body resp = RecordJSON x \<and> rec_domain x = rq_domain req \<and> rec_entry x = (rq_instance_id req, targets))"
    by (rule record_manager.upsert_201 [OF record_repository.core_record_manager [OF repo] inv h serve(4)])
       (use req st in auto)
  ultimately show ?thesis by blast
qed

theorem api_upsert_witness:
  "case serve_http (test_api ''secret'') test_manager_ops test_post redis_server of
     (resp, s') \<Rightarrow> store_content tbl_rows mem_store (srv_repository s') ''ts.example'' = Some (1, [test_target])"
proof -
  obtain resp s' where h: "serve_http (test_api ''secret'') test_manager_ops test_post redis_server = (resp, s')"
    by fastforce
  let ?b = "upsert_payload (new_record 1 ''ts.example'' [test_target])"
  let ?q = "\<lparr>rq_domain = ''ts.example'', rq_targets = [addr_port_string test_target], rq_instance_id = 1, rq_port = 0\<rparr>"
  have dec: "decode_upsert max_body_size (req_body test_post) = Some ?q"
  proof -
    have "length ?b < 100" by code_simp
    then have "length ?b \<le> max_body_size" by (simp add: max_body_size_def)
    moreover have "json_text ''ts.example''" by (rule json_text_ascii) simp
    ultimately show ?thesis
      using decode_upsert_payload [of "new_record 1 ''ts.example'' [test_target]" max_body_size]
      by (simp add: test_post_def test_request_def) (simp add: test_target_def is_valid_def zoneless_def)
  qed
  have ts: "request_targets (rq_port ?q) (rq_targets ?q) = Inr [test_target]"
    using request_targets_text [of "[test_target]" 0] by (simp add: test_target_def is_valid_def zoneless_def)
  have "resp_status resp = 201" using test_post_changes by (simp add: h)
  moreover have "req_method test_post = ''POST''" "req_segments test_post = [''api'', ''v1'', ''records'']"
    by (simp_all add: test_post_def test_request_def)
  moreover have "list_all (\<lambda>t. zoneless (fst t)) [test_target]" by (simp add: test_target_def zoneless_def)
  ultimately have "store_content tbl_rows mem_store (srv_repository s') =
      (store_content tbl_rows mem_store (srv_repository redis_server))(''ts.example'' \<mapsto> (1, [test_target]))"
    using api_upsert [OF table_laws mem_laws store_invar_servers(1) h [unfolded test_manager_ops_def] _ _ _ dec ts]
    by simp
  then show ?thesis by (simp add: h)
qed

text \<open>
  C9: A list that is answered 200 has every stored record once and nothing else. A record
  that is answered 200 is the one stored for the trimmed segment, one that is not stored is
  answered 404; neither request changes the records.
\<close>

theorem api_reads:
  assumes laws: "sql_laws db rows" "redis_laws rds keys" and inv: "store_invar rows keys (srv_repository s)"
    and serve: "serve_http api (core_manager (storage_repo db rds tc) eng now) r s = (resp, s')"
      "req_method r = ''GET''" "admitted api r"
  shows "(req_segments r = [''api'', ''v1'', ''records''] \<and> resp_status resp = 200 \<longrightarrow>
      (\<exists>rs. resp_body resp = ListJSON rs \<and> distinct (map rec_domain rs) \<and>
         entries_of rs = store_content rows keys (srv_repository s))) \<and>
    (\<forall>seg. req_segments r = [''api'', ''v1'', ''records'', seg] \<and> seg \<noteq> [] \<longrightarrow>
      (if resp_status resp = 200
       then \<exists>x. resp_body resp = RecordJSON x \<and> rec_domain x = trim_space seg \<and>
              store_content rows keys (srv_repository s) (trim_space seg) = Some (rec_entry x)
       else resp_status resp = (if trim_space seg = [] \<or> CHR ''/'' \<in> set (trim_space seg) then 400 else 404)) \<and>
      (store_content rows keys (srv_repository s) (trim_space seg) = None \<longrightarrow> resp_status resp \<noteq> 200)) \<and>
    srv_repository s' = srv_repository s"
proof -
  let ?mgr = "core_manager (storage_repo db rds tc) eng now"
  note repo = storage_record_repository [OF laws, of tc]
  note mgr = record_repository.core_record_manager [OF repo, of eng now]
  have mux: "api_mux api ?mgr r s = (resp, s')" using serve(1) by (simp add: serve_http_admitted [OF serve(3)])
  have list: "\<exists>rs. resp_body resp = ListJSON rs \<and> distinct (map rec_domain rs) \<and>
      entries_of rs = store_content rows keys (srv_repository s)"
    if "req_segments r = [''api'', ''v1'', ''records'']" "resp_status resp = 200"
    using mux that record_manager.list_200 [OF mgr inv _ that(2)] by (simp add: api_mux_def api_route_def serve(2))
  have get: "if resp_status resp = 200
      then \<exists>x. resp_body resp = RecordJSON x \<and> rec_domain x = trim_space seg \<and>
             store_content rows keys (srv_repository s) (trim_space seg) = Some (rec_entry x)
      else resp_status resp = (if trim_space seg = [] \<or> CHR ''/'' \<in> set (trim_space seg) then 400 else 404)"
    if "req_segments r = [''api'', ''v1'', ''records'', seg]" "seg \<noteq> []" for seg
  proof -
    have h: "handle_record_get ?mgr seg s = (resp, s')"
      using mux that by (simp add: api_mux_def api_route_def serve(2))
    show ?thesis
      using record_manager.get_200 [OF mgr inv h] get_statuses [OF h]
      by (cases "resp_status resp = 200") (simp_all split: if_splits)
  qed
  have "s' = s \<or> srv_repository s' = srv_repository s"
    using serve_changes [OF serve(1)] serve(2) by (auto simp: same_view_def)
  with list get show ?thesis by fastforce
qed

theorem api_reads_witness:
  "resp_status (fst (serve_http (test_api []) test_manager_ops
     (test_request ''GET'' [''api'', ''v1'', ''records'', ''absent''] [] []) sql_server)) \<noteq> 200"
proof -
  let ?r = "test_request ''GET'' [''api'', ''v1'', ''records'', ''absent''] [] []"
  obtain resp s' where h: "serve_http (test_api []) test_manager_ops ?r sql_server = (resp, s')" by fastforce
  have "req_segments ?r = [''api'', ''v1'', ''records'', ''absent'']" "req_method ?r = ''GET''"
    by (simp_all add: test_request_def)
  moreover have "admitted (test_api []) ?r" by (simp add: admitted_def test_api_def)
  moreover have "Option.is_none (sql_content (tbl_rows wild_table) ''absent'')" by code_simp
  moreover have "trim_space ''absent'' = ''absent''" by code_simp
  ultimately show ?thesis
    using api_reads [OF table_laws mem_laws store_invar_servers(2) h [unfolded test_manager_ops_def]]
    by (simp add: h sql_server_content Option.is_none_def split: option.splits)
qed

text \<open>
  C8: A deletion over the API that is answered 204 removed a record that was stored, or
  all the records of an instance, and no others, in a database or in Redis; the tables are
  current.
\<close>

theorem api_deletes:
  assumes laws: "sql_laws db rows" "redis_laws rds keys" and inv: "store_invar rows keys (srv_repository s)"
    and serve: "serve_http api (core_manager (storage_repo db rds tc) eng now) r s = (resp, s')"
      "req_method r = ''DELETE''" "resp_status resp = 204"
  shows "(\<forall>seg. req_segments r = [''api'', ''v1'', ''records'', seg] \<and> seg \<noteq> [] \<longrightarrow>
      store_content rows keys (srv_repository s) (trim_space seg) \<noteq> None \<and>
      store_content rows keys (srv_repository s') =
        (store_content rows keys (srv_repository s))(trim_space seg := None) \<and>
      current (store_content rows keys) eng s') \<and>
    (\<forall>seg. req_segments r = [''api'', ''v1'', ''instances'', seg, ''records''] \<and> seg \<noteq> [] \<longrightarrow>
      (\<exists>i. parse_int64 (trim_space seg) = Some i \<and> 0 \<le> sint i \<and>
         store_content rows keys (srv_repository s') =
           (\<lambda>d. case store_content rows keys (srv_repository s) d of
                  None \<Rightarrow> None | Some e \<Rightarrow> if fst e = i then None else Some e)) \<and>
      current (store_content rows keys) eng s')"
proof (intro conjI allI impI; elim conjE)
  let ?mgr = "core_manager (storage_repo db rds tc) eng now"
  note repo = storage_record_repository [OF laws, of tc]
  note mgr = record_repository.core_record_manager [OF repo, of eng now]
  fix seg :: string
  assume seg: "seg \<noteq> []"
  {
    assume segs: "req_segments r = [''api'', ''v1'', ''records'', seg]"
    then have "api_route (req_method r) (req_segments r) = Some (RecordDelete seg)"
      using seg by (simp add: serve api_route_def)
    with serve_route [OF serve(1)] serve(3) have h: "handle_record_delete ?mgr seg s = (resp, s')"
      by (simp add: api_mux_def)
    note del = record_repository.serve_delete [OF repo inv h serve(3)]
    show "store_content rows keys (srv_repository s) (trim_space seg) \<noteq> None" by (rule del(1))
    show "store_content rows keys (srv_repository s') =
      (store_content rows keys (srv_repository s))(trim_space seg := None)" by (rule del(2))
    show "current (store_content rows keys) eng s'" by (rule del(3))
  }
  {
    assume segs: "req_segments r = [''api'', ''v1'', ''instances'', seg, ''records'']"
    then have "api_route (req_method r) (req_segments r) = Some (InstanceRecordsDelete seg)"
      using seg by (simp add: serve api_route_def)
    with serve_route [OF serve(1)] serve(3) have h: "handle_instance_records_delete ?mgr seg s = (resp, s')"
      by (simp add: api_mux_def)
    show "\<exists>i. parse_int64 (trim_space seg) = Some i \<and> 0 \<le> sint i \<and>
         store_content rows keys (srv_repository s') =
           (\<lambda>d. case store_content rows keys (srv_repository s) d of
                  None \<Rightarrow> None | Some e \<Rightarrow> if fst e = i then None else Some e)"
      by (rule record_manager.delete_instance_204 [OF mgr inv h serve(3)])
    show "current (store_content rows keys) eng s'"
      by (rule record_repository.serve_delete_instance [OF repo inv h serve(3)])
  }
qed

lemma test_delete_answer:
  "resp_status (fst (serve_http (test_api []) test_manager_ops
     (test_request ''DELETE'' [''api'', ''v1'', ''instances'', ''1'', ''records''] [] []) sql_server)) = 204"
  by code_simp

theorem api_deletes_witness:
  "store_content tbl_rows mem_store (srv_repository (snd (serve_http (test_api []) test_manager_ops
     (test_request ''DELETE'' [''api'', ''v1'', ''instances'', ''1'', ''records''] [] []) sql_server))) ''x.ts'' = None"
proof -
  let ?r = "test_request ''DELETE'' [''api'', ''v1'', ''instances'', ''1'', ''records''] [] []"
  obtain resp s' where h: "serve_http (test_api []) test_manager_ops ?r sql_server = (resp, s')" by fastforce
  have "req_method ?r = ''DELETE''" by (simp add: test_request_def)
  moreover have "resp_status resp = 204" using test_delete_answer by (simp add: h)
  moreover have "req_segments ?r = [''api'', ''v1'', ''instances'', ''1'', ''records'']" by (simp add: test_request_def)
  ultimately obtain i where i: "parse_int64 (trim_space ''1'') = Some i"
    "store_content tbl_rows mem_store (srv_repository s') =
       (\<lambda>d. case store_content tbl_rows mem_store (srv_repository sql_server) d of
              None \<Rightarrow> None | Some e \<Rightarrow> if fst e = i then None else Some e)"
    using api_deletes [OF table_laws mem_laws store_invar_servers(2) h [unfolded test_manager_ops_def]] by blast
  have "parse_int64 (trim_space ''1'') = Some 1" by code_simp
  moreover have "map_option fst (sql_content (tbl_rows wild_table) ''x.ts'') = Some 1" by code_simp
  ultimately show ?thesis using i by (auto simp: h sql_server_content split: option.splits)
qed

end
