(* ===== verification/Cli_Properties.thy ===== *)
theory Cli_Properties
  imports Admin_Fixtures
begin

text \<open>
  The properties that span the program: from a command through the admin API and the
  repository of either backend to the answers of the TSDNS server, the differences between
  the ways a record can be entered, the start of the process and the periodic reload.
\<close>

section \<open>From a command to the answer\<close>

lemma ok_result: "is_ok (fst x) \<Longrightarrow> x = (Inr (), fst (snd x), snd (snd x))"
  by (cases x) auto

lemma test_setup:
  "load_config (env_os (test_env base token)) (env_yaml (test_env base token)) (ro_config_path test_opts)
     = Inr test_config"
  "\<not> ro_direct test_opts"
  "reaches (test_env ''http://127.0.0.1:8080'' token)
     (resolve_api_client (env_os (test_env ''http://127.0.0.1:8080'' token)) test_config (ro_api_url test_opts)
        (ro_token test_opts))
     ''10.0.0.9:5000'' (test_api token) (core_manager test_ops frag_regexp 7)"
  using test_config_loads test_reaches by (simp_all add: test_env_def test_opts_def)

text \<open>
  C1: If \<open>records add\<close> through the API returns without an error, then a query for the domain
  is answered with the targets of the command line, in their order and each with its port:
  over a database and over Redis, for any request, token and configuration by which the
  client reached the server.
\<close>

theorem cli_add_answered:
  assumes laws: "sql_laws db rows" "redis_laws rds keys" and inv: "store_invar rows keys (srv_repository s)"
    and cfg: "load_config (env_os env) (env_yaml env) (ro_config_path opts) = Inr cfg" "\<not> ro_direct opts"
    and reach: "reaches env (resolve_api_client (env_os env) cfg (ro_api_url opts) (ro_token opts)) remote api
        (core_manager (storage_repo db rds tc) eng now)"
    and run: "run_add_record env opts t domain target_str port inst s = (Inr (), s', st)"
    and ts: "add_targets port target_str = Inr targets" "targets \<noteq> []" "list_all (\<lambda>tp. zoneless (fst tp)) targets"
    and payload: "json_text domain" "length (upsert_payload (new_record inst domain targets)) \<le> max_body_size"
    and query: "conn_read c = Inr bytes" "\<not> conn_write_fails c"
      "parse_query (trim_space (take max_query_size bytes)) = (domain, q)"
  shows "conn_written (snd (handle_query eng s' c)) = conn_written c @ join '' '' (map (target_text q) targets)"
proof -
  note repo = storage_record_repository [OF laws, of tc]
  have st: "list_all (\<lambda>tp. (storable_target tp \<and> redis_storable tp) \<and> zoneless (fst tp)) targets"
    using add_targets_valid [OF ts(1)] ts(3) by (simp add: list_all_iff storable_target_def redis_storable_def)
  note add = record_repository.add_reaches_server [OF repo inv cfg reach run ts(1) st payload]
  have "trim_space domain \<noteq> []" using run cfg(2,1) by (rule run_add_okE)
  then have "domain \<noteq> []" by auto
  moreover have "store_content rows keys (srv_repository s') domain = Some (inst, targets)" by (simp add: add(1))
  ultimately show ?thesis
    using record_repository.current_answer [OF repo add(2) _ ts(2) query] by blast
qed

definition added :: "((table, mem) store, rx_item list) server" where
  "added = fst (snd (run_add_record (test_env ''http://127.0.0.1:8080'' ''secret'') test_opts 7
     ''ts.example'' ''10.0.0.1,[2001:db8::1]:9988'' 9987 1 redis_server))"

theorem cli_add_answered_witness:
  "conn_written (snd (handle_query frag_regexp added (test_conn ''ts.example:1''))) =
     ''10.0.0.1:9987 [2001:db8::1]:9988''"
proof -
  let ?env = "test_env ''http://127.0.0.1:8080'' ''secret''"
  let ?ts = "[(Addr4 10 0 0 1, 9987), (Addr6 0x2001 0xdb8 0 0 0 0 0 1 [], 9988)]"
  have "is_ok (fst (run_add_record ?env test_opts 7 ''ts.example'' ''10.0.0.1,[2001:db8::1]:9988'' 9987 1 redis_server))"
    by code_simp
  note run = ok_result [OF this, folded added_def]
  have ts: "add_targets 9987 ''10.0.0.1,[2001:db8::1]:9988'' = Inr ?ts" by code_simp
  have "length (upsert_payload (new_record 1 ''ts.example'' ?ts)) < 200" by code_simp
  then have len: "length (upsert_payload (new_record 1 ''ts.example'' ?ts)) \<le> max_body_size"
    by (simp add: max_body_size_def)
  have js: "json_text ''ts.example''" by (rule json_text_ascii) simp
  have z: "list_all (\<lambda>tp. zoneless (fst tp)) ?ts" by (simp add: zoneless_def)
  have q: "parse_query (trim_space (take max_query_size ''ts.example:1'')) = (''ts.example'', 1)" by code_simp
  have "conn_written (snd (handle_query frag_regexp added (test_conn ''ts.example:1''))) =
      conn_written (test_conn ''ts.example:1'') @ join '' '' (map (target_text 1) ?ts)"
    by (rule cli_add_answered [OF table_laws mem_laws store_invar_servers(1) test_setup run ts _ z js len _ _ q])
       (simp_all add: test_conn_def)
  moreover have "join '' '' (map (target_text 1) ?ts) = ''10.0.0.1:9987 [2001:db8::1]:9988''" by code_simp
  ultimately show ?thesis by (simp add: test_conn_def)
qed

text \<open>
  C2: If \<open>records delete\<close> through the API returns without an error, then the record was
  stored, it is the only one removed, and no query is answered from it any more.
\<close>

theorem cli_delete_removes:
  assumes laws: "sql_laws db rows" "redis_laws rds keys" and inv: "store_invar rows keys (srv_repository s)"
    and cfg: "load_config (env_os env) (env_yaml env) (ro_config_path opts) = Inr cfg" "\<not> ro_direct opts"
    and reach: "reaches env (resolve_api_client (env_os env) cfg (ro_api_url opts) (ro_token opts)) remote api
        (core_manager (storage_repo db rds tc) eng now)"
    and run: "run_delete_record env opts domain s = (Inr (), s', st)" "domain \<notin> {''.'', ''..''}"
  shows "store_content rows keys (srv_repository s) (trim_space domain) \<noteq> None \<and>
    store_content rows keys (srv_repository s') =
      (store_content rows keys (srv_repository s))(trim_space domain := None) \<and>
    (\<forall>host r. lookup_record eng s' host = Some r \<longrightarrow> rec_domain r \<noteq> trim_space domain)"
proof -
  note repo = storage_record_repository [OF laws, of tc]
  note del = record_repository.delete_reaches_server [OF repo inv cfg reach run]
  show ?thesis using del current_hit [OF del(3)] by fastforce
qed

definition removed :: "((table, mem) store, rx_item list) server" where
  "removed = fst (snd (run_delete_record (test_env ''http://127.0.0.1:8080'' ''secret'') test_opts ''*.eu.ts'' sql_server))"

theorem cli_delete_removes_witness:
  "store_content tbl_rows mem_store (srv_repository removed) ''*.eu.ts'' = None"
proof -
  let ?env = "test_env ''http://127.0.0.1:8080'' ''secret''"
  have "is_ok (fst (run_delete_record ?env test_opts ''*.eu.ts'' sql_server))" by code_simp
  note run = ok_result [OF this, folded removed_def]
  have "trim_space ''*.eu.ts'' = ''*.eu.ts''" by code_simp
  with cli_delete_removes [OF table_laws mem_laws store_invar_servers(2) test_setup run] show ?thesis by simp
qed

text \<open>
  If \<open>records list\<close> through the API returns without an error, then what it prints are
  the stored records, each once and with every field of the record, as long as the texts in
  them are valid UTF-8 and the targets are addresses without a zone; the request changes
  neither the records nor the tables.
\<close>

lemma cli_list_shows:
  assumes laws: "sql_laws db rows" "redis_laws rds keys" and inv: "store_invar rows keys (srv_repository s)"
    and cfg: "load_config (env_os env) (env_yaml env) (ro_config_path opts) = Inr cfg" "\<not> ro_direct opts"
    and reach: "reaches env (resolve_api_client (env_os env) cfg (ro_api_url opts) (ro_token opts)) remote api
        (core_manager (storage_repo db rds tc) eng now)"
    and run: "run_list_records env opts s = (Inr out, s', st)"
    and stored: "repo_find (storage_repo db rds tc) (srv_repository s) = Inr rs"
      "list_all (record_text_ok (env_times env)) rs"
  shows "out = map Some rs \<and> distinct (map rec_domain rs) \<and>
    entries_of rs = store_content rows keys (srv_repository s) \<and>
    srv_repository s' = srv_repository s \<and> same_tables s' s"
proof -
  let ?ops = "storage_repo db rds tc"
  obtain resp error_text nil_list nil where h: "handle_records_list (core_manager ?ops eng now) s = (resp, s')"
    "resp_status resp = 200"
    "decode_records (env_times env) (body_text (env_times env) error_text nil_list nil (resp_body resp)) = Some out"
    by (rule list_via_api_served [OF reach run_list_ok [OF run cfg(2,1)]])
  have "out = map Some rs" by (rule listed_body [OF h(1,2) stored h(3)])
  moreover have "distinct (map rec_domain rs) \<and> entries_of rs = store_content rows keys (srv_repository s)"
    using record_repository.find_content [OF storage_record_repository [OF laws] inv stored(1)] by blast
  moreover have "srv_repository s' = srv_repository s \<and> same_tables s' s"
    using reading_handlers(1) [of ?ops eng now s] h(1) by (simp add: same_view_def)
  ultimately show ?thesis by blast
qed

lemma wild_records_text: "list_all (record_text_ok test_codec) wild_records"
proof -
  have seven: "itoa 7 = ''7''" "parse_int64 (escape_text ''7'') = Some 7" "sint (7 :: int64) = 7" by code_simp+
  have txts: "json_text ''7''" "json_text ''*.ts''" "json_text ''*.eu.ts''" "json_text ''a?.ts''" "json_text ''x.ts''"
    by (rule json_text_ascii, simp)+
  show ?thesis
    using seven txts
    by (simp add: wild_records_def wild_entries_def record_text_ok_def new_record_def test_codec_def
      test_target_def test_target6_def is_valid_def zoneless_def)
qed

text \<open>
  C11: A client whose token, trimmed, is not the configured one and whose requests arrive
  over TCP cannot list, store or delete records: each of these returns an error that shows
  the refusal of the server, and nothing has changed.
\<close>

theorem cli_refused:
  assumes reach: "reaches env client remote api mgr"
    and api: "trim_space (api_token api) \<noteq> []" "CHR '':'' \<in> set remote" "trim_space (cl_token client) \<noteq> api_token api"
    and transport: "cl_base_url client \<noteq> []" "\<And>req. is_ok (fst (env_http env (cl_socket client) req m))"
    and d: "d \<notin> {[], ''.'', ''..''}"
  shows "(\<exists>status. list_records_via_api env client m = (Inl (ErrAPIError ('' ('' @ status @ ''): unauthorized'')), m)) \<and>
    (\<exists>status. upsert_record_via_api env client r m = (Inl (ErrAPIError ('' ('' @ status @ ''): unauthorized'')), m)) \<and>
    (\<exists>status. delete_record_via_api env client d m = (Inl (ErrAPIError ('' ('' @ status @ ''): unauthorized'')), m))"
proof (intro conjI)
  note refused = refused_client [OF reach api transport(2)]
  let ?list = "\<lparr>hq_method = ''GET'', hq_url = cl_base_url client @ ''/api/v1/records'', hq_authorization = [],
      hq_content_type = [], hq_body = []\<rparr>"
  have seg: "req_segments (deliver (cl_base_url client) remote ?list) = [''api'', ''v1'', ''records'']"
    by (rule segments_records) simp
  show "\<exists>status. list_records_via_api env client m = (Inl (ErrAPIError ('' ('' @ status @ ''): unauthorized'')), m)"
    by (rule refused [of ?list]) (use transport(1) seg in \<open>auto simp: clean_segments_def list_records_via_api_def\<close>)
  let ?upsert = "\<lparr>hq_method = ''POST'', hq_url = cl_base_url client @ ''/api/v1/records'', hq_authorization = [],
      hq_content_type = ''application/json'', hq_body = upsert_payload r\<rparr>"
  have seg: "req_segments (deliver (cl_base_url client) remote ?upsert) = [''api'', ''v1'', ''records'']"
    by (rule segments_records) simp
  show "\<exists>status. upsert_record_via_api env client r m = (Inl (ErrAPIError ('' ('' @ status @ ''): unauthorized'')), m)"
    by (rule refused [of ?upsert])
       (use transport(1) seg in \<open>auto simp: clean_segments_def upsert_record_via_api_def success_status_def\<close>)
  let ?delete = "\<lparr>hq_method = ''DELETE'', hq_url = cl_base_url client @ ''/api/v1/records/'' @ path_escape d,
      hq_authorization = [], hq_content_type = [], hq_body = []\<rparr>"
  have seg: "req_segments (deliver (cl_base_url client) remote ?delete) = [''api'', ''v1'', ''records'', d]"
    by (rule segments_record) simp
  show "\<exists>status. delete_record_via_api env client d m = (Inl (ErrAPIError ('' ('' @ status @ ''): unauthorized'')), m)"
    by (rule refused [of ?delete])
       (use transport(1) seg d in \<open>auto simp: clean_segments_def delete_record_via_api_def success_status_def\<close>)
qed

theorem cli_refused_witness:
  "snd (delete_record_via_api (test_env ''http://127.0.0.1:8080'' ''other'')
     \<lparr>cl_socket = None, cl_base_url = ''http://127.0.0.1:8080'', cl_token = ''secret''\<rparr> ''*.ts'' sql_server) = sql_server"
proof -
  let ?env = "test_env ''http://127.0.0.1:8080'' ''other''"
  let ?client = "\<lparr>cl_socket = None, cl_base_url = ''http://127.0.0.1:8080'', cl_token = ''secret''\<rparr>"
  have reach: "reaches ?env ?client ''10.0.0.9:5000'' (test_api ''other'') (core_manager test_ops frag_regexp 7)"
    using test_reaches [of "''other''"] by (simp add: test_client)
  have tokens: "trim_space (api_token (test_api ''other'')) \<noteq> []"
    "trim_space (cl_token ?client) \<noteq> api_token (test_api ''other'')" by code_simp+
  have transport: "is_ok (fst (env_http ?env (cl_socket ?client) req sql_server))" for req
    by (simp add: test_env_def case_prod_unfold Let_def)
  from cli_refused [OF reach tokens(1) _ tokens(2) _ transport, where d = "''*.ts''" and r = "new_record 1 ''x.ts'' []"]
  show ?thesis by auto
qed

section \<open>Ways to enter a record\<close>

text \<open>
  Every target that reaches a repository has an address: those of the command line, of
  the body of a request and of the imported file.
\<close>

lemma targets_valid:
  "list_all (\<lambda>t. is_valid (fst t)) (case flag_targets port ps of Inl e \<Rightarrow> [] | Inr ts \<Rightarrow> ts) \<and>
   list_all (\<lambda>t. is_valid (fst t)) (case request_targets port ps of Inl e \<Rightarrow> [] | Inr ts \<Rightarrow> ts) \<and>
   list_all (\<lambda>t. is_valid (fst t)) (case import_targets s of Inl e \<Rightarrow> [] | Inr ts \<Rightarrow> ts)"
  by (auto dest: flag_targets_valid request_targets_valid import_targets_valid split: sum.split)

lemma trim_set_absent: "set s \<inter> set cs = {} \<Longrightarrow> trim_set s cs = s"
  by (simp add: trim_set_def disjoint_iff) (metis dropWhile_eq_self_iff hd_in_set rev_rev_ident set_rev)

text \<open>
  C37: The flag \<open>--port\<close> is not checked against the range of ports but cut to 16 bits, so a
  port outside it becomes another one, which the API then sees as part of the target; a
  request with the same number as its port is refused.
\<close>

theorem cli_port_truncated:
  assumes "sint port \<notin> {0..65535}"
  shows "flag_targets port [addr_string (Addr4 a b c d)] = Inr [(Addr4 a b c d, ucast port)] \<and>
    uint (ucast port :: uint16) = sint port mod 65536 \<and>
    validate_upsert_request \<lparr>rq_domain = dn, rq_targets = ts, rq_instance_id = i, rq_port = port\<rparr> \<noteq> Inr ()"
proof (intro conjI)
  let ?s = "string4 a b c d"
  have none: "last_index_byte (CHR '':'') ?s = None" using string4_not_in by simp
  have "parse_addr_port ?s = None" unfolding parse_addr_port_def split_addr_port_def none by simp
  moreover have "trim_set ?s ''[] '' = ?s" by (rule trim_set_absent) (use string4_not_in in auto)
  ultimately show "flag_targets port [addr_string (Addr4 a b c d)] = Inr [(Addr4 a b c d, ucast port)]"
    by (simp add: flag_target_def parse_addr_string4)
  have "uint port = sint port mod 2 ^ 32" unfolding uint_sint take_bit_eq_mod by simp
  then show "uint (ucast port :: uint16) = sint port mod 65536"
    by (simp add: unsigned_ucast_eq take_bit_eq_mod mod_mod_cancel)
  show "validate_upsert_request \<lparr>rq_domain = dn, rq_targets = ts, rq_instance_id = i, rq_port = port\<rparr> \<noteq> Inr ()"
    using assms by (auto simp: validate_upsert_request_def)
qed

theorem cli_port_truncated_witness:
  "flag_targets 70000 [addr_string (Addr4 10 0 0 1)] = Inr [(Addr4 10 0 0 1, 4464)]"
proof -
  have "sint (70000 :: int32) = 70000" "(ucast (70000 :: int32) :: uint16) = 4464" by code_simp+
  then have "sint (70000 :: int32) \<notin> {0..65535}" "(ucast (70000 :: int32) :: uint16) = 4464" by simp_all
  with cli_port_truncated [OF this(1)] show ?thesis by metis
qed

section \<open>The process\<close>

text \<open>
  C35: A process that serves has a loaded configuration, the repository it names, the
  refresh interval and the level and format of the log it states, empty tables, and an admin API with the configured token and
  at least one listener. It panics before that only for a listen address that does not
  resolve, and fails for what is wrong with the configuration, the storage or the interval.
\<close>

theorem serve_starts:
  "case run_serve env senv path of
     Failed err \<Rightarrow>
       load_config (env_os env) (env_yaml env) path = Inl err \<or>
       (\<exists>cfg. load_config (env_os env) (env_yaml env) path = Inr cfg \<and>
          (open_storage (env_backends env) (cfg_dsn (cfg_storage cfg)) = Inl err \<or>
           err = ErrInvalidInterval \<and> parse_duration (cfg_cache_refresh_interval (cfg_tsdns cfg)) = None))
   | Panicked err \<Rightarrow> err = ErrInvalidListen \<and>
       (\<exists>cfg err'. load_config (env_os env) (env_yaml env) path = Inr cfg \<and>
          srv_resolve senv (cfg_listen (cfg_tsdns cfg)) = Inl err')
   | Serving s api \<Rightarrow>
       \<exists>cfg backend. load_config (env_os env) (env_yaml env) path = Inr cfg \<and>
         open_storage (env_backends env) (cfg_dsn (cfg_storage cfg)) = Inr (srv_repository s, backend) \<and>
         parse_duration (cfg_cache_refresh_interval (cfg_tsdns cfg)) = Some (srv_cache_refresh_interval s) \<and>
         srv_addr s = cfg_listen (cfg_tsdns cfg) \<and> is_ok (srv_resolve senv (srv_addr s)) \<and>
         srv_cache s = Map.empty \<and> srv_regex_records s = [] \<and> srv_wildcard_records s = [] \<and>
         srv_logger s = setup_logger (cfg_log cfg) \<and>
         api_token api = cfg_api_token (cfg_api cfg) \<and>
         fst (listen_and_serve free_sockets api fs) \<in> {Inr (True, True), Inr (True, False), Inr (False, True)}"
proof (cases "load_config (env_os env) (env_yaml env) path")
  case cfg: (Inr cfg)
  then obtain c0 where "validate_config cfg = Inr ()" by (rule load_config_okE)
  then have api: "trim_space (cfg_api_listen (cfg_api cfg)) \<noteq> [] \<or> trim_space (cfg_api_socket (cfg_api cfg)) \<noteq> []"
    by (simp add: validate_config_iff)
  show ?thesis
  proof (cases "open_storage (env_backends env) (cfg_dsn (cfg_storage cfg))")
    case st: (Inr rb)
    obtain repo backend where rb: "rb = (repo, backend)" by fastforce
    show ?thesis
    proof (cases "parse_duration (cfg_cache_refresh_interval (cfg_tsdns cfg))")
      case (Some interval)
      with cfg st rb api show ?thesis
        by (cases "srv_resolve senv (cfg_listen (cfg_tsdns cfg))")
           (auto simp: run_serve_def must_build_def build_def with_metrics_def with_logger_def with_cache_refresh_interval_def
             with_repository_def new_server_addr_def new_server_value_def set_repository_def start_admin_api_def new_api_server_def
             listen_and_serve_def free_sockets_def Let_def)
    qed (simp add: run_serve_def cfg st rb)
  qed (simp add: run_serve_def cfg)
qed (simp add: run_serve_def)

text \<open>
  C36: A tick of the cache updater makes the tables current for a repository that can be
  listed, however stale they were, and they stay so until the updater is cancelled and
  after that.
\<close>

theorem updater_converges:
  assumes laws: "sql_laws db rows" "redis_laws rds keys" and inv: "store_invar rows keys (srv_repository s)"
    and find: "repo_find (storage_repo db rds tc) (srv_repository s) = Inr rs" and tick: "Done \<notin> set es"
  shows "current (store_content rows keys) eng (cache_updater (storage_repo db rds tc) eng (es @ Tick # es') s)"
proof -
  let ?ops = "storage_repo db rds tc" and ?current = "current (store_content rows keys) eng"
  note repo = storage_record_repository [OF laws, of tc]
  have load: "?current (snd (load_cache ?ops eng s')) \<and> srv_repository (snd (load_cache ?ops eng s')) = srv_repository s'"
    if "srv_repository s' = srv_repository s" for s'
  proof -
    have "repo_find ?ops (srv_repository s') = Inr rs" using find that by simp
    from load_cache_Inr(1) [OF this] have "load_cache ?ops eng s' = (Inr (), snd (load_cache ?ops eng s'))"
      by (simp add: prod_eq_iff)
    from record_repository.load_current [OF repo _ this] inv that show ?thesis by simp
  qed
  have keep: "?current (cache_updater ?ops eng es' s')" if "?current s'" "srv_repository s' = srv_repository s" for es' s'
    using that
  proof (induction es' arbitrary: s')
    case (Cons e es')
    then show ?case using load [of s'] by (cases e) simp_all
  qed simp
  have "?current (cache_updater ?ops eng (es @ Tick # es') s')" if "srv_repository s' = srv_repository s" for s'
    using that tick
  proof (induction es arbitrary: s')
    case Nil
    then show ?case using load [of s'] keep by simp
  next
    case (Cons e es)
    then show ?case by (cases e) simp_all
  qed
  then show ?thesis by simp
qed

theorem updater_converges_witness:
  "current (store_content tbl_rows mem_store) frag_regexp
     (cache_updater test_ops frag_regexp [Tick, Done, Tick] sql_server)"
proof -
  have "is_ok (repo_find test_ops (srv_repository sql_server))" by code_simp
  then obtain rs where "repo_find test_ops (srv_repository sql_server) = Inr rs" by blast
  from updater_converges [OF table_laws mem_laws store_invar_servers(2) this, of "[]" frag_regexp "[Done, Tick]"]
  show ?thesis by simp
qed

end
