(* ===== verification/Json_Indent.thy ===== *)
theory Json_Indent
  imports Wire
begin

text \<open>
  \<open>json.MarshalIndent\<close> with two blanks, as \<open>printJSON\<close> of \<open>internal/cli/records.go\<close> calls it,
  and that its text is read back as the same value.
\<close>

section \<open>Printing\<close>

text \<open>\<open>nl\<close> is the line break with the indentation of the enclosing value.\<close>

fun indent_json :: "string \<Rightarrow> json \<Rightarrow> string" where
  "indent_json nl JNull = ''null''"
| "indent_json nl (JBool b) = (if b then ''true'' else ''false'')"
| "indent_json nl (JNum n) = n"
| "indent_json nl (JStr raw s) = [CHR 0x22] @ raw @ [CHR 0x22]"
| "indent_json nl (JArr vs) =
     (if vs = [] then ''[]''
      else let nl' = nl @ ''  '' in
        ''['' @ nl' @ join ('','' @ nl') (map (indent_json nl') vs) @ nl @ '']'')"
| "indent_json nl (JObj ms) =
     (if ms = [] then ''{}''
      else let nl' = nl @ ''  '' in
        ''{'' @ nl' @ join ('','' @ nl') (map (\<lambda>(k, v). encode_string k @ '': '' @ indent_json nl' v) ms) @ nl @ ''}'')"

definition marshal_indent :: "json \<Rightarrow> string" where
  "marshal_indent v = indent_json [CHR 0x0A] v"

text \<open>What is written to the output: the text and a line break.\<close>

definition print_json :: "json \<Rightarrow> string" where
  "print_json v = marshal_indent v @ [CHR 0x0A]"

text \<open>The records of a listing; a nil pointer among them is null.\<close>

definition listing_json :: "time_codec \<Rightarrow> bool \<Rightarrow> (tsrecord \<Rightarrow> bool) \<Rightarrow> tsrecord option list \<Rightarrow> json" where
  "listing_json tc nil_list nil rs =
     (if rs = [] \<and> nil_list then JNull
      else JArr (map (\<lambda>ro. case ro of None \<Rightarrow> JNull | Some r \<Rightarrow> record_json tc (nil r) r) rs))"

section \<open>Reading back\<close>

abbreviation blank_text :: "string \<Rightarrow> bool" where
  "blank_text sp \<equiv> list_all is_json_space sp"

lemma skip_blank: "blank_text sp \<Longrightarrow> skip_space (sp @ t) = skip_space t"
  by (induction sp) (simp_all add: skip_space_def)

lemma json_stop_blank: "blank_text sp \<Longrightarrow> c \<in> {CHR '','', CHR '']'', CHR ''}''} \<Longrightarrow> json_stop (sp @ c # t)"
  by (cases sp) (auto simp: json_stop_def)

lemma blank_pair: "is_json_space (CHR '' '')"
  by (simp add: is_json_space_def)

lemma json_list_spaced:
  assumes "xs \<noteq> []" "close \<in> {CHR '']'', CHR ''}''}" "blank_text sp" "blank_text sp'" "blank_text sp0"
    and "\<And>x t. \<lbrakk>x \<in> set xs; json_stop t\<rbrakk> \<Longrightarrow> p (enc x @ t) = Some (x, t)"
    and "\<And>x. x \<in> set xs \<Longrightarrow> enc x \<noteq> [] \<and> value_start (hd (enc x))"
  shows "json_list close p (sp0 @ join ('','' @ sp) (map enc xs) @ sp' @ close # t) = Some (xs, t)"
  using assms(1,5-7)
proof (induction xs arbitrary: sp0)
  case (Cons x xs)
  have punct: "skip_space (CHR '','' # u) = CHR '','' # u" "skip_space (sp' @ close # u) = close # u"
    "json_stop (sp' @ close # u)" "close \<noteq> CHR '',''" for u
    using assms(2) skip_blank [OF assms(4)] json_stop_blank [OF assms(4)]
    by (auto simp: skip_space_def is_json_space_def)
  have start: "skip_space (sp0 @ enc x @ u) = enc x @ u" for u
    using Cons.prems(4) [of x] skip_space_start [of "enc x @ u"]
    by (auto simp: skip_blank [OF Cons.prems(2)] value_start_def)
  show ?case
  proof (cases xs)
    case Nil
    with Cons.prems(3) [of x "sp' @ close # t"] start punct show ?thesis by (subst json_list.simps) simp
  next
    case (Cons y ys)
    with Cons.IH [OF _ assms(3)] Cons.prems Cons.prems(3) [of x "CHR '','' # u" for u] start punct show ?thesis
      by (subst json_list.simps) (simp add: join_Cons)
  qed
qed simp

lemma json_list_or_empty_spaced:
  assumes "xs \<noteq> []" "close \<in> {CHR '']'', CHR ''}''}" "blank_text sp" "blank_text sp'"
    and "\<And>x t. \<lbrakk>x \<in> set xs; json_stop t\<rbrakk> \<Longrightarrow> p (enc x @ t) = Some (x, t)"
    and "\<And>x. x \<in> set xs \<Longrightarrow> enc x \<noteq> [] \<and> value_start (hd (enc x))"
  shows "json_list_or_empty close p (sp @ join ('','' @ sp) (map enc xs) @ sp' @ close # t) = Some (xs, t)"
proof -
  obtain x ys where x: "xs = x # ys" using assms(1) by (cases xs) auto
  then obtain c u where c: "join ('','' @ sp) (map enc xs) = c # u" "value_start c"
    using assms(6) [of x] by (cases ys; cases "enc x") auto
  then have "skip_space (sp @ c # u @ sp' @ close # t) = c # u @ sp' @ close # t" "c \<noteq> close"
    using assms(2) by (auto simp: skip_blank [OF assms(3)] skip_space_start value_start_def)
  then have "json_list_or_empty close p (sp @ join ('','' @ sp) (map enc xs) @ sp' @ close # t) =
      json_list close p ([] @ join ('','' @ sp) (map enc xs) @ sp' @ close # t)"
    using c by (simp add: json_list_or_empty_def Let_def)
  with json_list_spaced [OF assms(1-4) _ assms(5,6), of "[]"] show ?thesis by simp
qed

lemma indent_json_start: "json_ok d v \<Longrightarrow> indent_json nl v \<noteq> [] \<and> value_start (hd (indent_json nl v))"
proof (cases v)
  case (JNum n)
  moreover assume "json_ok d v"
  ultimately show ?thesis using encode_json_start [of d v] by simp
qed (auto simp: value_start_def is_json_space_def Let_def)

lemma json_member_spaced:
  assumes "json_text k" "\<And>t. json_stop t \<Longrightarrow> p (indent_json nl v @ t) = Some (v, t)" "json_ok d v" "json_stop t"
  shows "json_member p ((encode_string k @ '': '' @ indent_json nl v) @ t) = Some ((k, v), t)"
proof -
  have "string_body (concat (map escape_chunk (chunks k)) @ CHR 0x22 # u) = Some (k, u)" for u
    using string_body_encoded [of "chunks k"] assms(1) by (simp add: json_text_def)
  moreover have "skip_space (CHR '':'' # u) = CHR '':'' # u" for u by (simp add: skip_space_def is_json_space_def)
  moreover have "skip_space (CHR '' '' # indent_json nl v @ t) = indent_json nl v @ t"
    using indent_json_start [OF assms(3), of nl] skip_space_start [of "indent_json nl v @ t"]
      skip_blank [of "'' ''" "indent_json nl v @ t"]
    by (auto simp: value_start_def is_json_space_def)
  ultimately show ?thesis using assms(2) [OF assms(4)] by (simp add: json_member_def encode_string_def)
qed

lemma json_value_scalar:
  "\<lbrakk>json_ok d v; json_stop t; \<forall>vs. v \<noteq> JArr vs; \<forall>ms. v \<noteq> JObj ms\<rbrakk> \<Longrightarrow>
   json_value d (indent_json nl v @ t) = Some (v, t)"
  using json_value_encoded [of d v t] by (cases v) auto

lemma json_value_indented:
  "\<lbrakk>json_ok d v; json_stop t; blank_text nl\<rbrakk> \<Longrightarrow> json_value d (indent_json nl v @ t) = Some (v, t)"
proof (induction nl v arbitrary: d t rule: indent_json.induct)
  case (5 nl vs)
  then obtain d' where d: "d = Suc d'" by (cases d) auto
  let ?nl = "nl @ ''  ''"
  have blank: "blank_text ?nl" using 5(4) by (simp add: blank_pair)
  show ?case
  proof (cases "vs = []")
    case True
    with d show ?thesis
      by (simp add: json_value.simps json_list_or_empty_def skip_space_def is_json_space_def)
  next
    case False
    have "json_list_or_empty (CHR '']'') (json_value d')
        (?nl @ join ('','' @ ?nl) (map (indent_json ?nl) vs) @ nl @ CHR '']'' # t) = Some (vs, t)"
    proof (rule json_list_or_empty_spaced [OF False])
      fix x u
      assume "x \<in> set vs" "json_stop u"
      with 5(1) [OF False refl] 5(2) d blank show "json_value d' (indent_json ?nl x @ u) = Some (x, u)" by simp
    next
      fix x
      assume "x \<in> set vs"
      with 5(2) d show "indent_json ?nl x \<noteq> [] \<and> value_start (hd (indent_json ?nl x))"
        by (intro indent_json_start [of d']) simp
    qed (use blank 5(4) in simp_all)
    with False d show ?thesis by (simp add: json_value.simps Let_def)
  qed
next
  case (6 nl ms)
  then obtain d' where d: "d = Suc d'" by (cases d) auto
  let ?nl = "nl @ ''  ''"
  let ?enc = "\<lambda>(k, v). encode_string k @ '': '' @ indent_json ?nl v"
  have blank: "blank_text ?nl" using 6(4) by (simp add: blank_pair)
  show ?case
  proof (cases "ms = []")
    case True
    with d show ?thesis
      by (simp add: json_value.simps json_list_or_empty_def skip_space_def is_json_space_def)
  next
    case False
    have "json_list_or_empty (CHR ''}'') (json_member (json_value d'))
        (?nl @ join ('','' @ ?nl) (map ?enc ms) @ nl @ CHR ''}'' # t) = Some (ms, t)"
    proof (rule json_list_or_empty_spaced [OF False])
      fix m u
      assume m: "m \<in> set ms" "json_stop u"
      obtain k v where kv: "m = (k, v)" by (cases m)
      with m 6(2) d have ok: "json_text k" "json_ok d' v" by auto
      have "json_value d' (indent_json ?nl v @ u) = Some (v, u)" if "json_stop u" for u
        using 6(1) [OF False refl m(1)] kv ok(2) that blank by auto
      from json_member_spaced [OF ok(1) this ok(2) m(2)] kv
      show "json_member (json_value d') (?enc m @ u) = Some (m, u)" by simp
    next
      fix m
      show "?enc m \<noteq> [] \<and> value_start (hd (?enc m))"
        by (cases m) (simp add: encode_string_def value_start_def is_json_space_def)
    qed (use blank 6(4) in simp_all)
    with False d show ?thesis by (simp add: json_value.simps Let_def)
  qed
qed (auto simp: json_value_scalar simp del: indent_json.simps)

text \<open>What is printed of a listing is decoded to it.\<close>

lemma decode_listing [roundtrip]:
  assumes "list_all (\<lambda>ro. case ro of None \<Rightarrow> True | Some r \<Rightarrow> record_text_ok tc r) rs"
  shows "decode_records tc (print_json (listing_json tc nil_list nil rs)) = Some rs"
proof -
  let ?v = "listing_json tc nil_list nil rs"
  let ?enc = "\<lambda>ro. case ro of None \<Rightarrow> JNull | Some r \<Rightarrow> record_json tc (nil r) r"
  have ok: "json_ok max_nesting_depth ?v"
    using assms record_json_ok [of tc _ 9999]
    by (auto simp: listing_json_def max_nesting_depth_def list_all_iff split: option.splits)
  have "json_value max_nesting_depth (marshal_indent ?v @ [CHR 0x0A]) = Some (?v, [CHR 0x0A])"
    unfolding marshal_indent_def
    by (rule json_value_indented [OF ok]) (simp_all add: json_stop_def is_json_space_def)
  moreover have "skip_space (marshal_indent ?v @ [CHR 0x0A]) = marshal_indent ?v @ [CHR 0x0A]"
    using indent_json_start [OF ok, of "[CHR 0x0A]"] unfolding marshal_indent_def
    by (intro skip_space_start) (auto simp: value_start_def)
  moreover have "map_result (decode_record tc) (map ?enc rs) = Some rs"
    using map_result_map [of rs "decode_record tc" ?enc "\<lambda>x. x"] assms decode_record_json [of tc]
    by (auto simp: list_all_iff decode_record_def [of tc JNull] split: option.splits)
  ultimately show ?thesis by (auto simp: decode_records_def print_json_def listing_json_def)
qed

end
