(* ===== verification/Root.thy ===== *)
theory Root
  imports Serve Json_Indent
begin

text \<open>
  The command line as a whole: the tree of commands with their flags that \<open>NewRootCommand\<close>
  of \<open>internal/cli\<close> builds, what each command does with the values of its flags, and how
  \<open>Execute\<close> ends the process. The command library that finds the command of an argument list
  and reads its flags is a parameter.
\<close>

section \<open>Flags and commands\<close>

datatype flag_value = StringFlag string | Int32Flag int32 | Int64Flag int64 | BoolFlag bool

text \<open>A declared flag: its name, its shorthand (empty for none) and its default.\<close>

record flag =
  flag_name :: string
  flag_short :: string
  flag_default :: flag_value

text \<open>The variables that the flags are bound to, by the names of the flags.\<close>

type_synonym flags = "string \<Rightarrow> flag_value option"

definition string_var :: "string \<Rightarrow> flags \<Rightarrow> string" where
  "string_var name fl = (case fl name of Some (StringFlag s) \<Rightarrow> s | _ \<Rightarrow> [])"

definition int32_var :: "string \<Rightarrow> flags \<Rightarrow> int32" where
  "int32_var name fl = (case fl name of Some (Int32Flag i) \<Rightarrow> i | _ \<Rightarrow> 0)"

definition int64_var :: "string \<Rightarrow> flags \<Rightarrow> int64" where
  "int64_var name fl = (case fl name of Some (Int64Flag i) \<Rightarrow> i | _ \<Rightarrow> 0)"

definition bool_var :: "string \<Rightarrow> flags \<Rightarrow> bool" where
  "bool_var name fl = (case fl name of Some (BoolFlag b) \<Rightarrow> b | _ \<Rightarrow> False)"

text \<open>
  A command: its word, the flags for it and the commands below it, the flags for itself, the
  required ones among these, what it runs on the values of the flags, and the commands below.
\<close>

datatype 'r command =
  Command (cmd_use: string) (cmd_persistent: "flag list") (cmd_flags: "flag list") (cmd_required: "string list")
    (cmd_run: "(flags \<Rightarrow> 'r) option") (cmd_children: "'r command list")

definition str_flag :: "string \<Rightarrow> flag" where
  "str_flag name = \<lparr>flag_name = name, flag_short = [], flag_default = StringFlag []\<rparr>"

definition int32_flag :: "string \<Rightarrow> flag" where
  "int32_flag name = \<lparr>flag_name = name, flag_short = [], flag_default = Int32Flag 0\<rparr>"

definition int64_flag :: "string \<Rightarrow> flag" where
  "int64_flag name = \<lparr>flag_name = name, flag_short = [], flag_default = Int64Flag 0\<rparr>"

definition bool_flag :: "string \<Rightarrow> flag" where
  "bool_flag name = \<lparr>flag_name = name, flag_short = [], flag_default = BoolFlag False\<rparr>"

section \<open>What a command does\<close>

text \<open>
  How a command ends: it returns, it panics, or it serves until \<open>serve_end\<close>. Beside the
  ending there is what it wrote to the standard output, the state behind the HTTP transport
  and the storage it opened.
\<close>

datatype ('r, 'x) ending =
    Returned "error + unit"
  | Panics error
  | Runs "('r, 'x) server" api_server

record ('d, 'e, 'h, 'x) effect =
  ef_ending :: "(('d, 'e) store, 'x) ending"
  ef_output :: string
  ef_remote :: 'h
  ef_store :: "('d, 'e) store option"

text \<open>
  What a command starts from: the clock (\<open>w_clock k\<close> is its \<open>k\<close>-th reading), the state behind
  the transport, and which slices are nil, which only their printing tells.
\<close>

record 'h world =
  w_clock :: "nat \<Rightarrow> time"
  w_remote :: 'h
  w_nil_list :: bool
  w_nil_targets :: "tsrecord \<Rightarrow> bool"

type_synonym ('d, 'e, 'h, 'x) action = "'h world \<Rightarrow> ('d, 'e, 'h, 'x) effect"

definition effect :: "'h \<Rightarrow> ('d, 'e) store option \<Rightarrow> string \<Rightarrow> error + unit \<Rightarrow> ('d, 'e, 'h, 'x) effect" where
  "effect h st out res = \<lparr>ef_ending = Returned res, ef_output = out, ef_remote = h, ef_store = st\<rparr>"

section \<open>The commands\<close>

definition new_serve_command ::
  "('d, 'e, 'h) cli_env \<Rightarrow> 'a serve_env \<Rightarrow> (flags \<Rightarrow> string) \<Rightarrow> ('d, 'e, 'h, 'x) action command" where
  "new_serve_command env senv config_path =
     Command ''serve'' [] [] []
       (Some (\<lambda>fl w. case run_serve env senv (config_path fl) of
                Failed err \<Rightarrow> effect (w_remote w) None [] (Inl err)
              | Panicked err \<Rightarrow> (effect (w_remote w) None [] (Inr ()))\<lparr>ef_ending := Panics err\<rparr>
              | Serving s api \<Rightarrow>
                  (effect (w_remote w) (Some (srv_repository s)) [] (Inr ()))\<lparr>ef_ending := Runs s api\<rparr>))
       []"

definition new_migrate_command ::
  "('d, 'e, 'h) cli_env \<Rightarrow> (flags \<Rightarrow> string) \<Rightarrow> ('d, 'e, 'h, 'x) action command" where
  "new_migrate_command env config_path =
     Command ''migrate'' [] [str_flag ''dsn''] []
       (Some (\<lambda>fl w. case run_migrate env (config_path fl) (string_var ''dsn'' fl) of
                (res, st) \<Rightarrow> effect (w_remote w) st [] res))
       []"

definition new_records_add_command ::
  "('d, 'e, 'h) cli_env \<Rightarrow> (flags \<Rightarrow> records_options) \<Rightarrow> ('d, 'e, 'h, 'x) action command" where
  "new_records_add_command env opts =
     Command ''add'' [] [str_flag ''domain'', str_flag ''target'', int32_flag ''port'', int64_flag ''instance-id'']
       [''domain'', ''target'']
       (Some (\<lambda>fl w. case run_add_record env (opts fl) (w_clock w 0) (string_var ''domain'' fl) (string_var ''target'' fl)
                            (int32_var ''port'' fl) (int64_var ''instance-id'' fl) (w_remote w) of
                (res, h, st) \<Rightarrow> effect h st [] res))
       []"

definition new_records_delete_command ::
  "('d, 'e, 'h) cli_env \<Rightarrow> (flags \<Rightarrow> records_options) \<Rightarrow> ('d, 'e, 'h, 'x) action command" where
  "new_records_delete_command env opts =
     Command ''delete'' [] [str_flag ''domain''] [''domain'']
       (Some (\<lambda>fl w. case run_delete_record env (opts fl) (string_var ''domain'' fl) (w_remote w) of
                (res, h, st) \<Rightarrow> effect h st [] res))
       []"

definition new_records_list_command ::
  "('d, 'e, 'h) cli_env \<Rightarrow> (flags \<Rightarrow> records_options) \<Rightarrow> ('d, 'e, 'h, 'x) action command" where
  "new_records_list_command env opts =
     Command ''list'' [] [] []
       (Some (\<lambda>fl w. case run_list_records env (opts fl) (w_remote w) of
                (Inl err, h, st) \<Rightarrow> effect h st [] (Inl err)
              | (Inr recs, h, st) \<Rightarrow>
                  effect h st (print_json (listing_json (env_times env) (w_nil_list w) (w_nil_targets w) recs)) (Inr ())))
       []"

text \<open>The options that the commands below \<open>records\<close> share.\<close>

definition options_of :: "(flags \<Rightarrow> string) \<Rightarrow> flags \<Rightarrow> records_options" where
  "options_of config_path fl =
     \<lparr>ro_config_path = config_path fl, ro_api_url = string_var ''api-url'' fl,
      ro_token = string_var ''token'' fl, ro_direct = bool_var ''direct'' fl\<rparr>"

definition new_records_command ::
  "('d, 'e, 'h) cli_env \<Rightarrow> (flags \<Rightarrow> string) \<Rightarrow> ('d, 'e, 'h, 'x) action command" where
  "new_records_command env config_path =
     (let opts = options_of config_path
      in Command ''records'' [str_flag ''api-url'', str_flag ''token'', bool_flag ''direct''] [] [] None
           [new_records_add_command env opts, new_records_delete_command env opts, new_records_list_command env opts])"

text \<open>\<open>import tsdns-ini\<close>; a line is written only when there is no error.\<close>

definition new_import_tsdns_ini_command ::
  "('d, 'e, 'h) cli_env \<Rightarrow> (flags \<Rightarrow> string) \<Rightarrow> ('d, 'e, 'h, 'x) action command" where
  "new_import_tsdns_ini_command env config_path =
     Command ''tsdns-ini'' [] [str_flag ''input'', str_flag ''dsn'', int64_flag ''instance-id'', bool_flag ''dry-run'']
       [''input'']
       (Some (\<lambda>fl w. case run_import env (w_clock w) (config_path fl) (string_var ''input'' fl) (string_var ''dsn'' fl)
                            (int64_var ''instance-id'' fl) (bool_var ''dry-run'' fl) of
                (Inl err, st) \<Rightarrow> effect (w_remote w) st [] (Inl err)
              | (Inr line, st) \<Rightarrow> effect (w_remote w) st (line @ [CHR 0x0A]) (Inr ())))
       []"

definition new_import_command ::
  "('d, 'e, 'h) cli_env \<Rightarrow> (flags \<Rightarrow> string) \<Rightarrow> ('d, 'e, 'h, 'x) action command" where
  "new_import_command env config_path =
     Command ''import'' [] [] [] None [new_import_tsdns_ini_command env config_path]"

text \<open>The variables that the linker sets, and what they are without it.\<close>

record build_info =
  bi_version :: string
  bi_commit :: string
  bi_date :: string

definition default_build :: build_info where
  "default_build = \<lparr>bi_version = ''dev'', bi_commit = ''none'', bi_date = ''unknown''\<rparr>"

definition build_version :: "build_info \<Rightarrow> string" where
  "build_version bi = bi_version bi @ '' (commit='' @ bi_commit bi @ '', date='' @ bi_date bi @ '')''"

definition new_version_command :: "build_info \<Rightarrow> ('d, 'e, 'h, 'x) action command" where
  "new_version_command bi =
     Command ''version'' [] [] []
       (Some (\<lambda>fl w. effect (w_remote w) None (build_version bi @ [CHR 0x0A]) (Inr ()))) []"

definition new_root_command ::
  "('d, 'e, 'h) cli_env \<Rightarrow> 'a serve_env \<Rightarrow> build_info \<Rightarrow> ('d, 'e, 'h, 'x) action command" where
  "new_root_command env senv bi =
     (let config_path = string_var ''config''
      in Command ''tsdns'' [\<lparr>flag_name = ''config'', flag_short = ''c'', flag_default = StringFlag []\<rparr>] [] [] None
           [new_serve_command env senv config_path, new_migrate_command env config_path,
            new_records_command env config_path, new_import_command env config_path, new_version_command bi])"

section \<open>Execution\<close>

text \<open>
  The command at a path, with the flags that it takes: its own and the persistent ones of the
  commands above it.
\<close>

fun find_command :: "flag list \<Rightarrow> 'r command \<Rightarrow> string list \<Rightarrow> ('r command \<times> flag list) option" where
  "find_command outer c [] = Some (c, outer @ cmd_persistent c @ cmd_flags c)"
| "find_command outer c (word # path) =
     (case List.find (\<lambda>c. cmd_use c = word) (cmd_children c) of
        None \<Rightarrow> None
      | Some child \<Rightarrow> find_command (outer @ cmd_persistent c) child path)"

text \<open>The values of the flags: the given ones over the defaults.\<close>

definition flag_values :: "flag list \<Rightarrow> (string \<times> flag_value) list \<Rightarrow> flags" where
  "flag_values decls given = map_of (map (\<lambda>f. (flag_name f, flag_default f)) decls) ++ map_of (rev given)"

text \<open>
  The library on a list of arguments: it refuses them, or it shows a help text, or it selects
  a command by its path and has read the given flags, in their order.
\<close>

type_synonym 'r cobra = "'r command \<Rightarrow> string list \<Rightarrow> error + (string list \<times> (string \<times> flag_value) list) option"

text \<open>\<open>Execute\<close> of the library on the root command.\<close>

definition execute_root ::
  "('d, 'e, 'h, 'x) action cobra \<Rightarrow> ('d, 'e, 'h, 'x) action command \<Rightarrow> string list \<Rightarrow> ('d, 'e, 'h, 'x) action" where
  "execute_root cobra root args w =
     (case cobra root args of
        Inl err \<Rightarrow> effect (w_remote w) None [] (Inl err)
      | Inr None \<Rightarrow> effect (w_remote w) None [] (Inr ())
      | Inr (Some (path, given)) \<Rightarrow>
          (case find_command [] root path of
             None \<Rightarrow> effect (w_remote w) None [] (Inl (ErrExternal ''command''))
           | Some (c, decls) \<Rightarrow>
               (case cmd_run c of
                  None \<Rightarrow> effect (w_remote w) None [] (Inr ())
                | Some f \<Rightarrow> f (flag_values decls given) w)))"

text \<open>The status of the process, if it ends: 1 for an error, 2 for a panic.\<close>

definition exit_status :: "('r, 'x) ending \<Rightarrow> nat option" where
  "exit_status e =
     (case e of
        Returned (Inl err) \<Rightarrow> Some 1
      | Returned (Inr u) \<Rightarrow> Some 0
      | Panics err \<Rightarrow> Some 2
      | Runs s api \<Rightarrow> None)"

definition main_program ::
  "('d, 'e, 'h, 'x) action cobra \<Rightarrow> ('d, 'e, 'h) cli_env \<Rightarrow> 'a serve_env \<Rightarrow> build_info \<Rightarrow> string list \<Rightarrow>
   'h world \<Rightarrow> nat option \<times> ('d, 'e, 'h, 'x) effect" where
  "main_program cobra env senv bi args w =
     (let e = execute_root cobra (new_root_command env senv bi) args w
      in (exit_status (ef_ending e), e))"

section \<open>Lemmas\<close>

text \<open>
  The tree is one that the library accepts: on every path the names and the shorthands of the
  flags differ, the words of the commands below one command differ, and the required flags are
  declared, so the dropped errors of \<open>MarkFlagRequired\<close> do not occur.
\<close>

fun command_ok :: "flag list \<Rightarrow> 'r command \<Rightarrow> bool" where
  "command_ok outer (Command use ps fs req f cs) \<longleftrightarrow>
     distinct (map flag_name (outer @ ps @ fs)) \<and>
     distinct (filter (\<lambda>s. s \<noteq> []) (map flag_short (outer @ ps @ fs))) \<and>
     set req \<subseteq> set (map flag_name fs) \<and> distinct (map cmd_use cs) \<and>
     (\<forall>c \<in> set cs. command_ok (outer @ ps) c)"

lemmas command_defs =
  new_root_command_def new_serve_command_def new_migrate_command_def new_records_command_def
  new_records_add_command_def new_records_delete_command_def new_records_list_command_def
  new_import_command_def new_import_tsdns_ini_command_def new_version_command_def

lemmas flag_defs = str_flag_def int32_flag_def int64_flag_def bool_flag_def

lemma root_command_ok: "command_ok [] (new_root_command env senv bi)"
  by (simp add: command_defs flag_defs Let_def)

text \<open>The commands at their paths.\<close>

abbreviation root_flags :: "flag list" where
  "root_flags \<equiv> [\<lparr>flag_name = ''config'', flag_short = ''c'', flag_default = StringFlag []\<rparr>]"

abbreviation records_flags :: "flag list" where
  "records_flags \<equiv> root_flags @ [str_flag ''api-url'', str_flag ''token'', bool_flag ''direct'']"

lemma find_commands:
  "find_command [] (new_root_command env senv bi) [''serve''] =
     Some (new_serve_command env senv (string_var ''config''), root_flags)"
  "find_command [] (new_root_command env senv bi) [''migrate''] =
     Some (new_migrate_command env (string_var ''config''), root_flags @ [str_flag ''dsn''])"
  "find_command [] (new_root_command env senv bi) [''records'', ''add''] =
     Some (new_records_add_command env (options_of (string_var ''config'')),
       records_flags @ [str_flag ''domain'', str_flag ''target'', int32_flag ''port'', int64_flag ''instance-id''])"
  "find_command [] (new_root_command env senv bi) [''records'', ''delete''] =
     Some (new_records_delete_command env (options_of (string_var ''config'')), records_flags @ [str_flag ''domain''])"
  "find_command [] (new_root_command env senv bi) [''records'', ''list''] =
     Some (new_records_list_command env (options_of (string_var ''config'')), records_flags)"
  "find_command [] (new_root_command env senv bi) [''import'', ''tsdns-ini''] =
     Some (new_import_tsdns_ini_command env (string_var ''config''),
       root_flags @ [str_flag ''input'', str_flag ''dsn'', int64_flag ''instance-id'', bool_flag ''dry-run''])"
  "find_command [] (new_root_command env senv bi) [''version''] = Some (new_version_command bi, root_flags)"
  by (simp_all add: command_defs Let_def)

declare find_command.simps [simp del]

text \<open>The values of the flags of an invocation.\<close>

definition invocation_flags :: "'r command \<Rightarrow> string list \<Rightarrow> (string \<times> flag_value) list \<Rightarrow> flags" where
  "invocation_flags root path given =
     (case find_command [] root path of None \<Rightarrow> Map.empty | Some (c, decls) \<Rightarrow> flag_values decls given)"

lemma execute_invocation:
  assumes "root = new_root_command env senv bi" "cobra root args = Inr (Some (path, given))"
    "find_command [] (new_root_command env senv bi) path = Some (c, decls)"
  shows "execute_root cobra root args w =
    (case cmd_run c of
       None \<Rightarrow> effect (w_remote w) None [] (Inr ())
     | Some f \<Rightarrow> f (invocation_flags root path given) w)"
  using assms by (simp add: execute_root_def invocation_flags_def cong: option.case_cong)

lemma effect_simps [simp]:
  "ef_ending (effect h st out res) = Returned res" "ef_output (effect h st out res) = out"
  "ef_remote (effect h st out res) = h" "ef_store (effect h st out res) = st"
  by (simp_all add: effect_def)

lemma exit_status_simps [simp]:
  "exit_status (Returned (Inl err)) = Some 1" "exit_status (Returned (Inr u)) = Some 0"
  "exit_status (Panics err) = Some 2" "exit_status (Runs s api) = None"
  by (simp_all add: exit_status_def)

lemma exit_success: "exit_status e = Some 0 \<longleftrightarrow> e = Returned (Inr ())"
  by (auto simp: exit_status_def split: ending.splits sum.splits)

text \<open>What a process that ends with status 0 has run, by its path.\<close>

lemma main_records_add:
  assumes "main_program cobra env senv bi args w = (Some 0, e)" "root = new_root_command env senv bi"
    "cobra root args = Inr (Some ([''records'', ''add''], given))"
    "fl = invocation_flags root [''records'', ''add''] given"
  shows "run_add_record env (options_of (string_var ''config'') fl) (w_clock w 0) (string_var ''domain'' fl)
    (string_var ''target'' fl) (int32_var ''port'' fl) (int64_var ''instance-id'' fl) (w_remote w)
      = (Inr (), ef_remote e, ef_store e)"
  using assms(1,2,4) execute_invocation [where cobra = cobra, OF assms(2,3) find_commands(3)]
  by (auto simp: main_program_def new_records_add_command_def exit_success split: prod.splits)

lemma main_records_delete:
  assumes "main_program cobra env senv bi args w = (Some 0, e)" "root = new_root_command env senv bi"
    "cobra root args = Inr (Some ([''records'', ''delete''], given))"
    "fl = invocation_flags root [''records'', ''delete''] given"
  shows "run_delete_record env (options_of (string_var ''config'') fl) (string_var ''domain'' fl) (w_remote w)
    = (Inr (), ef_remote e, ef_store e)"
  using assms(1,2,4) execute_invocation [where cobra = cobra, OF assms(2,3) find_commands(4)]
  by (auto simp: main_program_def new_records_delete_command_def exit_success split: prod.splits)

lemma main_records_list:
  assumes "main_program cobra env senv bi args w = (Some 0, e)" "root = new_root_command env senv bi"
    "cobra root args = Inr (Some ([''records'', ''list''], given))"
    "fl = invocation_flags root [''records'', ''list''] given"
  obtains recs where
    "run_list_records env (options_of (string_var ''config'') fl) (w_remote w) = (Inr recs, ef_remote e, ef_store e)"
    "ef_output e = print_json (listing_json (env_times env) (w_nil_list w) (w_nil_targets w) recs)"
  using assms(1,2,4) execute_invocation [where cobra = cobra, OF assms(2,3) find_commands(5)]
  by (auto simp: main_program_def new_records_list_command_def exit_success split: prod.splits sum.splits)

lemma main_import_ini:
  assumes "main_program cobra env senv bi args w = (Some 0, e)" "root = new_root_command env senv bi"
    "cobra root args = Inr (Some ([''import'', ''tsdns-ini''], given))"
    "fl = invocation_flags root [''import'', ''tsdns-ini''] given"
  obtains line where
    "run_import env (w_clock w) (string_var ''config'' fl) (string_var ''input'' fl) (string_var ''dsn'' fl)
       (int64_var ''instance-id'' fl) (bool_var ''dry-run'' fl) = (Inr line, ef_store e)"
    "ef_output e = line @ [CHR 0x0A]"
  using assms(1,2,4) execute_invocation [where cobra = cobra, OF assms(2,3) find_commands(6)]
  by (auto simp: main_program_def new_import_tsdns_ini_command_def exit_success split: prod.splits sum.splits)

lemma main_records_list_status:
  assumes "root = new_root_command env senv bi" "cobra root args = Inr (Some ([''records'', ''list''], given))"
  shows "fst (main_program cobra env senv bi args w) = Some 0 \<longleftrightarrow>
    is_ok (fst (run_list_records env (options_of (string_var ''config'')
      (invocation_flags root [''records'', ''list''] given)) (w_remote w)))"
  using execute_invocation [where cobra = cobra, OF assms find_commands(5), of w] assms(1)
  by (auto simp: main_program_def new_records_list_command_def exit_success split: prod.splits sum.splits)

text \<open>A command that worked on the storage directly.\<close>

lemma with_store_ok:
  assumes "with_store env dsn f = (Inr x, st)" "open_storage (env_backends env) dsn = Inr (repo, backend)"
  obtains repo' where "f repo = (Inr x, repo')" "st = Some (snd (repo_close (env_repo env) repo'))"
  using assms by (auto simp: with_store_def split: prod.splits)

lemma run_add_direct:
  assumes "run_add_record env opts t domain target_str port inst h = (Inr (), h', st)" "ro_direct opts"
    "load_config (env_os env) (env_yaml env) (ro_config_path opts) = Inr cfg"
  obtains targets r where "add_targets port target_str = Inr targets" "h' = h"
    "upsert_record_direct env cfg t (new_record inst domain targets) = (Inr r, st)"
  using assms by (auto simp: run_add_record_def Let_def split: sum.splits prod.splits)

lemma run_delete_direct:
  assumes "run_delete_record env opts domain h = (Inr (), h', st)" "ro_direct opts"
    "load_config (env_os env) (env_yaml env) (ro_config_path opts) = Inr cfg"
  shows "h' = h \<and> delete_record_direct env cfg domain = (Inr (), st)"
  using assms by (auto simp: run_delete_record_def Let_def split: if_splits prod.splits)

lemma run_list_direct:
  assumes "run_list_records env opts h = (Inr recs, h', st)" "ro_direct opts"
    "load_config (env_os env) (env_yaml env) (ro_config_path opts) = Inr cfg"
  obtains rs where "recs = map Some rs" "h' = h" "list_records_direct env cfg = (Inr rs, st)"
  using assms by (auto simp: run_list_records_def Let_def split: sum.splits prod.splits)

text \<open>The steps of an import that returned a line.\<close>

abbreviation import_store ::
  "('d, 'e, 'h) cli_env \<Rightarrow> (nat \<Rightarrow> time) \<Rightarrow> int64 \<Rightarrow> parse_result \<Rightarrow> ('d, 'e) store \<Rightarrow> (error + string) \<times> ('d, 'e) store"
where
  "import_store env clock inst res \<equiv> (\<lambda>repo.
     case import_entries (env_repo env) clock inst 0 (res_entries res) repo of
       (Inl err, repo) \<Rightarrow> (Inl err, repo)
     | (Inr imported, repo) \<Rightarrow>
         (Inr (''imported '' @ itoa (int imported) @ '' records (skipped '' @ itoa (int (res_skipped res)) @ '')''), repo))"

lemma run_import_ok:
  assumes "run_import env clock config_path input_path dsn_flag inst dry = (Inr line, st)"
    "load_config (env_os env) (env_yaml env) config_path = Inr cfg" "parse_file env input_path = Inr res"
  shows "if dry then st = None \<and> line = ''parsed '' @ itoa (int (length (res_entries res))) @ '' entries (skipped ''
        @ itoa (int (res_skipped res)) @ '')''
    else with_store env (if dsn_flag = [] then cfg_dsn (cfg_storage cfg) else dsn_flag) (import_store env clock inst res)
      = (Inr line, st)"
proof -
  define dsn where "dsn = (if dsn_flag = [] then cfg_dsn (cfg_storage cfg) else dsn_flag)"
  have "input_path \<noteq> []" "dsn \<noteq> []"
    using assms by (auto simp: run_import_def Let_def dsn_def split: if_splits)
  then have "run_import env clock config_path input_path dsn_flag inst dry =
     (if dry then (Inr (''parsed '' @ itoa (int (length (res_entries res))) @ '' entries (skipped ''
        @ itoa (int (res_skipped res)) @ '')''), None)
      else with_store env dsn (import_store env clock inst res))"
    by (simp only: run_import_def assms(2,3) if_False sum.case Let_def dsn_def)
  with assms(1) show ?thesis unfolding dsn_def by (cases dry) simp_all
qed

text \<open>The paths of the commands that run something.\<close>

lemma find_leaf: "\<lbrakk>find_command outer c rest = Some x; cmd_children c = []\<rbrakk> \<Longrightarrow> rest = []"
  by (cases rest) (simp_all add: find_command.simps)

lemma find_group:
  assumes "find_command outer c rest = Some (c', decls)" "cmd_run c' = Some f" "cmd_run c = None"
    "\<forall>ch \<in> set (cmd_children c). cmd_children ch = []"
  shows "\<exists>ch \<in> set (cmd_children c). rest = [cmd_use ch]"
proof (cases rest)
  case (Cons w more)
  then obtain ch where ch: "List.find (\<lambda>c. cmd_use c = w) (cmd_children c) = Some ch"
    "find_command (outer @ cmd_persistent c) ch more = Some (c', decls)"
    using assms(1) by (auto simp: find_command.simps split: option.splits)
  then have "ch \<in> set (cmd_children c)" "cmd_use ch = w" by (auto simp: find_Some_iff)
  with find_leaf [OF ch(2)] assms(4) Cons show ?thesis by auto
qed (use assms in \<open>simp add: find_command.simps\<close>)

lemma find_command_cases:
  assumes "find_command [] (new_root_command env senv bi) path = Some (c, decls)" "cmd_run c = Some f"
  shows "path \<in> {[''serve''], [''migrate''], [''records'', ''add''], [''records'', ''delete''], [''records'', ''list''],
    [''import'', ''tsdns-ini''], [''version'']}"
proof (cases path)
  case Nil
  with assms show ?thesis by (auto simp: find_command.simps new_root_command_def Let_def)
next
  case (Cons w rest)
  then obtain ch where ch: "List.find (\<lambda>c. cmd_use c = w) (cmd_children (new_root_command env senv bi)) = Some ch"
    "find_command root_flags ch rest = Some (c, decls)"
    using assms(1) by (auto simp: find_command.simps new_root_command_def Let_def split: option.splits)
  then have "ch \<in> set (cmd_children (new_root_command env senv bi))" "cmd_use ch = w" by (auto simp: find_Some_iff)
  then consider "w = ''serve''" "cmd_children ch = []" | "w = ''migrate''" "cmd_children ch = []"
    | "w = ''version''" "cmd_children ch = []"
    | "w = ''records''" "ch = new_records_command env (string_var ''config'')"
    | "w = ''import''" "ch = new_import_command env (string_var ''config'')"
    by (auto simp: command_defs Let_def)
  then show ?thesis
  proof cases
    case 4
    from find_group [OF ch(2) assms(2)] 4 Cons show ?thesis by (auto simp: command_defs Let_def)
  next
    case 5
    from find_group [OF ch(2) assms(2)] 5 Cons show ?thesis by (auto simp: command_defs Let_def)
  qed (use find_leaf [OF ch(2)] Cons in auto)
qed

text \<open>The only panic is that of a listen address.\<close>

lemma run_serve_panicked:
  assumes "run_serve env senv path = Panicked err"
  shows "\<exists>cfg err'. load_config (env_os env) (env_yaml env) path = Inr cfg \<and>
    srv_resolve senv (cfg_listen (cfg_tsdns cfg)) = Inl err'"
  using assms
  by (auto simp: run_serve_def must_build_def build_def with_metrics_def with_logger_def with_cache_refresh_interval_def
      with_repository_def new_server_addr_def new_server_value_def set_repository_def Let_def
      split: sum.splits option.splits prod.splits)

text \<open>The commands but \<open>serve\<close> return, and write nothing when they fail.\<close>

definition returns_quietly :: "('d, 'e, 'h, 'x) effect \<Rightarrow> bool" where
  "returns_quietly e \<longleftrightarrow> (\<exists>res. ef_ending e = Returned res \<and> (is_ok res \<or> ef_output e = []))"

lemma effect_quiet [simp]: "returns_quietly (effect h st out (Inr u))" "returns_quietly (effect h st [] res)"
  by (auto simp: returns_quietly_def)

lemma command_returns:
  assumes "find_command [] (new_root_command env senv bi) path = Some (c, decls)" "cmd_run c = Some f" "path \<noteq> [''serve'']"
  shows "returns_quietly (f fl w)"
proof -
  from find_command_cases [OF assms(1,2)] show ?thesis
  proof (elim insertE emptyE)
    assume "path = [''serve'']"
    with assms(3) show ?thesis by simp
  next
    assume "path = [''migrate'']"
    with assms(1,2) have "f = the (cmd_run (new_migrate_command env (string_var ''config'')))"
      by (simp add: find_commands)
    then show ?thesis by (simp add: new_migrate_command_def split: prod.split)
  next
    assume "path = [''records'', ''add'']"
    with assms(1,2) have "f = the (cmd_run (new_records_add_command env (options_of (string_var ''config''))))"
      by (simp add: find_commands)
    then show ?thesis by (simp add: new_records_add_command_def split: prod.split)
  next
    assume "path = [''records'', ''delete'']"
    with assms(1,2) have "f = the (cmd_run (new_records_delete_command env (options_of (string_var ''config''))))"
      by (simp add: find_commands)
    then show ?thesis by (simp add: new_records_delete_command_def split: prod.split)
  next
    assume "path = [''records'', ''list'']"
    with assms(1,2) have "f = the (cmd_run (new_records_list_command env (options_of (string_var ''config''))))"
      by (simp add: find_commands)
    then show ?thesis by (simp add: new_records_list_command_def split: prod.split sum.split)
  next
    assume "path = [''import'', ''tsdns-ini'']"
    with assms(1,2) have "f = the (cmd_run (new_import_tsdns_ini_command env (string_var ''config'')))"
      by (simp add: find_commands)
    then show ?thesis by (simp add: new_import_tsdns_ini_command_def split: prod.split sum.split)
  next
    assume "path = [''version'']"
    with assms(1,2) have "f = the (cmd_run (new_version_command bi))" by (simp add: find_commands)
    then show ?thesis by (simp add: new_version_command_def)
  qed
qed

end
