(* ===== verification/Root_Properties.thy ===== *)
theory Root_Properties
  imports Cli_Properties Root
begin

text \<open>
  The properties of the program as it is called: what an exit status of 0 says of the storage,
  the server and the output.
\<close>

section \<open>A concrete call\<close>

text \<open>A library that gives every call the same command and flags.\<close>

definition test_cobra :: "string list \<Rightarrow> (string \<times> flag_value) list \<Rightarrow> 'r cobra" where
  "test_cobra path given = (\<lambda>root args. Inr (Some (path, given)))"

definition test_serve_env :: "unit serve_env" where
  "test_serve_env =
     \<lparr>srv_resolve = (\<lambda>a. Inr ()), srv_metrics_page = respond 200 (OtherBody []),
      srv_fallback = (\<lambda>r. respond 404 (OtherBody []))\<rparr>"

definition test_world :: "((table, mem) store, rx_item list) server world" where
  "test_world = \<lparr>w_clock = (\<lambda>k. 7), w_remote = sql_server, w_nil_list = False, w_nil_targets = (\<lambda>r. False)\<rparr>"

abbreviation called where
  "called env path given \<equiv> main_program (test_cobra path given) env test_serve_env default_build [] test_world"

lemma test_called: "test_cobra path given root args = Inr (Some (path, given))"
  by (simp add: test_cobra_def)

lemmas invocation_defs = invocation_flags_def find_commands flag_values_def flag_defs

section \<open>The end of the process\<close>



section \<open>Listing\<close>

text \<open>
  C3: If \<open>tsdns records list\<close> through the API ends with status 0, then its output is the JSON of
  the stored records, each once and with every field of the record, as long as the texts in
  them are valid UTF-8 and the targets are addresses without a zone; the request changes
  neither the records nor the tables.
\<close>

theorem main_list_prints:
  assumes laws: "sql_laws db rows" "redis_laws rds keys" and inv: "store_invar rows keys (srv_repository (w_remote w))"
    and main: "main_program cobra env senv bi args w = (Some 0, e)" "root = new_root_command env senv bi"
      "cobra root args = Inr (Some ([''records'', ''list''], given))"
    and opts: "opts = options_of (string_var ''config'') (invocation_flags root [''records'', ''list''] given)"
    and cfg: "load_config (env_os env) (env_yaml env) (ro_config_path opts) = Inr cfg" "\<not> ro_direct opts"
    and reach: "reaches env (resolve_api_client (env_os env) cfg (ro_api_url opts) (ro_token opts)) remote api
        (core_manager (storage_repo db rds tc) eng now)"
    and stored: "repo_find (storage_repo db rds tc) (srv_repository (w_remote w)) = Inr rs"
      "list_all (record_text_ok (env_times env)) rs"
  shows "decode_records (env_times env) (ef_output e) = Some (map Some rs) \<and> distinct (map rec_domain rs) \<and>
    entries_of rs = store_content rows keys (srv_repository (w_remote w)) \<and>
    srv_repository (ef_remote e) = srv_repository (w_remote w) \<and> same_tables (ef_remote e) (w_remote w)"
proof -
  obtain recs where recs: "run_list_records env opts (w_remote w) = (Inr recs, ef_remote e, ef_store e)"
    "ef_output e = print_json (listing_json (env_times env) (w_nil_list w) (w_nil_targets w) recs)"
    unfolding opts by (rule main_records_list [OF main refl])
  note shown = cli_list_shows [OF laws inv cfg reach recs(1) stored]
  have "list_all (\<lambda>ro. case ro of None \<Rightarrow> True | Some r \<Rightarrow> record_text_ok (env_times env) r) (map Some rs)"
    using stored(2) by (simp add: list_all_iff)
  from decode_listing [OF this] shown recs(2) show ?thesis by simp
qed

theorem main_list_prints_witness:
  "decode_records test_codec (ef_output (snd (called (test_env ''http://127.0.0.1:8080'' ''secret'') [''records'', ''list''] [])
     :: (table, mem, _, rx_item list) effect)) = Some (map Some wild_records)"
proof -
  let ?env = "test_env ''http://127.0.0.1:8080'' ''secret''"
  let ?root = "new_root_command ?env test_serve_env default_build :: (table, mem, _, rx_item list) action command"
  have opts: "test_opts = options_of (string_var ''config'') (invocation_flags ?root [''records'', ''list''] [])"
    by (simp add: invocation_defs options_of_def test_opts_def string_var_def bool_var_def)
  have w: "w_remote test_world = sql_server" by (simp add: test_world_def)
  have ok: "is_ok (fst (run_list_records ?env test_opts sql_server))" by code_simp
  have "fst (called ?env [''records'', ''list''] [] :: nat option \<times> (table, mem, _, rx_item list) effect) = Some 0
      \<longleftrightarrow> is_ok (fst (run_list_records ?env (options_of (string_var ''config'')
        (invocation_flags ?root [''records'', ''list''] [])) (w_remote test_world)))"
    by (rule main_records_list_status [where cobra = "test_cobra [''records'', ''list''] []", OF refl test_called])
  then have "fst (called ?env [''records'', ''list''] [] :: nat option \<times> (table, mem, _, rx_item list) effect) = Some 0"
    by (simp only: opts [symmetric] w ok)
  then have main: "called ?env [''records'', ''list''] [] =
      (Some 0, snd (called ?env [''records'', ''list''] []) :: (table, mem, _, rx_item list) effect)"
    by (metis prod.collapse)
  have find: "repo_find test_ops (srv_repository (w_remote test_world)) = Inr wild_records" unfolding w by code_simp
  have inv: "store_invar tbl_rows mem_store (srv_repository (w_remote test_world))"
    using store_invar_servers(2) w by simp
  have texts: "list_all (record_text_ok (env_times ?env)) wild_records"
    using wild_records_text by (simp add: test_env_def)
  from main_list_prints [OF table_laws mem_laws inv main refl test_called opts test_setup find texts]
  show ?thesis by (simp add: test_env_def)
qed

section \<open>Working on the storage\<close>

text \<open>
  C30: If \<open>tsdns records add\<close>, \<open>delete\<close> or \<open>list\<close> with \<open>--direct\<close> ends with status 0, then the
  storage that the configuration names holds the new record in the place of an old one of the
  domain; (its targets without zones), or it held the deleted record and holds the others, or it is
  unchanged and its records are printed. No request is sent. So for either backend that its closing does not
  change.
\<close>

theorem main_direct:
  assumes laws: "sql_laws db rows" "redis_laws rds keys"
    and env: "env_repo env = storage_repo db rds tc"
      "\<And>st. store_content rows keys (snd (repo_close (env_repo env) st)) = store_content rows keys st"
    and main: "main_program cobra env senv bi args w = (Some 0, e)" "root = new_root_command env senv bi"
      "cobra root args = Inr (Some ([''records'', word], given))" "word \<in> {''add'', ''delete'', ''list''}"
    and opts: "fl = invocation_flags root [''records'', word] given" "bool_var ''direct'' fl"
    and cfg: "load_config (env_os env) (env_yaml env) (string_var ''config'' fl) = Inr cfg"
      "open_storage (env_backends env) (cfg_dsn (cfg_storage cfg)) = Inr (r0, backend)" "store_invar rows keys r0"
  shows "ef_remote e = w_remote w \<and> (\<exists>r1. ef_store e = Some r1 \<and>
    (word = ''add'' \<longrightarrow> (\<exists>targets. add_targets (int32_var ''port'' fl) (string_var ''target'' fl) = Inr targets \<and>
       (list_all (\<lambda>tp. zoneless (fst tp)) targets \<longrightarrow> store_content rows keys r1 = (store_content rows keys r0)
         (string_var ''domain'' fl \<mapsto> (int64_var ''instance-id'' fl, targets))))) \<and>
    (word = ''delete'' \<longrightarrow> store_content rows keys r0 (string_var ''domain'' fl) \<noteq> None \<and>
       store_content rows keys r1 = (store_content rows keys r0)(string_var ''domain'' fl := None)) \<and>
    (word = ''list'' \<longrightarrow> store_content rows keys r1 = store_content rows keys r0 \<and>
       (\<exists>rs. repo_find (env_repo env) r0 = Inr rs \<and> entries_of rs = store_content rows keys r0 \<and>
          ef_output e = print_json (listing_json (env_times env) (w_nil_list w) (w_nil_targets w) (map Some rs)))))"
proof -
  note repo = storage_record_repository [OF laws, of tc, folded env(1)]
  have direct: "ro_direct (options_of (string_var ''config'') fl)"
    "load_config (env_os env) (env_yaml env) (ro_config_path (options_of (string_var ''config'') fl)) = Inr cfg"
    using opts(2) cfg(1) by (simp_all add: options_of_def)
  consider "word = ''add''" | "word = ''delete''" | "word = ''list''" using main(4) by blast
  then show ?thesis
  proof cases
    case 1
    let ?r = "new_record (int64_var ''instance-id'' fl) (string_var ''domain'' fl)"
    obtain targets r where t: "add_targets (int32_var ''port'' fl) (string_var ''target'' fl) = Inr targets"
      "ef_remote e = w_remote w" "upsert_record_direct env cfg (w_clock w 0) (?r targets) = (Inr r, ef_store e)"
      using run_add_direct [OF main_records_add [OF main(1,2) main(3) [unfolded 1] opts(1) [unfolded 1]] direct] by metis
    obtain r1 where r1: "repo_create (env_repo env) (w_clock w 0) (Some (?r targets)) r0 = (Inr r, r1)"
      "ef_store e = Some (snd (repo_close (env_repo env) r1))"
      using with_store_ok [OF t(3) [unfolded upsert_record_direct_def] cfg(2)] by metis
    have "list_all (\<lambda>t. storable_target t \<and> redis_storable t) targets" if "list_all (\<lambda>tp. zoneless (fst tp)) targets"
      using add_targets_valid [OF t(1)] that by (simp add: list_all_iff storable_target_def redis_storable_def)
    then have "list_all (\<lambda>tp. zoneless (fst tp)) targets \<longrightarrow> store_content rows keys r1 = (store_content rows keys r0)
        (string_var ''domain'' fl \<mapsto> (int64_var ''instance-id'' fl, targets))"
      using record_repository.create_content [OF repo cfg(3) _ r1(1)] by (simp add: new_record_def rec_entry_def)
    with t(1,2) r1(2) env(2) 1 show ?thesis by simp
  next
    case 2
    have d: "ef_remote e = w_remote w"
      "delete_record_direct env cfg (string_var ''domain'' fl) = (Inr (), ef_store e)"
      using run_delete_direct [OF main_records_delete [OF main(1,2) main(3) [unfolded 2] opts(1) [unfolded 2]] direct]
      by simp_all
    obtain r1 where r1: "repo_delete (env_repo env) (string_var ''domain'' fl) r0 = (Inr (), r1)"
      "ef_store e = Some (snd (repo_close (env_repo env) r1))"
      using with_store_ok [OF d(2) [unfolded delete_record_direct_def] cfg(2)] by metis
    from record_repository.delete_content [OF repo cfg(3) r1(1)] d(1) r1(2) env(2) 2 show ?thesis by simp
  next
    case 3
    obtain recs where recs: "run_list_records env (options_of (string_var ''config'') fl) (w_remote w)
        = (Inr recs, ef_remote e, ef_store e)"
      "ef_output e = print_json (listing_json (env_times env) (w_nil_list w) (w_nil_targets w) recs)"
      using main_records_list [OF main(1,2) main(3) [unfolded 3] opts(1) [unfolded 3]] by metis
    obtain rs where rs: "recs = map Some rs" "ef_remote e = w_remote w"
      "list_records_direct env cfg = (Inr rs, ef_store e)"
      using run_list_direct [OF recs(1) direct] by metis
    obtain r1 where r1: "repo_find (env_repo env) r0 = Inr rs" "ef_store e = Some (snd (repo_close (env_repo env) r0))"
      using with_store_ok [OF rs(3) [unfolded list_records_direct_def] cfg(2)] by (metis prod.inject)
    from record_repository.find_content [OF repo cfg(3) r1(1)] rs(1,2) r1 recs(2) env(2) 3 show ?thesis by simp
  qed
qed

abbreviation direct_flags :: "(string \<times> flag_value) list" where
  "direct_flags \<equiv> [(''direct'', BoolFlag True), (''domain'', StringFlag ''a.ts''), (''target'', StringFlag ''10.0.0.1:9987'')]"

lemma test_storage:
  "open_storage (env_backends (test_env base token)) (cfg_dsn (cfg_storage test_config)) = Inr (SqlStore empty_table, ''sql'')"
  "store_invar tbl_rows mem_store (SqlStore empty_table)"
  "env_repo (test_env base token) = test_ops"
  "store_content tbl_rows mem_store (snd (repo_close (env_repo (test_env base token)) st)) = store_content tbl_rows mem_store st"
proof -
  show "open_storage (env_backends (test_env base token)) (cfg_dsn (cfg_storage test_config))
      = Inr (SqlStore empty_table, ''sql'')"
    by code_simp
  show "store_invar tbl_rows mem_store (SqlStore empty_table)"
    using sql_invar_empty by (simp add: store_invar_def)
  show ops: "env_repo (test_env base token) = test_ops" by (simp add: test_env_def)
  have "repo_close test_ops st = (Inr (), st)"
    by (cases st) (simp_all add: storage_repo_def either_repo_def sql_repo_def redis_repo_def table_db_def mem_redis_def)
  then show "store_content tbl_rows mem_store (snd (repo_close (env_repo (test_env base token)) st))
      = store_content tbl_rows mem_store st"
    by (simp only: ops snd_conv)
qed

theorem main_direct_witness:
  "\<exists>r1. ef_store (snd (called (test_env ''http://127.0.0.1:8080'' ''secret'') [''records'', ''add''] direct_flags)
       :: (table, mem, _, rx_item list) effect) = Some r1 \<and>
     store_content tbl_rows mem_store r1 ''a.ts'' = Some (0, [(Addr4 10 0 0 1, 9987)])"
proof -
  let ?env = "test_env ''http://127.0.0.1:8080'' ''secret''"
  let ?root = "new_root_command ?env test_serve_env default_build :: (table, mem, _, rx_item list) action command"
  let ?fl = "invocation_flags ?root [''records'', ''add''] direct_flags"
  have vars: "string_var ''config'' ?fl = []" "string_var ''domain'' ?fl = ''a.ts''"
    "string_var ''target'' ?fl = ''10.0.0.1:9987''" "int32_var ''port'' ?fl = 0" "int64_var ''instance-id'' ?fl = 0"
    "bool_var ''direct'' ?fl"
    by (simp_all add: invocation_defs string_var_def bool_var_def int32_var_def int64_var_def)
  have targets: "add_targets 0 ''10.0.0.1:9987'' = Inr [(Addr4 10 0 0 1, 9987)]" by code_simp
  have "fst (called ?env [''records'', ''add''] direct_flags) = Some 0" by code_simp
  then have main: "called ?env [''records'', ''add''] direct_flags =
      (Some 0, snd (called ?env [''records'', ''add''] direct_flags) :: (table, mem, _, rx_item list) effect)"
    by (metis prod.collapse)
  have cfg: "load_config (env_os ?env) (env_yaml ?env) (string_var ''config'' ?fl) = Inr test_config"
    unfolding vars using test_config_loads by (simp add: test_env_def)
  have word: "''add'' \<in> {''add'', ''delete'', ''list''}" by simp
  from main_direct [OF table_laws mem_laws test_storage(3,4) main refl test_called word refl vars(6) cfg test_storage(1,2)]
  show ?thesis using targets by (auto simp: vars zoneless_def)
qed

section \<open>Importing\<close>

text \<open>
  C29: If \<open>tsdns import tsdns-ini\<close> ends with status 0, then the file was parsed and, with
  \<open>--dry-run\<close>, no storage was opened; without it every entry was read and is stored in the
  storage that \<open>--dsn\<close> or else the configuration names, the later of two for one domain, over
  what was there before. The output tells the numbers of the entries and the skipped lines.
\<close>

theorem main_import:
  assumes laws: "sql_laws db rows" "redis_laws rds keys"
    and env: "env_repo env = storage_repo db rds tc"
      "\<And>st. store_content rows keys (snd (repo_close (env_repo env) st)) = store_content rows keys st"
    and main: "main_program cobra env senv bi args w = (Some 0, e)" "root = new_root_command env senv bi"
      "cobra root args = Inr (Some ([''import'', ''tsdns-ini''], given))"
    and opts: "fl = invocation_flags root [''import'', ''tsdns-ini''] given"
    and cfg: "load_config (env_os env) (env_yaml env) (string_var ''config'' fl) = Inr cfg"
      "open_storage (env_backends env)
         (if string_var ''dsn'' fl = [] then cfg_dsn (cfg_storage cfg) else string_var ''dsn'' fl) = Inr (r0, backend)"
      "store_invar rows keys r0"
    and parsed: "parse_file env (string_var ''input'' fl) = Inr res"
      "\<forall>x \<in> set (res_entries res). \<forall>tps. import_targets x = Inr tps \<longrightarrow> list_all (\<lambda>tp. zoneless (fst tp)) tps"
  shows "if bool_var ''dry-run'' fl
    then ef_store e = None \<and> ef_output e = ''parsed '' @ itoa (int (length (res_entries res)))
        @ '' entries (skipped '' @ itoa (int (res_skipped res)) @ '')'' @ [CHR 0x0A]
    else ef_output e = ''imported '' @ itoa (int (length (res_entries res)))
        @ '' records (skipped '' @ itoa (int (res_skipped res)) @ '')'' @ [CHR 0x0A] \<and>
      list_all (\<lambda>x. ini_content (int64_var ''instance-id'' fl) x \<noteq> None) (res_entries res) \<and>
      (\<exists>r1. ef_store e = Some r1 \<and> store_content rows keys r1 = store_content rows keys r0 ++
         map_of (rev (List.map_filter (ini_content (int64_var ''instance-id'' fl)) (res_entries res))))"
proof -
  let ?i = "int64_var ''instance-id'' fl" and ?es = "res_entries res"
  note repo = storage_record_repository [OF laws, of tc, folded env(1)]
  obtain line where line: "run_import env (w_clock w) (string_var ''config'' fl) (string_var ''input'' fl)
       (string_var ''dsn'' fl) ?i (bool_var ''dry-run'' fl) = (Inr line, ef_store e)" "ef_output e = line @ [CHR 0x0A]"
    by (rule main_import_ini [OF main opts])
  note run = run_import_ok [OF line(1) cfg(1) parsed(1)]
  show ?thesis
  proof (cases "bool_var ''dry-run'' fl")
    case True
    then have "ef_store e = None" and "line = ''parsed '' @ itoa (int (length ?es)) @ '' entries (skipped ''
        @ itoa (int (res_skipped res)) @ '')''"
      using run by (simp_all only: if_True)
    with True line(2) show ?thesis by (simp only: if_True append_assoc simp_thms)
  next
    case False
    then have opened: "with_store env
         (if string_var ''dsn'' fl = [] then cfg_dsn (cfg_storage cfg) else string_var ''dsn'' fl)
         (import_store env (w_clock w) ?i res) = (Inr line, ef_store e)"
      using run by (simp only: if_False)
    obtain r1 where r1: "import_store env (w_clock w) ?i res r0 = (Inr line, r1)"
      "ef_store e = Some (snd (repo_close (env_repo env) r1))"
      by (rule with_store_ok [OF opened cfg(2)])
    obtain kr r2 where kr: "import_entries (env_repo env) (w_clock w) ?i 0 ?es r0 = (kr, r2)" by fastforce
    with r1(1) obtain k where "kr = Inr k" "r2 = r1"
      "line = ''imported '' @ itoa (int k) @ '' records (skipped '' @ itoa (int (res_skipped res)) @ '')''"
      by (cases kr) auto
    with kr have k: "import_entries (env_repo env) (w_clock w) ?i 0 ?es r0 = (Inr k, r1)"
      "line = ''imported '' @ itoa (int k) @ '' records (skipped '' @ itoa (int (res_skipped res)) @ '')''"
      by simp_all
    have storable: "list_all (\<lambda>t. storable_target t \<and> redis_storable t) tps"
      if "x \<in> set ?es" "import_targets x = Inr tps" for x tps
      using import_targets_valid [OF that(2)] parsed(2) that
      by (simp add: list_all_iff storable_target_def redis_storable_def)
    have "k = length ?es" "list_all (\<lambda>x. ini_content ?i x \<noteq> None) ?es"
      "store_content rows keys r1 = store_content rows keys r0 ++ map_of (rev (List.map_filter (ini_content ?i) ?es))"
      using record_repository.import_entries_content [OF repo cfg(3) _ k(1)] storable by auto
    moreover from this(1) k(2) line(2) have "ef_output e = ''imported '' @ itoa (int (length ?es))
        @ '' records (skipped '' @ itoa (int (res_skipped res)) @ '')'' @ [CHR 0x0A]"
      by (simp only: append_assoc)
    ultimately show ?thesis using False r1(2) env(2) by (simp only: if_False simp_thms) metis
  qed
qed

definition import_env where
  "import_env = (test_env ''http://127.0.0.1:8080'' ''secret'')
     \<lparr>env_open := (\<lambda>p. Inr \<lparr>rd_bytes = ''a.ts=10.0.0.1:9987'', rd_fails = False\<rparr>)\<rparr>"

theorem main_import_witness:
  "\<exists>r1. ef_store (snd (called import_env [''import'', ''tsdns-ini''] [(''input'', StringFlag ''t.ini'')])
       :: (table, mem, _, rx_item list) effect) = Some r1 \<and>
     store_content tbl_rows mem_store r1 ''a.ts'' = Some (0, [(Addr4 10 0 0 1, 9987)])"
proof -
  let ?given = "[(''input'', StringFlag ''t.ini'')]"
  let ?root = "new_root_command import_env test_serve_env default_build :: (table, mem, _, rx_item list) action command"
  let ?fl = "invocation_flags ?root [''import'', ''tsdns-ini''] ?given"
  let ?entry = "\<lparr>ent_ident = ''a.ts'', ent_value = ''10.0.0.1:9987'', ent_line = 1\<rparr>"
  have vars: "string_var ''config'' ?fl = []" "string_var ''input'' ?fl = ''t.ini''" "string_var ''dsn'' ?fl = []"
    "int64_var ''instance-id'' ?fl = 0" "bool_var ''dry-run'' ?fl \<longleftrightarrow> False"
    by (simp_all add: invocation_defs string_var_def bool_var_def int64_var_def)
  have entry: "import_targets ?entry = Inr [(Addr4 10 0 0 1, 9987)]" by code_simp
  have "fst (called import_env [''import'', ''tsdns-ini''] ?given) = Some 0" by code_simp
  then have main: "called import_env [''import'', ''tsdns-ini''] ?given =
      (Some 0, snd (called import_env [''import'', ''tsdns-ini''] ?given) :: (table, mem, _, rx_item list) effect)"
    by (metis prod.collapse)
  have env: "env_os import_env = test_os" "env_yaml import_env = (\<lambda>b c. None)" "env_repo import_env = test_ops"
    "env_backends import_env = env_backends (test_env [] [])"
    by (simp_all add: import_env_def test_env_def)
  have cfg: "load_config (env_os import_env) (env_yaml import_env) (string_var ''config'' ?fl) = Inr test_config"
    using test_config_loads by (simp add: env vars)
  have opened: "open_storage (env_backends import_env)
      (if string_var ''dsn'' ?fl = [] then cfg_dsn (cfg_storage test_config) else string_var ''dsn'' ?fl)
      = Inr (SqlStore empty_table, ''sql'')"
    by (simp add: vars env test_storage(1))
  have parsed: "parse_file import_env (string_var ''input'' ?fl) = Inr \<lparr>res_entries = [?entry], res_skipped = 0\<rparr>"
    unfolding vars by code_simp
  have close: "store_content tbl_rows mem_store (snd (repo_close (env_repo import_env) st)) = store_content tbl_rows mem_store st"
    for st :: "(table, mem) store"
    using test_storage(4) by (simp add: env test_storage(3))
  have zoneless: "\<forall>x \<in> set (res_entries \<lparr>res_entries = [?entry], res_skipped = 0\<rparr>). \<forall>tps.
      import_targets x = Inr tps \<longrightarrow> list_all (\<lambda>tp. zoneless (fst tp)) tps"
    using entry by (auto simp: zoneless_def)
  have "ini_content 0 ?entry = Some (''a.ts'', (0, [(Addr4 10 0 0 1, 9987)]))"
    by (simp only: ini_content_def entry sum.case ini_entry.simps)
  then have "map_of (rev (List.map_filter (ini_content 0) [?entry])) = [''a.ts'' \<mapsto> (0, [(Addr4 10 0 0 1, 9987)])]"
    by (simp add: map_filter_simps del: One_nat_def)
  with main_import [OF table_laws mem_laws env(3) close main refl test_called refl cfg opened test_storage(2) parsed zoneless]
  show ?thesis by (simp only: vars if_False parse_result.simps) auto
qed

end
