(* ===== verification/Spec2Isabelle.thy ===== *)
theory Spec2Isabelle
  imports Core_Properties Repository_Properties Import_Properties Admin_Properties Api_Properties Cli_Properties
    Root_Properties
begin

text \<open>
  A verification library for \<open>tsdns\<close>, a server of the TeamSpeak TSDNS protocol.

  \<^bold>\<open>The program.\<close> A TSDNS server answers a line with a host name by the addresses stored for
  it. The records are kept in a SQL database or in Redis, behind the interface
  \<open>RecordRepository\<close>. The server answers from three tables in memory (exact names, expressions,
  wildcards), which are rebuilt from the repository after each operation of its own and
  periodically. An admin HTTP API lists, writes and deletes records through the server; the
  command line does so through the API or directly on the storage, and imports
  \<open>tsdns_settings.ini\<close> files.

  \<^bold>\<open>The theories and the code.\<close>

  \<^item> \<open>Prelude\<close>: named theorem collections and generic lemmas. \<open>Go_Strings\<close>, \<open>Go_Strconv\<close>, \<open>Netip\<close>,
    \<open>Utf8\<close>, \<open>Go_Json\<close>, \<open>Go_Url\<close>, \<open>Go_Path\<close>, \<open>Go_Time\<close>, \<open>Go_Duration\<close>: what the code uses of the packages
    \<open>strings\<close>, \<open>strconv\<close>, \<open>net/netip\<close>, \<open>unicode/utf8\<close>, \<open>encoding/json\<close>, \<open>net/url\<close>, \<open>path/filepath\<close>
    and \<open>time\<close>; strings are byte strings, integers have their width.
  \<^item> \<open>Core_Types\<close>: records, errors as values, metrics as events, the regular expression engine
    as a parameter, and the contract of the repository interface as the locale
    \<open>record_repository\<close> (\<open>core/record.go\<close>, \<open>core/metrics.go\<close>).
  \<^item> \<open>Cache\<close> (\<open>core/cache.go\<close>): the tables and their construction. \<open>Glob\<close>: the reading of
    the expressions made of globs. \<open>Handler\<close> (\<open>core/handler.go\<close>): parsing of a query, lookup,
    response. \<open>Metrics\<close> (\<open>internal/metrics\<close>): the counters.
  \<^item> \<open>Server\<close> (\<open>core/server.go\<close>, \<open>core/record.go\<close>): builder, record operations, \<open>Start\<close>, accept
    loop, \<open>Close\<close>, updater. \<open>Refresh\<close>: operations, queries and reloads as interleaved tasks;
    a reload has two steps, the listing and the installation, because the code holds the
    lock only in the second.
  \<^item> \<open>Sql_Repo\<close> (\<open>repository/sql\<close>), \<open>Redis_Repo\<close> (\<open>repository/redis\<close>): the two repositories, over
    the statements of the database and the commands of the Redis client, which are
    parameters with the laws \<open>sql_laws\<close> and \<open>redis_laws\<close>: what each call does when it succeeds,
    and that a failed transaction changes nothing. Both keep the contract, for any
    such database and server; a table and a key space in memory satisfy the laws.
    \<open>Redis_Race\<close>: the calls of the Redis repository cut into their round trips, so that calls
    that overlap interleave.
  \<^item> \<open>Wire\<close>: the JSON bodies between the admin API and its client, as both write and read them
    (\<open>decodeJSON\<close>, \<open>writeJSON\<close> of \<open>internal/api/handlers.go\<close>, the payload and the decoders of
    \<open>internal/cli/records.go\<close>). \<open>Json_Indent\<close>: the indented JSON that the command line prints
    (\<open>printJSON\<close>).
  \<^item> \<open>Ini_Parser\<close> (\<open>internal/importer/tsdnsini\<close>) and \<open>Importer\<close> (\<open>internal/cli/import.go\<close>).
  \<^item> \<open>Config\<close> (\<open>internal/config\<close>), \<open>Storage\<close> (\<open>internal/storage\<close>): configuration, data source
    names, and the repository of either backend as one, which keeps the contract again.
  \<^item> \<open>Api\<close> (\<open>internal/api\<close>): token check, routes, handlers, listeners. The handlers rely on the
    contract of \<open>RecordManager\<close>, the locale \<open>record_manager\<close>, which the TSDNS server over any
    repository with its contract keeps (a sublocale).
  \<^item> \<open>Cli\<close>, \<open>Serve\<close> (\<open>internal/cli\<close>): what the commands and the process do. \<open>Root\<close>
    (\<open>internal/cli/root.go\<close>, \<open>version.go\<close>, the constructors of the commands, \<open>cmd/tsdns\<close>): the
    tree of commands with their flags, and the call of the program up to its exit status.
    \<open>Admin\<close>: the requests of the command line as the handlers of the API see them.
  \<^item> \<open>Fixtures\<close>, \<open>Admin_Fixtures\<close>: concrete servers, storages and environments. The theories
    named \<open>_Properties\<close> hold the properties, each beside an evaluated instance.

  \<^bold>\<open>What is shown.\<close>

  \<^item> End to end: a record entered by the command line through the API is what a query for its
    domain is answered, and a deleted one answers nothing, over both backends; what it prints
    is the JSON of the stored records; with a wrong token it learns and changes nothing. A call
    of the program that ends with status 0 has done to the storage what its flags say, one that
    ends with 1 has printed nothing, and the only panic is that of a listen address.
  \<^item> The repositories, the API and the import refine a map from domains to instances and
    targets; failures leave the database, the tables and the indices consistent.
  \<^item> The lookup in the tables equals a search over the listed records with its order of
    precedence; globs match what their expressions match; queries, responses, values of the
    import, Redis hashes and printed files are read back.
  \<^item> Under every interleaving the answers are those of one listing; they are current if
    reloads exclude each other, which the code does not ensure, and a lost update is exhibited.
    Calls of the Redis repository that overlap take effect one after the other, but the sets
    of the instances are not kept, which is exhibited too.
  \<^item> Only admitted requests change records; the configuration is layered as documented; an
    accepted storage name is complete, and a printed one is read back.

  \<^bold>\<open>State and results.\<close> State is passed explicitly; a function that may fail returns \<open>Inl\<close> of
  an error. A method on a pointer to the server takes and returns the record \<open>server\<close>. Calls of
  the metrics are appended to the list \<open>srv_metrics\<close>. Time is an argument of the operations that
  read the clock.

  \<^bold>\<open>Bounds.\<close> There is no fuel: loops are structural recursions on their input, or terminate by a
  measure on the length of the rest of the text. The limits of the code are kept: 512 bytes
  of a query, 1 MiB of a body, 1 MiB of a scanned line.

  \<^bold>\<open>Parameters.\<close> The regular expression engine, the databases, the texts of times (a codec, of
  which \<open>Go_Time\<close> is the instance for RFC3339Nano in UTC), the parser of YAML, the
  library that reads command lines, the HTTP transport, the resolver and the listeners are arguments of the definitions.
  Hypotheses on them state documented behaviour: \<open>glob_regexp\<close>, \<open>sql_laws\<close>, \<open>redis_laws\<close> and
  \<open>reaches\<close> (the client's answer is the one of the handlers of this API, written as JSON); each
  holds for a concrete instance.

  \<^bold>\<open>Not modelled.\<close> Log lines (but those of the Redis hooks; of a logger its level and format are
  kept), durations of metrics, timeouts and deadlines, the texts of error messages beyond what the
  code inspects; the slow-query hook of the SQL library; the help texts, which are the command
  library's. Goroutines of handlers are modelled as far as they
  touch the tables (\<open>Refresh\<close>) and Redis (\<open>Redis_Race\<close>); the isolation of overlapping
  transactions is left to the database.
\<close>

end
